(* ===== verification/Avs_Prelude.thy ===== *)
theory Avs_Prelude
  imports Main "HOL-Library.Word" "HOL-Library.State_Monad" "HOL-Library.Sublist"
begin

text \<open>
  Shared vocabulary of the development: the outcome of a Rust call (a value, an \<open>Err\<close>, or a
  panic), the \<open>anyhow\<close> error values, Rust strings and byte vectors, and the list lemmas that
  several components use.

  A Rust \<open>str\<close> is modelled by its UTF-8 bytes, as a HOL \<open>string\<close>: \<open>len\<close> is the
  list length, comparison is list equality, and a search or a split for an ASCII character works
  on bytes exactly as it does on characters, since no byte of a multi-byte sequence is ASCII.
  A \<open>Vec<u8>\<close> is a list of 8-bit words.  An \<open>i64\<close> is an \<open>int\<close>, with the
  wrap-around of release builds written out by \<open>wrap_i64\<close>.
\<close>

named_theorems outcome_simps \<open>when a fallible computation yields a given outcome\<close>
named_theorems ffi_wp \<open>rules of the ownership calculus, one for each kind of step\<close>
named_theorems ffi_defs \<open>definitions of foreign-call programs, unfolded before their proof\<close>

section \<open>Outcomes\<close>

datatype ('e, 'a) outcome = Ok 'a | Err 'e | Panicked string

fun bind_outcome :: "('e, 'a) outcome \<Rightarrow> ('a \<Rightarrow> ('e, 'b) outcome) \<Rightarrow> ('e, 'b) outcome" where
  "bind_outcome (Ok x) f = f x"
| "bind_outcome (Err e) f = Err e"
| "bind_outcome (Panicked s) f = Panicked s"

fun map_err :: "('e \<Rightarrow> 'f) \<Rightarrow> ('e, 'a) outcome \<Rightarrow> ('f, 'a) outcome" where
  "map_err f (Ok x) = Ok x"
| "map_err f (Err e) = Err (f e)"
| "map_err f (Panicked s) = Panicked s"

fun map_ok :: "('a \<Rightarrow> 'b) \<Rightarrow> ('e, 'a) outcome \<Rightarrow> ('e, 'b) outcome" where
  "map_ok f (Ok x) = Ok (f x)"
| "map_ok f (Err e) = Err e"
| "map_ok f (Panicked s) = Panicked s"

fun ok_or :: "'e \<Rightarrow> 'a option \<Rightarrow> ('e, 'a) outcome" where
  "ok_or e None = Err e"
| "ok_or e (Some x) = Ok x"

fun is_ok :: "('e, 'a) outcome \<Rightarrow> bool" where
  "is_ok (Ok _) = True"
| "is_ok _ = False"

lemma bind_outcome_eq_Ok [outcome_simps]:
  "bind_outcome x f = Ok z \<longleftrightarrow> (\<exists>y. x = Ok y \<and> f y = Ok z)"
  by (cases x) simp_all

lemma bind_outcome_eq_Err [outcome_simps]:
  "bind_outcome x f = Err e \<longleftrightarrow> x = Err e \<or> (\<exists>y. x = Ok y \<and> f y = Err e)"
  by (cases x) simp_all

lemma map_err_eq_Ok [outcome_simps]: "map_err f x = Ok z \<longleftrightarrow> x = Ok z"
  by (cases x) simp_all

lemma map_err_eq_Err [outcome_simps]: "map_err f x = Err e \<longleftrightarrow> (\<exists>d. x = Err d \<and> e = f d)"
  by (cases x) auto

lemma map_ok_outcome [outcome_simps]:
  "map_ok f r = Ok z \<longleftrightarrow> (\<exists>y. r = Ok y \<and> z = f y)"
  "map_ok f r = Err e \<longleftrightarrow> r = Err e"
  by (cases r; auto)+

lemma ok_or_eq_Ok [outcome_simps]: "ok_or e x = Ok z \<longleftrightarrow> x = Some z"
  by (cases x) simp_all

lemma ok_or_eq_Err [outcome_simps]: "ok_or e x = Err d \<longleftrightarrow> x = None \<and> d = e"
  by (cases x) auto

lemma if_Err_eq_Ok [outcome_simps]:
  "(if b then Err e else x) = Ok z \<longleftrightarrow> \<not> b \<and> x = Ok z"
  "(if b then x else Err e) = Ok z \<longleftrightarrow> b \<and> x = Ok z"
  by simp_all

section \<open>Errors\<close>

text \<open>
  The error enumeration of the TCA client, and the \<open>anyhow::Error\<close> values: a message raised by
  \<open>bail!\<close>, \<open>ensure!\<close> or \<open>anyhow!\<close>, a typed error wrapped by \<open>anyhow::Error::new\<close>, or
  an error with context.  A message that interpolates a debug rendering is identified by its format
  string, with the holes left in place; how \<open>Debug\<close> prints is not modelled.
\<close>

datatype certificate_error =
    Platform string
  | Network string
  | Protocol string
  | Unknown string

datatype anyhow =
    Msg string
  | CertErr certificate_error
  | Context string anyhow

definition with_context :: "string \<Rightarrow> (anyhow, 'a) outcome \<Rightarrow> (anyhow, 'a) outcome" where
  "with_context s r = map_err (Context s) r"

definition bail :: "string \<Rightarrow> (anyhow, 'a) outcome" where
  "bail s = Err (Msg s)"

lemma with_context_eq_Ok [outcome_simps]: "with_context s r = Ok z \<longleftrightarrow> r = Ok z"
  by (simp add: with_context_def map_err_eq_Ok)

lemma bail_neq_Ok [simp]: "bail s \<noteq> Ok z"
  by (simp add: bail_def)

section \<open>Bytes and machine integers\<close>

type_synonym u8 = "8 word"
type_synonym bytes = "8 word list"

definition wrap_i64 :: "int \<Rightarrow> int" where
  "wrap_i64 x = (x + 2 ^ 63) mod 2 ^ 64 - 2 ^ 63"

lemma wrap_i64_id: "- (2 ^ 63) \<le> x \<Longrightarrow> x < 2 ^ 63 \<Longrightarrow> wrap_i64 x = x"
  by (simp add: wrap_i64_def)

lemma wrap_i64_range: "- (2 ^ 63) \<le> wrap_i64 x \<and> wrap_i64 x < 2 ^ 63"
proof -
  have "0 \<le> (x + 2 ^ 63) mod 2 ^ 64" and "(x + 2 ^ 63) mod 2 ^ 64 < 2 ^ 64"
    by simp_all
  then show ?thesis
    unfolding wrap_i64_def by simp
qed

text \<open>\<open>u32::from_be_bytes\<close> on four bytes, and its inverse.\<close>

fun from_be_bytes :: "bytes \<Rightarrow> nat" where
  "from_be_bytes bs = foldl (\<lambda>n b. 256 * n + unat b) 0 bs"

definition to_be_bytes :: "nat \<Rightarrow> bytes" where
  "to_be_bytes n =
     [of_nat (n div 2 ^ 24 mod 256), of_nat (n div 2 ^ 16 mod 256),
      of_nat (n div 2 ^ 8 mod 256), of_nat (n mod 256)]"

lemma unat_of_nat_byte: "n < 256 \<Longrightarrow> unat (of_nat n :: u8) = n"
  by (simp add: unat_of_nat)

lemma length_to_be_bytes [simp]: "length (to_be_bytes n) = 4"
  by (simp add: to_be_bytes_def)

lemma from_to_be_bytes:
  assumes "n < 2 ^ 32"
  shows "from_be_bytes (to_be_bytes n) = n"
proof -
  define a where "a = n div 256"
  define b where "b = a div 256"
  define c where "c = b div 256"
  have "n div 2 ^ 8 = a" and "n div 2 ^ 16 = b" and "n div 2 ^ 24 = c"
    by (simp_all add: a_def b_def c_def div_mult2_eq [symmetric])
  moreover have "n = 256 * a + n mod 256" and "a = 256 * b + a mod 256" and "b = 256 * c + b mod 256"
    by (simp_all add: a_def b_def c_def)
  moreover have "c < 256"
    using assms by (simp add: a_def b_def c_def div_mult2_eq [symmetric] less_mult_imp_div_less)
  ultimately show ?thesis
    by (simp add: to_be_bytes_def unat_of_nat_byte)
qed

lemma from_be_bytes_4_bound:
  assumes "length bs = 4"
  shows "from_be_bytes bs < 2 ^ 32"
proof -
  obtain a b c d where bs: "bs = [a, b, c, d]"
    using assms by (auto simp: length_Suc_conv numeral_eq_Suc)
  have "unat (x :: u8) \<le> 255" for x
    using unsigned_less [of x] by (simp add: less_Suc_eq_le [symmetric])
  from this [of a] this [of b] this [of c] this [of d] show ?thesis
    by (simp add: bs)
qed

section \<open>Strings\<close>

text \<open>\<open>str::as_bytes\<close>, and \<open>str::split\<close> for one ASCII separator.\<close>

definition as_bytes :: "string \<Rightarrow> bytes" where
  "as_bytes s = map of_char s"

fun split_on :: "'a \<Rightarrow> 'a list \<Rightarrow> 'a list list" where
  "split_on c [] = [[]]"
| "split_on c (x # xs) =
     (if x = c then [] # split_on c xs
      else case split_on c xs of [] \<Rightarrow> [[x]] | l # ls \<Rightarrow> (x # l) # ls)"

fun join_with :: "'a \<Rightarrow> 'a list list \<Rightarrow> 'a list" where
  "join_with c [] = []"
| "join_with c [l] = l"
| "join_with c (l # m # ls) = l @ c # join_with c (m # ls)"

lemma split_on_nonempty [simp]: "split_on c xs \<noteq> []"
  by (induction xs) (auto split: list.splits)

lemma split_on_cases:
  obtains l ls where "split_on c xs = l # ls"
  by (meson list.exhaust split_on_nonempty)

lemma hd_split_on: "hd (split_on c xs) = takeWhile (\<lambda>x. x \<noteq> c) xs"
proof (induction xs)
  case Nil
  then show ?case by simp
next
  case (Cons x xs)
  then show ?case by (cases rule: split_on_cases [of c xs]) auto
qed

lemma join_split_on: "join_with c (split_on c xs) = xs"
proof (induction xs)
  case Nil
  then show ?case by simp
next
  case (Cons x xs)
  obtain l ls where ls: "split_on c xs = l # ls"
    by (rule split_on_cases)
  with Cons.IH show ?case
    by (cases "x = c"; cases ls) auto
qed

lemma split_on_labels_free: "l \<in> set (split_on c xs) \<Longrightarrow> c \<notin> set l"
proof (induction xs arbitrary: l)
  case Nil
  then show ?case by simp
next
  case (Cons x xs)
  obtain m ms where ms: "split_on c xs = m # ms"
    by (rule split_on_cases)
  then have "c \<notin> set m" and "l \<in> set ms \<Longrightarrow> c \<notin> set l"
    using Cons.IH by auto
  with Cons.prems ms show ?case
    by (cases "x = c") auto
qed

lemma split_on_no_sep: "c \<notin> set xs \<Longrightarrow> split_on c xs = [xs]"
  by (induction xs) auto

lemma split_on_append_sep:
  "c \<notin> set l \<Longrightarrow> split_on c (l @ c # xs) = l # split_on c xs"
  by (induction l) auto

lemma in_split_on_iff:
  "x \<noteq> c \<Longrightarrow> (\<exists>l \<in> set (split_on c xs). x \<in> set l) \<longleftrightarrow> x \<in> set xs"
proof (induction xs)
  case Nil
  then show ?case by simp
next
  case (Cons y ys)
  obtain m ms where "split_on c ys = m # ms"
    by (rule split_on_cases)
  with Cons show ?case by auto
qed

text \<open>\<open>char::is_ascii_alphanumeric\<close>, \<open>is_ascii_graphic\<close>, on a code point.\<close>

definition is_ascii_alphanumeric :: "nat \<Rightarrow> bool" where
  "is_ascii_alphanumeric c \<longleftrightarrow>
     48 \<le> c \<and> c \<le> 57 \<or> 65 \<le> c \<and> c \<le> 90 \<or> 97 \<le> c \<and> c \<le> 122"

definition is_ascii_graphic :: "nat \<Rightarrow> bool" where
  "is_ascii_graphic c \<longleftrightarrow> 33 \<le> c \<and> c \<le> 126"

abbreviation code :: "char \<Rightarrow> nat" where
  "code c \<equiv> of_char c"

text \<open>
  UTF-8 decoding as the standard library does it: one step from a lead byte reads a code point and
  the number of further bytes it takes, or, on a malformed sequence, U+FFFD and the length of the
  maximal malformed part.  \<open>str::chars\<close> runs it on the bytes of a string, which are well
  formed; \<open>String::from_utf8_lossy\<close> runs it on any bytes.
\<close>

definition is_cont :: "nat \<Rightarrow> bool" where
  "is_cont b \<longleftrightarrow> 128 \<le> b \<and> b < 192"

definition second_ok3 :: "nat \<Rightarrow> nat \<Rightarrow> bool" where
  "second_ok3 a b \<longleftrightarrow> is_cont b \<and> (a = 224 \<longrightarrow> 160 \<le> b) \<and> (a = 237 \<longrightarrow> b \<le> 159)"

definition second_ok4 :: "nat \<Rightarrow> nat \<Rightarrow> bool" where
  "second_ok4 a b \<longleftrightarrow> is_cont b \<and> (a = 240 \<longrightarrow> 144 \<le> b) \<and> (a = 244 \<longrightarrow> b \<le> 143)"

definition utf8_seq :: "nat \<Rightarrow> nat \<Rightarrow> nat \<Rightarrow> nat \<Rightarrow> nat \<times> nat" where
  "utf8_seq a b c d =
     (if a < 128 then (a, 0)
      else if 194 \<le> a \<and> a \<le> 223 then
        (if is_cont b then ((a - 192) * 64 + (b - 128), 1) else (65533, 0))
      else if 224 \<le> a \<and> a \<le> 239 then
        (if \<not> second_ok3 a b then (65533, 0)
         else if \<not> is_cont c then (65533, 1)
         else ((a - 224) * 4096 + (b - 128) * 64 + (c - 128), 2))
      else if 240 \<le> a \<and> a \<le> 244 then
        (if \<not> second_ok4 a b then (65533, 0)
         else if \<not> is_cont c then (65533, 1)
         else if \<not> is_cont d then (65533, 2)
         else ((a - 240) * 262144 + (b - 128) * 4096 + (c - 128) * 64 + (d - 128), 3))
      else (65533, 0))"

text \<open>Reading past the end gives the byte 0, which ends a sequence like any other non-continuation.\<close>

definition utf8_next :: "nat \<Rightarrow> nat list \<Rightarrow> nat \<times> nat" where
  "utf8_next a r =
     utf8_seq a (case r of x # _ \<Rightarrow> x | _ \<Rightarrow> 0) (case r of _ # x # _ \<Rightarrow> x | _ \<Rightarrow> 0)
       (case r of _ # _ # x # _ \<Rightarrow> x | _ \<Rightarrow> 0)"

function utf8_decode :: "nat list \<Rightarrow> nat list" where
  "utf8_decode [] = []"
| "utf8_decode (a # r) = (case utf8_next a r of (cp, n) \<Rightarrow> cp # utf8_decode (drop n r))"
  by pat_completeness auto
termination
  by (relation "measure length") auto

definition utf8_encode :: "nat \<Rightarrow> nat list" where
  "utf8_encode c =
     (if c < 128 then [c]
      else if c < 2048 then [192 + c div 64, 128 + c mod 64]
      else if c < 65536 then [224 + c div 4096, 128 + c div 64 mod 64, 128 + c mod 64]
      else [240 + c div 262144, 128 + c div 4096 mod 64, 128 + c div 64 mod 64, 128 + c mod 64])"

definition chars :: "string \<Rightarrow> nat list" where
  "chars s = utf8_decode (map of_char s)"

definition from_utf8_lossy :: "bytes \<Rightarrow> string" where
  "from_utf8_lossy bs = map char_of (concat (map utf8_encode (utf8_decode (map unat bs))))"

lemma utf8_next_ascii: "a < 128 \<Longrightarrow> utf8_next a r = (a, 0)"
  by (simp add: utf8_next_def utf8_seq_def)

lemma utf8_seq_high:
  assumes "128 \<le> a"
  shows "128 \<le> fst (utf8_seq a b c d)"
proof -
  have two: "128 \<le> (a - 192) * 64 + (b - 128)" if "194 \<le> a"
    using that by simp
  have three: "128 \<le> (a - 224) * 4096 + (b - 128) * 64 + (c - 128)"
    if "224 \<le> a" and "second_ok3 a b"
    using that by (cases "a = 224") (auto simp: second_ok3_def)
  have four: "128 \<le> (a - 240) * 262144 + (b - 128) * 4096 + (c - 128) * 64 + (d - 128)"
    if "240 \<le> a" and "second_ok4 a b"
    using that by (cases "a = 240") (auto simp: second_ok4_def)
  show ?thesis
    using assms two three four by (simp add: utf8_seq_def)
qed

lemma utf8_next_high: "128 \<le> a \<Longrightarrow> 128 \<le> fst (utf8_next a r)"
  by (simp add: utf8_next_def utf8_seq_high)

lemma utf8_decode_ascii: "\<forall>a \<in> set as. a < 128 \<Longrightarrow> utf8_decode as = as"
  by (induction "as") (simp_all add: utf8_next_ascii)

lemma utf8_decode_ascii_prefix:
  "\<forall>a \<in> set as. a < 128 \<Longrightarrow> utf8_decode (as @ bs) = as @ utf8_decode bs"
  by (induction "as") (simp_all add: utf8_next_ascii)

lemma utf8_decode_all_low:
  "\<forall>c \<in> set (utf8_decode as). c < 128 \<Longrightarrow> \<forall>a \<in> set as. a < 128"
proof (induction "as" rule: utf8_decode.induct)
  case 1
  then show ?case by simp
next
  case (2 a r)
  obtain cp n where n: "utf8_next a r = (cp, n)"
    by (cases "utf8_next a r")
  with "2.prems" have "cp < 128"
    by simp
  with n have a: "a < 128"
    using utf8_next_high [of a r] by (cases "a < 128") auto
  then have "utf8_next a r = (a, 0)"
    by (rule utf8_next_ascii)
  with "2.IH" "2.prems" a show ?case
    by simp
qed

lemma chars_Nil [simp]: "chars [] = []"
  by (simp add: chars_def)

lemma chars_all_ascii:
  assumes "\<And>n. P n \<Longrightarrow> n < 128"
  shows "(\<forall>c \<in> set (chars s). P c) \<longleftrightarrow> (\<forall>c \<in> set s. P (code c))"
proof
  assume P: "\<forall>c \<in> set (chars s). P c"
  with assms have "\<forall>c \<in> set (chars s). c < 128"
    by blast
  then have "\<forall>a \<in> set (map of_char s). a < (128 :: nat)"
    unfolding chars_def by (rule utf8_decode_all_low)
  then have "chars s = map of_char s"
    unfolding chars_def by (rule utf8_decode_ascii)
  with P show "\<forall>c \<in> set s. P (code c)"
    by simp
next
  assume P: "\<forall>c \<in> set s. P (code c)"
  with assms have "\<forall>a \<in> set (map of_char s). a < (128 :: nat)"
    by auto
  then have "chars s = map of_char s"
    unfolding chars_def by (rule utf8_decode_ascii)
  with P show "\<forall>c \<in> set (chars s). P c"
    by simp
qed

definition starts_with_char :: "char \<Rightarrow> string \<Rightarrow> bool" where
  "starts_with_char c s \<longleftrightarrow> (case s of [] \<Rightarrow> False | x # _ \<Rightarrow> x = c)"

definition ends_with_char :: "char \<Rightarrow> string \<Rightarrow> bool" where
  "ends_with_char c s \<longleftrightarrow> (case rev s of [] \<Rightarrow> False | x # _ \<Rightarrow> x = c)"

text \<open>The decimal rendering of an unsigned integer.\<close>

fun digits :: "nat \<Rightarrow> string" where
  "digits n = (if n < 10 then [char_of (48 + n)] else digits (n div 10) @ [char_of (48 + n mod 10)])"

declare digits.simps [simp del]

lemma append_sep_inj:
  assumes "c \<notin> set a" and "c \<notin> set b" and "a @ c # x = b @ c # y"
  shows "a = b \<and> x = y"
  using assms
proof (induction a arbitrary: b)
  case Nil
  then show ?case by (cases b) auto
next
  case (Cons z a)
  then show ?case by (cases b) auto
qed

end
