(* ===== verification/Operator_Info.thy ===== *)
theory Operator_Info
  imports Avs_Prelude
begin

text \<open>
  The validated operator identity of \<open>avs_server/src/operator_info.rs\<close>: the syntax checks on the
  operator domain and role that a request carries, with one error value for each way to fail, and
  the type that only the checks can build.  The lemmas characterise the accepted strings exactly,
  say which error is reported first, and give the facts the certificate names rely on: an accepted
  domain or role holds no slash and an accepted role no dot.
\<close>

section \<open>Validation\<close>

definition MAX_DOMAIN_LEN :: nat where
  "MAX_DOMAIN_LEN = 253"

definition MAX_LABEL_OR_ROLE_LEN :: nat where
  "MAX_LABEL_OR_ROLE_LEN = 63"

datatype operator_info_error =
    EmptyDomain
  | DomainTooLong nat
  | InvalidDomainLabelEmpty
  | InvalidDomainLabelTooLong string nat
  | InvalidDomainCharacter nat
  | DomainLabelHyphenBoundary string
  | EmptyRole
  | RoleTooLong nat
  | InvalidRoleCharacter nat
  | RoleHyphenBoundary string

definition is_valid_char :: "nat \<Rightarrow> bool" where
  "is_valid_char c \<longleftrightarrow> is_ascii_alphanumeric c \<or> c = code CHR ''-'' \<or> c = code CHR ''_''"

definition hyphen_boundary :: "string \<Rightarrow> bool" where
  "hyphen_boundary s \<longleftrightarrow> starts_with_char CHR ''-'' s \<or> ends_with_char CHR ''-'' s"

fun validate_labels :: "string list \<Rightarrow> (operator_info_error, unit) outcome" where
  "validate_labels [] = Ok ()"
| "validate_labels (label # labels) =
     (if label = [] then Err InvalidDomainLabelEmpty
      else if length label > MAX_LABEL_OR_ROLE_LEN
      then Err (InvalidDomainLabelTooLong label (length label))
      else case find (\<lambda>c. \<not> is_valid_char c) (chars label) of
        Some c \<Rightarrow> Err (InvalidDomainCharacter c)
      | None \<Rightarrow>
          if hyphen_boundary label then Err (DomainLabelHyphenBoundary label)
          else validate_labels labels)"

definition validate_domain :: "string \<Rightarrow> (operator_info_error, unit) outcome" where
  "validate_domain domain =
     (if domain = [] then Err EmptyDomain
      else if length domain > MAX_DOMAIN_LEN then Err (DomainTooLong (length domain))
      else validate_labels (split_on CHR ''.'' domain))"

definition validate_role :: "string \<Rightarrow> (operator_info_error, unit) outcome" where
  "validate_role role =
     (if role = [] then Err EmptyRole
      else if length role > MAX_LABEL_OR_ROLE_LEN then Err (RoleTooLong (length role))
      else case find (\<lambda>c. \<not> is_valid_char c) (chars role) of
        Some c \<Rightarrow> Err (InvalidRoleCharacter c)
      | None \<Rightarrow> if hyphen_boundary role then Err (RoleHyphenBoundary role) else Ok ())"

text \<open>The type \<open>OperatorInfo\<close>, whose fields are private: \<open>new\<close> is its only constructor.\<close>

record operator_info =
  oi_domain :: string
  oi_role :: string

definition operator_info_new ::
  "string \<Rightarrow> string \<Rightarrow> (operator_info_error, operator_info) outcome" where
  "operator_info_new domain role =
     bind_outcome (validate_domain domain) (\<lambda>_.
     bind_outcome (validate_role role) (\<lambda>_.
     Ok \<lparr>oi_domain = domain, oi_role = role\<rparr>))"

text \<open>The \<open>OperatorInfo\<close> message of a request, and the conversion from it.\<close>

record operator_info_proto =
  operator_domain :: string
  operator_role :: string

definition operator_info_try_from ::
  "operator_info_proto \<Rightarrow> (operator_info_error, operator_info) outcome" where
  "operator_info_try_from proto = operator_info_new (operator_domain proto) (operator_role proto)"

text \<open>The messages of the error enumeration, which become the text of a gRPC status.\<close>

fun operator_info_error_message :: "operator_info_error \<Rightarrow> string" where
  "operator_info_error_message EmptyDomain = ''operator_domain must not be empty''"
| "operator_info_error_message (DomainTooLong len) =
     ''operator_domain length ('' @ digits len @ '') exceeds maximum allowed (''
       @ digits MAX_DOMAIN_LEN @ '')''"
| "operator_info_error_message InvalidDomainLabelEmpty =
     ''operator_domain contains an empty label (e.g. leading, trailing, or consecutive dots)''"
| "operator_info_error_message (InvalidDomainLabelTooLong label len) =
     ''operator_domain label '' @ CHR 0x27 # label @ CHR 0x27 # '' length ('' @ digits len
       @ '') exceeds maximum allowed ('' @ digits MAX_LABEL_OR_ROLE_LEN @ '')''"
| "operator_info_error_message (InvalidDomainCharacter c) =
     ''operator_domain contains invalid character '' @ CHR 0x27 # map char_of (utf8_encode c)
       @ CHR 0x27 # '' (allowed: [a-zA-Z0-9-_])''"
| "operator_info_error_message (DomainLabelHyphenBoundary label) =
     ''operator_domain label '' @ CHR 0x27 # label @ CHR 0x27 #
       '' must not start or end with a hyphen''"
| "operator_info_error_message EmptyRole = ''operator_role must not be empty''"
| "operator_info_error_message (RoleTooLong len) =
     ''operator_role length ('' @ digits len @ '') exceeds maximum allowed (''
       @ digits MAX_LABEL_OR_ROLE_LEN @ '')''"
| "operator_info_error_message (InvalidRoleCharacter c) =
     ''operator_role contains invalid character '' @ CHR 0x27 # map char_of (utf8_encode c)
       @ CHR 0x27 # '' (allowed: [a-zA-Z0-9-_])''"
| "operator_info_error_message (RoleHyphenBoundary role) =
     ''operator_role '' @ CHR 0x27 # role @ CHR 0x27 # '' must not start or end with a hyphen''"

section \<open>What is accepted\<close>

text \<open>The specification: one label of a domain, and the two wire formats.\<close>

definition ident_char :: "char \<Rightarrow> bool" where
  "ident_char c \<longleftrightarrow>
     c \<in> set ''abcdefghijklmnopqrstuvwxyzABCDEFGHIJKLMNOPQRSTUVWXYZ0123456789-_''"

definition valid_label :: "string \<Rightarrow> bool" where
  "valid_label l \<longleftrightarrow>
     l \<noteq> [] \<and> length l \<le> 63 \<and> (\<forall>c \<in> set l. ident_char c) \<and> hd l \<noteq> CHR ''-'' \<and> last l \<noteq> CHR ''-''"

definition valid_domain :: "string \<Rightarrow> bool" where
  "valid_domain d \<longleftrightarrow> length d \<le> 253 \<and> (\<forall>l \<in> set (split_on CHR ''.'' d). valid_label l)"

definition valid_operator_info :: "operator_info \<Rightarrow> bool" where
  "valid_operator_info oi \<longleftrightarrow> valid_domain (oi_domain oi) \<and> valid_label (oi_role oi)"

lemma is_valid_char_ascii: "is_valid_char n \<Longrightarrow> n < 128"
  by (auto simp: is_valid_char_def is_ascii_alphanumeric_def)

lemma is_valid_char_code: "is_valid_char (code c) \<longleftrightarrow> ident_char c"
proof -
  have "ident_char c \<longleftrightarrow>
      code c \<in> set (map of_char ''abcdefghijklmnopqrstuvwxyzABCDEFGHIJKLMNOPQRSTUVWXYZ0123456789-_'')"
    unfolding ident_char_def set_map by (rule inj_image_mem_iff [symmetric]) (rule inj_of_char)
  also have "\<dots> \<longleftrightarrow> is_valid_char (code c)"
    unfolding is_valid_char_def is_ascii_alphanumeric_def by simp presburger
  finally show ?thesis by simp
qed

lemma hyphen_boundary_iff:
  assumes "s \<noteq> []"
  shows "hyphen_boundary s \<longleftrightarrow> hd s = CHR ''-'' \<or> last s = CHR ''-''"
proof -
  have "starts_with_char c s \<longleftrightarrow> hd s = c" for c
    using assms by (cases s) (simp_all add: starts_with_char_def)
  moreover have "ends_with_char c s \<longleftrightarrow> last s = c" for c
    using assms by (cases s rule: rev_cases) (simp_all add: ends_with_char_def)
  ultimately show ?thesis
    by (simp add: hyphen_boundary_def)
qed

lemma find_invalid_None:
  "find (\<lambda>c. \<not> is_valid_char c) (chars s) = None \<longleftrightarrow> (\<forall>c \<in> set s. ident_char c)"
  using chars_all_ascii [where P = is_valid_char and s = s, OF is_valid_char_ascii]
  by (auto simp: find_None_iff is_valid_char_code)

lemma find_invalid_cases:
  "(case find (\<lambda>c. \<not> is_valid_char c) (chars s) of Some c \<Rightarrow> Err (f c) | None \<Rightarrow> r) = Ok z \<longleftrightarrow>
     (\<forall>c \<in> set s. ident_char c) \<and> r = Ok z"
  by (cases "find (\<lambda>c. \<not> is_valid_char c) (chars s)") (auto simp flip: find_invalid_None)

lemma validate_labels_Ok: "validate_labels ls = Ok () \<longleftrightarrow> (\<forall>l \<in> set ls. valid_label l)"
proof (induction ls)
  case Nil
  then show ?case by simp
next
  case (Cons l ls)
  then show ?case
    by (cases "l = []")
      (auto simp: valid_label_def MAX_LABEL_OR_ROLE_LEN_def hyphen_boundary_iff find_invalid_cases)
qed

lemma validate_domain_Ok: "validate_domain d = Ok () \<longleftrightarrow> valid_domain d"
  by (auto simp: validate_domain_def valid_domain_def validate_labels_Ok MAX_DOMAIN_LEN_def
      valid_label_def)

lemma validate_role_Ok: "validate_role r = Ok () \<longleftrightarrow> valid_label r"
  by (cases "r = []")
    (auto simp: validate_role_def valid_label_def MAX_LABEL_OR_ROLE_LEN_def hyphen_boundary_iff
      find_invalid_cases)

lemma operator_info_new_Ok:
  "operator_info_new d r = Ok oi \<longleftrightarrow>
     oi = \<lparr>oi_domain = d, oi_role = r\<rparr> \<and> valid_operator_info oi"
proof -
  have "operator_info_new d r = Ok oi \<longleftrightarrow>
      validate_domain d = Ok () \<and> validate_role r = Ok () \<and> Ok \<lparr>oi_domain = d, oi_role = r\<rparr> = (Ok oi :: (operator_info_error, operator_info) outcome)"
    by (auto simp: operator_info_new_def bind_outcome_eq_Ok)
  then show ?thesis
    by (auto simp: validate_domain_Ok validate_role_Ok valid_operator_info_def)
qed

section \<open>Facts about accepted identities\<close>

lemma ident_char_not:
  "\<not> ident_char CHR ''/''" "\<not> ident_char CHR ''.''" "\<not> ident_char CHR '':''"
  by (simp_all add: ident_char_def)

lemma valid_label_chars:
  "valid_label l \<Longrightarrow> CHR ''/'' \<notin> set l" "valid_label l \<Longrightarrow> CHR ''.'' \<notin> set l"
  using ident_char_not by (auto simp: valid_label_def)

lemma valid_domain_chars:
  assumes "valid_domain d" and "c \<in> set d"
  shows "ident_char c \<or> c = CHR ''.''"
proof (cases "c = CHR ''.''")
  case False
  with assms(2) obtain l where "l \<in> set (split_on CHR ''.'' d)" and "c \<in> set l"
    using in_split_on_iff [of c "CHR ''.''" d] by blast
  with assms(1) show ?thesis
    by (auto simp: valid_domain_def valid_label_def)
qed simp

lemma valid_domain_no_slash: "valid_domain d \<Longrightarrow> CHR ''/'' \<notin> set d"
  using valid_domain_chars ident_char_not(1) by force

lemma valid_domain_nonempty: "valid_domain d \<Longrightarrow> d \<noteq> []"
  by (auto simp: valid_domain_def valid_label_def)

section \<open>Which error is reported\<close>

text \<open>The error of one label, in the order of the checks.\<close>

definition label_error :: "string \<Rightarrow> operator_info_error option" where
  "label_error l =
     (if l = [] then Some InvalidDomainLabelEmpty
      else if length l > 63 then Some (InvalidDomainLabelTooLong l (length l))
      else if \<exists>c \<in> set (chars l). \<not> is_valid_char c
      then Some (InvalidDomainCharacter (hd (filter (\<lambda>c. \<not> is_valid_char c) (chars l))))
      else if hd l = CHR ''-'' \<or> last l = CHR ''-'' then Some (DomainLabelHyphenBoundary l)
      else None)"

lemma find_eq_hd_filter: "find P xs = (if \<exists>x \<in> set xs. P x then Some (hd (filter P xs)) else None)"
  by (induction xs) auto

lemma validate_labels_label_error:
  "validate_labels (l # ls) = (case label_error l of Some e \<Rightarrow> Err e | None \<Rightarrow> validate_labels ls)"
  by (cases "l = []")
    (auto simp: label_error_def find_eq_hd_filter MAX_LABEL_OR_ROLE_LEN_def hyphen_boundary_iff)

lemma valid_label_iff_no_error: "valid_label l \<longleftrightarrow> label_error l = None"
proof -
  have "validate_labels [l] = Ok () \<longleftrightarrow> label_error l = None"
    unfolding validate_labels_label_error by (auto split: option.splits)
  with validate_labels_Ok [of "[l]"] show ?thesis
    by (simp del: validate_labels.simps)
qed

lemma validate_labels_first_bad:
  "\<forall>l \<in> set good. valid_label l \<Longrightarrow> label_error bad = Some e \<Longrightarrow>
     validate_labels (good @ bad # rest) = Err e"
proof (induction good)
  case Nil
  then show ?case
    unfolding append_Nil validate_labels_label_error by simp
next
  case (Cons l good)
  then have "label_error l = None"
    by (simp add: valid_label_iff_no_error)
  with Cons show ?case
    unfolding append_Cons validate_labels_label_error by simp
qed

section \<open>Properties\<close>

text \<open>C18: \<open>OperatorInfo::new\<close> accepts exactly the well-formed identities: a domain of at most 253
  bytes whose dot-separated labels are each 1 to 63 bytes of \<open>[a-zA-Z0-9-_]\<close> with no hyphen at
  either end, and a role that is one such label; and it keeps both strings unchanged.\<close>

theorem operator_info_new_accepts_exactly:
  "operator_info_new d r = Ok oi \<longleftrightarrow>
     oi_domain oi = d \<and> oi_role oi = r \<and>
     length d \<le> 253 \<and> (\<forall>l \<in> set (split_on CHR ''.'' d). valid_label l) \<and> valid_label r"
  by (cases oi) (auto simp: operator_info_new_Ok valid_operator_info_def valid_domain_def)

theorem operator_info_new_accepts_exactly_witness:
  "operator_info_new ''corp.google.com'' ''encrypted-zone'' =
     Ok \<lparr>oi_domain = ''corp.google.com'', oi_role = ''encrypted-zone''\<rparr>"
  by (subst operator_info_new_accepts_exactly) (simp add: valid_label_def ident_char_def)

text \<open>C19: a domain within the length limits whose first malformed label is \<open>bad\<close> is rejected with
  the error of that label, whatever follows it.\<close>

theorem validate_domain_reports_first_bad_label:
  assumes "split_on CHR ''.'' d = good @ bad # rest" and "d \<noteq> []" and "length d \<le> 253"
    and "\<forall>l \<in> set good. valid_label l" and "label_error bad = Some e"
  shows "validate_domain d = Err e"
  using assms validate_labels_first_bad [of good bad e rest]
  by (simp add: validate_domain_def MAX_DOMAIN_LEN_def)

theorem validate_domain_reports_first_bad_label_witness:
  "validate_domain ''corp.-sub-.com'' = Err (DomainLabelHyphenBoundary ''-sub-'')"
  by (rule validate_domain_reports_first_bad_label [of _ "[''corp'']" "''-sub-''" "[''com'']"])
    (simp_all add: valid_label_def ident_char_def label_error_def chars_def utf8_next_ascii
      is_valid_char_def is_ascii_alphanumeric_def)

end
