(* ===== verification/Avs_Proto.thy ===== *)
theory Avs_Proto
  imports Operator_Info
begin

text \<open>
  The messages of \<open>avs_server/proto\<close> and of the TCA interface, and the Oak messages the server
  reads.  An Oak message whose definition lies outside the repository is a record of the fields the
  server names; its remaining fields are carried, unread, as the bytes of their encoding in a field
  ending in \<open>_rest\<close>.  A protobuf enumeration travels as an \<open>i32\<close> and is decoded by
  \<open>try_from\<close>, which fails on a number that names no variant.
\<close>

section \<open>Enumerations of the service\<close>

datatype policy_hint =
    HintUnspecified
  | EzEnforcerCbCertificate
  | EzTsmCbFrontendCertificate
  | ProberCbCertificate
  | DevelopmentCbCertificate
  | DevelopmentMtlsCbCertificate
  | DevelopmentTlsCbCertificate

datatype certificate_profile =
    ProfileUnspecified
  | Unrestricted
  | Mtls
  | Tls

definition policy_hint_try_from :: "int \<Rightarrow> policy_hint option" where
  "policy_hint_try_from n =
     (if n = 0 then Some HintUnspecified
      else if n = 2 then Some EzEnforcerCbCertificate
      else if n = 3 then Some EzTsmCbFrontendCertificate
      else if n = 4 then Some ProberCbCertificate
      else if n = 5 then Some DevelopmentCbCertificate
      else if n = 6 then Some DevelopmentMtlsCbCertificate
      else if n = 7 then Some DevelopmentTlsCbCertificate
      else None)"

definition certificate_profile_try_from :: "int \<Rightarrow> certificate_profile option" where
  "certificate_profile_try_from n =
     (if n = 0 then Some ProfileUnspecified
      else if n = 1 then Some Unrestricted
      else if n = 2 then Some Mtls
      else if n = 3 then Some Tls
      else None)"

fun unwrap_or :: "'a \<Rightarrow> 'a option \<Rightarrow> 'a" where
  "unwrap_or d None = d"
| "unwrap_or d (Some x) = x"

section \<open>Oak reference values\<close>

datatype key_type = RsaSha2256 | OtherKeyType int

record verifying_key =
  vk_type :: key_type
  key_id :: nat
  raw :: bytes

record verifying_key_set =
  keys :: "verifying_key list"
  signed_timestamp :: "bytes option"

record pes_reference_value =
  key_set :: "verifying_key_set option"

record c2sp_reference_value =
  c2sp_policy :: string

record tlog_reference_values =
  pes :: "pes_reference_value option"
  c2sp :: "c2sp_reference_value option"
  tlog_rest :: bytes

record endorsement_reference_value =
  tlog :: "tlog_reference_values option"
  endorsement_rest :: bytes

text \<open>
  The three reference values share the shape of a \<open>oneof\<close> whose variant \<open>Endorsement\<close> is the
  only one the server opens.
\<close>

datatype reference_type = Endorsement endorsement_reference_value | OtherReference bytes

record binary_reference_value =
  brv_type :: "reference_type option"

record kernel_binary_reference_value =
  kbrv_type :: "reference_type option"

record mpm_reference_value =
  mpm_type :: "reference_type option"

record amd_sev_reference_values =
  amd_stage0 :: "binary_reference_value option"
  amd_rest :: bytes

record intel_tdx_reference_values =
  tdx_stage0 :: "binary_reference_value option"
  tdx_rest :: bytes

record root_layer_reference_values =
  amd_sev :: "amd_sev_reference_values option"
  intel_tdx :: "intel_tdx_reference_values option"
  root_rest :: bytes

record kernel_layer_reference_values =
  kernel :: "kernel_binary_reference_value option"
  init_ram_fs :: "binary_reference_value option"
  kernel_rest :: bytes

record cb_layer1_reference_values =
  runtime_agent :: "binary_reference_value option"
  runtime_agent_binary :: "binary_reference_value option"
  userspace :: "binary_reference_value option"

record cb_layer2_reference_values =
  binary_mpm :: "mpm_reference_value option"
  binary_mpms :: "mpm_reference_value list"

record cbt_reference_values =
  cbt_root_layer :: "root_layer_reference_values option"
  cbt_kernel_layer :: "kernel_layer_reference_values option"
  layer1 :: "cb_layer1_reference_values option"
  layer2 :: "cb_layer2_reference_values option"

record system_layer_reference_values =
  system_image :: "binary_reference_value option"

record container_layer_reference_values =
  container_binary :: "binary_reference_value option"
  configuration :: "binary_reference_value option"

record oak_containers_reference_values =
  oc_root_layer :: "root_layer_reference_values option"
  oc_kernel_layer :: "kernel_layer_reference_values option"
  system_layer :: "system_layer_reference_values option"
  container_layer :: "container_layer_reference_values option"

datatype reference_values_type =
    Cbt cbt_reference_values
  | OakContainers oak_containers_reference_values
  | OtherReferenceValues bytes

record reference_values =
  rv_type :: "reference_values_type option"

section \<open>Policies\<close>

record operator_rule =
  rule_domain :: string
  rule_role :: string

record operator_policy =
  rules :: "operator_rule list"

record policy =
  publisher_domain :: string
  publisher_role :: string
  workload_name :: string
  oak_reference_values :: "reference_values option"
  policy_operator_policy :: "operator_policy option"
  policy_name :: string

record policy_bundle =
  policies :: "policy list"

section \<open>Evidence, endorsements and verification results\<close>

datatype tee_platform = PlatformUnspecified | AmdSevSnp | IntelTdx | PlatformNone | OtherPlatform int

record root_layer_evidence =
  root_platform :: tee_platform
  root_evidence_rest :: bytes

record evidence =
  root_layer :: "root_layer_evidence option"
  signed_user_data_certificate :: bytes
  evidence_rest :: bytes

record endorsements =
  endorsements_rest :: bytes

record tlog_verification_results =
  tlog_subject :: string
  tlog_results_rest :: bytes

record event_attestation_results =
  tlog_verifications :: "tlog_verification_results list"
  event_rest :: bytes

record attestation_results =
  results_status :: int
  reason :: string
  event_attestation_results :: "event_attestation_results list"

text \<open>A validity window: the seconds of its two optional timestamps.\<close>

record validity =
  not_before :: "int option"
  not_after :: "int option"

section \<open>Requests and responses of the service\<close>

record certification_parameters =
  param_policy_name :: string
  param_certificate_profile :: int

datatype selector = PolicyHintSelector int | CertificationParameters certification_parameters

record certify_attestation_request =
  req_csr :: bytes
  req_evidence :: "evidence option"
  req_endorsements :: "endorsements option"
  req_operator_info :: "operator_info_proto option"
  req_selector :: "selector option"

record certify_attestation_response =
  certificate_chain :: "bytes list"
  tlog_verification_results :: "tlog_verification_results list"

datatype stream_request = ChallengeRequest | CertifyRequest certify_attestation_request

datatype stream_response = ChallengeResponse bytes | CertifyResponse certify_attestation_response

record generate_avs_signing_key_response =
  new_certificate_chain :: "bytes list"

section \<open>gRPC status\<close>

text \<open>
  The status codes the handlers use, and the text of a status: a literal, or a literal followed by
  the debug rendering of an error.
\<close>

datatype status_code = FailedPrecondition | InvalidArgument | Internal | Unavailable

datatype status_text =
    Text string
  | TextDebug string anyhow
  | TextDebugCert string certificate_error
  | TextDebugStatus string string

datatype grpc_status = Status (status_code: status_code) (status_text: status_text)

lemma policy_hint_try_from_known:
  "unwrap_or HintUnspecified (policy_hint_try_from n) \<noteq> HintUnspecified \<longleftrightarrow> n \<in> {2..7}"
proof -
  have "n \<in> {2..7} \<longleftrightarrow> n = 2 \<or> n = 3 \<or> n = 4 \<or> n = 5 \<or> n = 6 \<or> n = (7 :: int)"
    by auto
  then show ?thesis
    by (auto simp: policy_hint_try_from_def)
qed

lemma certificate_profile_try_from_known:
  "unwrap_or ProfileUnspecified (certificate_profile_try_from n) \<noteq> ProfileUnspecified \<longleftrightarrow>
     n \<in> {1..3}"
proof -
  have "n \<in> {1..3} \<longleftrightarrow> n = 1 \<or> n = 2 \<or> n = (3 :: int)"
    by auto
  then show ?thesis
    by (auto simp: certificate_profile_try_from_def)
qed

end
