(* ===== verification/Ffi_World.thy ===== *)
theory Ffi_World
  imports Avs_Prelude
begin

text \<open>
  The boundary between the Rust code and the libraries it calls through \<open>bssl_sys\<close>.  BoringSSL is
  not part of the repository, so it has no definition here: a program is run in a \<open>world\<close>, an
  arbitrary function that answers each foreign call from the calls made before it, and every call is
  recorded with its answer in a trace.  The world answers also for the system clock and the file
  system.  What the model fixes is the Rust side: which calls are made, with which arguments, in
  which order, and what is done with each answer.

  A non-null pointer that a call allocates is named after the position of the call in the trace, so
  two allocations never share a name; the code only ever compares a pointer with null.  A pointer
  into an object (a time field, a name, the data of an extension) is named after the object; the two
  accessors of the time fields, \<open>X509_getm_notBefore\<close> and \<open>X509_getm_notAfter\<close>, cannot fail and change
  nothing, and are not recorded as calls.

  The second half reads a trace as an ownership discipline: which calls hand an object to the
  caller, which take one away, which objects a call requires to be alive.  These are the documented
  contracts of the calls.  \<open>owns S m Q\<close> says that the program \<open>m\<close>, started when the caller
  owns the objects \<open>S\<close>, never uses or frees an object it does not own and ends owning what
  \<open>Q\<close> says; the rules of the calculus are collected in \<open>ffi_wp\<close>.
\<close>

section \<open>Pointers and calls\<close>

datatype part = NotBefore | NotAfter | SubjectName | ExtensionAt int | ExtensionData | StringData

datatype ptr = Null | Obj nat | Into ptr part

fun root :: "ptr \<Rightarrow> ptr" where
  "root Null = Null"
| "root (Obj n) = Obj n"
| "root (Into p f) = root p"

datatype obj =
    X509 | X509_NAME | X509_EXTENSION | X509_REQ | ASN1_INTEGER | BIGNUM | RSA | EVP_PKEY
  | ASN1_IA5STRING | GENERAL_NAME | GENERAL_NAMES | BIO

datatype nid =
    NID_basic_constraints | NID_key_usage | NID_ext_key_usage | NID_subject_alt_name
  | NID_subject_key_identifier | NID_authority_key_identifier

datatype gen_type = GEN_URI | GEN_DNS

text \<open>
  \<open>New X509\<close> stands for \<open>X509_new()\<close>, \<open>Free X509 p\<close> for \<open>X509_free(p)\<close>,
  \<open>D2i X509 bs\<close> for \<open>d2i_X509\<close> on the bytes \<open>bs\<close>, and \<open>I2d_len\<close> and \<open>I2d\<close> for
  the two calls of \<open>i2d_X509\<close>, with a null and with a real buffer; likewise for the other
  objects.  \<open>D2i EVP_PKEY\<close> is \<open>d2i_PUBKEY\<close>, \<open>I2d EVP_PKEY\<close> is \<open>i2d_PUBKEY\<close>.  Arguments
  that are the same constant at every call site are left out.
\<close>

datatype (plugins only: code size) bssl_call =
    New obj
  | Free obj ptr
  | D2i obj bytes
  | I2d_len obj ptr
  | I2d obj ptr
  | X509_set_version ptr int
  | X509_set_serialNumber ptr ptr
  | X509_set_issuer_name ptr ptr
  | X509_set_subject_name ptr ptr
  | X509_set_pubkey ptr ptr
  | X509_add_ext ptr ptr
  | X509_gmtime_adj ptr int
  | ASN1_TIME_set_posix ptr int
  | X509_sign ptr ptr
  | X509_get_subject_name ptr
  | X509_get_ext_by_NID ptr nid
  | X509_get_ext ptr int
  | X509_EXTENSION_get_data ptr
  | ASN1_STRING_get0_data ptr
  | ASN1_STRING_length ptr
  | Read_slice ptr int
  | X509V3_EXT_nconf_nid "(ptr \<times> ptr) option" nid string
  | X509V3_EXT_i2d nid int ptr
  | X509_NAME_add_entry_by_txt ptr string string
  | X509_NAME_dup ptr
  | ASN1_INTEGER_set ptr int
  | BN_set_word ptr int
  | BN_rand ptr int
  | BN_to_ASN1_INTEGER ptr ptr
  | RSA_generate_key_ex ptr int ptr
  | EVP_PKEY_assign_RSA ptr ptr
  | EVP_PKEY_cmp ptr ptr
  | ASN1_STRING_set ptr bytes
  | GENERAL_NAME_set0_value ptr gen_type ptr
  | Sk_GENERAL_NAME_push ptr ptr
  | X509_REQ_set_version ptr int
  | X509_REQ_set_subject_name ptr ptr
  | X509_REQ_set_pubkey ptr ptr
  | X509_REQ_sign ptr ptr
  | X509_REQ_get_pubkey ptr
  | X509_REQ_verify ptr ptr
  | ERR_get_error
  | ERR_reason_error_string int
  | BIO_new_mem_buf bytes
  | PEM_read_bio_X509 ptr
  | X509_get_pubkey ptr
  | RAND_bytes nat

text \<open>
  An answer: whether a returned pointer is non-null, a returned integer, the bytes written or read
  (\<open>None\<close> when the call reports failure), or nothing.
\<close>

datatype answer = RPtr bool | RInt int | RBytes "bytes option" | RUnit

type_synonym trace = "(bssl_call \<times> answer) list"

record world =
  says_ptr :: "trace \<Rightarrow> bssl_call \<Rightarrow> bool"
  says_int :: "trace \<Rightarrow> bssl_call \<Rightarrow> int"
  says_bytes :: "trace \<Rightarrow> bssl_call \<Rightarrow> bytes option"
  unix_time :: "trace \<Rightarrow> nat option"
  glob_paths :: "trace \<Rightarrow> string \<Rightarrow> (string option) list option"
  path_is_file :: "trace \<Rightarrow> string \<Rightarrow> bool"
  read_to_string :: "trace \<Rightarrow> string \<Rightarrow> string option"

type_synonym 'a ffi = "(trace, 'a) state"

definition call_ptr :: "world \<Rightarrow> bssl_call \<Rightarrow> ptr ffi" where
  "call_ptr w c = State (\<lambda>tr. let b = says_ptr w tr c in
     (if b then Obj (Suc (length tr)) else Null, tr @ [(c, RPtr b)]))"

definition call_part :: "world \<Rightarrow> bssl_call \<Rightarrow> ptr \<Rightarrow> part \<Rightarrow> ptr ffi" where
  "call_part w c p f = State (\<lambda>tr. let b = says_ptr w tr c in
     (if b then Into p f else Null, tr @ [(c, RPtr b)]))"

definition call_int :: "world \<Rightarrow> bssl_call \<Rightarrow> int ffi" where
  "call_int w c = State (\<lambda>tr. let i = says_int w tr c in (i, tr @ [(c, RInt i)]))"

definition call_bool :: "world \<Rightarrow> bssl_call \<Rightarrow> bool ffi" where
  "call_bool w c = State (\<lambda>tr. let b = says_ptr w tr c in (b, tr @ [(c, RPtr b)]))"

definition call_bytes :: "world \<Rightarrow> bssl_call \<Rightarrow> bytes option ffi" where
  "call_bytes w c = State (\<lambda>tr. let r = says_bytes w tr c in (r, tr @ [(c, RBytes r)]))"

definition call_unit :: "bssl_call \<Rightarrow> unit ffi" where
  "call_unit c = State (\<lambda>tr. ((), tr @ [(c, RUnit)]))"

definition ask :: "(trace \<Rightarrow> 'a) \<Rightarrow> 'a ffi" where
  "ask f = State (\<lambda>tr. (f tr, tr))"

abbreviation free :: "obj \<Rightarrow> ptr \<Rightarrow> unit ffi" where
  "free k p \<equiv> call_unit (Free k p)"

abbreviation ret :: "'a \<Rightarrow> 'a ffi" where
  "ret \<equiv> State_Monad.return"

text \<open>
  The \<open>?\<close> operator, and the pattern \<open>match m { Ok(a) => .., Err(e) => { cleanup; return Err(e) } }\<close>.
\<close>

definition bindE :: "('e, 'a) outcome ffi \<Rightarrow> ('a \<Rightarrow> ('e, 'b) outcome ffi) \<Rightarrow> ('e, 'b) outcome ffi" where
  "bindE m f = do {
     r \<leftarrow> m;
     case r of Ok a \<Rightarrow> f a | Err e \<Rightarrow> ret (Err e) | Panicked s \<Rightarrow> ret (Panicked s)
   }"

definition or_cleanup ::
  "('e, 'a) outcome ffi \<Rightarrow> unit ffi \<Rightarrow> ('a \<Rightarrow> ('e, 'b) outcome ffi) \<Rightarrow> ('e, 'b) outcome ffi" where
  "or_cleanup m cleanup f = do {
     r \<leftarrow> m;
     case r of Ok a \<Rightarrow> f a | Err e \<Rightarrow> do { _ \<leftarrow> cleanup; ret (Err e) } | Panicked s \<Rightarrow> ret (Panicked s)
   }"

abbreviation fail :: "string \<Rightarrow> (anyhow, 'a) outcome ffi" where
  "fail s \<equiv> ret (bail s)"

abbreviation liftE :: "('e, 'a) outcome \<Rightarrow> ('e, 'a) outcome ffi" where
  "liftE r \<equiv> ret r"

text \<open>A buffer of \<open>len\<close> zero bytes after a call has written \<open>bs\<close> at its start.\<close>

definition filled :: "int \<Rightarrow> bytes \<Rightarrow> bytes" where
  "filled len bs = take (nat len) bs @ replicate (nat len - length bs) 0"

lemma length_filled [simp]: "length (filled len bs) = nat len"
  by (simp add: filled_def)

lemma filled_exact: "int (length bs) = len \<Longrightarrow> filled len bs = bs"
  by (auto simp: filled_def)

section \<open>Ownership\<close>

record ownership =
  ticks :: nat
  owned :: "ptr set"
  safe :: bool

text \<open>Does a non-null answer give the caller a new object?\<close>

definition allocates :: "bssl_call \<Rightarrow> bool" where
  "allocates c = (case c of
      New _ \<Rightarrow> True
    | D2i _ _ \<Rightarrow> True
    | X509V3_EXT_nconf_nid _ _ _ \<Rightarrow> True
    | X509V3_EXT_i2d _ _ _ \<Rightarrow> True
    | X509_NAME_dup _ \<Rightarrow> True
    | X509_REQ_get_pubkey _ \<Rightarrow> True
    | BIO_new_mem_buf _ \<Rightarrow> True
    | PEM_read_bio_X509 _ \<Rightarrow> True
    | X509_get_pubkey _ \<Rightarrow> True
    | _ \<Rightarrow> False)"

text \<open>The objects a call takes from the caller: the freed one, and those it takes over.\<close>

definition consumes :: "bssl_call \<Rightarrow> answer \<Rightarrow> ptr list" where
  "consumes c r = (case c of
      Free _ p \<Rightarrow> (if p = Null then [] else [p])
    | EVP_PKEY_assign_RSA _ q \<Rightarrow> (if r = RInt 1 then [q] else [])
    | GENERAL_NAME_set0_value _ _ v \<Rightarrow> [v]
    | Sk_GENERAL_NAME_push _ g \<Rightarrow> (if r = RInt 0 then [] else [g])
    | _ \<Rightarrow> [])"

text \<open>The objects that have to be alive when a call is made.  Freeing null does nothing.\<close>

definition requires :: "bssl_call \<Rightarrow> ptr list" where
  "requires c = (case c of
      New _ \<Rightarrow> []
    | Free _ p \<Rightarrow> (if p = Null then [] else [p])
    | D2i _ _ \<Rightarrow> []
    | I2d_len _ p \<Rightarrow> [p]
    | I2d _ p \<Rightarrow> [p]
    | X509_set_version p _ \<Rightarrow> [p]
    | X509_set_serialNumber p q \<Rightarrow> [p, q]
    | X509_set_issuer_name p q \<Rightarrow> [p, q]
    | X509_set_subject_name p q \<Rightarrow> [p, q]
    | X509_set_pubkey p q \<Rightarrow> [p, q]
    | X509_add_ext p q \<Rightarrow> [p, q]
    | X509_gmtime_adj p _ \<Rightarrow> [p]
    | ASN1_TIME_set_posix p _ \<Rightarrow> [p]
    | X509_sign p q \<Rightarrow> [p, q]
    | X509_get_subject_name p \<Rightarrow> [p]
    | X509_get_ext_by_NID p _ \<Rightarrow> [p]
    | X509_get_ext p _ \<Rightarrow> [p]
    | X509_EXTENSION_get_data p \<Rightarrow> [p]
    | ASN1_STRING_get0_data p \<Rightarrow> [p]
    | ASN1_STRING_length p \<Rightarrow> [p]
    | Read_slice p _ \<Rightarrow> [p]
    | X509V3_EXT_nconf_nid ctx _ _ \<Rightarrow> (case ctx of None \<Rightarrow> [] | Some (p, q) \<Rightarrow> [p, q])
    | X509V3_EXT_i2d _ _ p \<Rightarrow> [p]
    | X509_NAME_add_entry_by_txt p _ _ \<Rightarrow> [p]
    | X509_NAME_dup p \<Rightarrow> [p]
    | ASN1_INTEGER_set p _ \<Rightarrow> [p]
    | BN_set_word p _ \<Rightarrow> [p]
    | BN_rand p _ \<Rightarrow> [p]
    | BN_to_ASN1_INTEGER p q \<Rightarrow> [p, q]
    | RSA_generate_key_ex p _ q \<Rightarrow> [p, q]
    | EVP_PKEY_assign_RSA p q \<Rightarrow> [p, q]
    | EVP_PKEY_cmp p q \<Rightarrow> [p, q]
    | ASN1_STRING_set p _ \<Rightarrow> [p]
    | GENERAL_NAME_set0_value p _ q \<Rightarrow> [p, q]
    | Sk_GENERAL_NAME_push p q \<Rightarrow> [p, q]
    | X509_REQ_set_version p _ \<Rightarrow> [p]
    | X509_REQ_set_subject_name p q \<Rightarrow> [p, q]
    | X509_REQ_set_pubkey p q \<Rightarrow> [p, q]
    | X509_REQ_sign p q \<Rightarrow> [p, q]
    | X509_REQ_get_pubkey p \<Rightarrow> [p]
    | X509_REQ_verify p q \<Rightarrow> [p, q]
    | ERR_get_error \<Rightarrow> []
    | ERR_reason_error_string _ \<Rightarrow> []
    | BIO_new_mem_buf _ \<Rightarrow> []
    | PEM_read_bio_X509 p \<Rightarrow> [p]
    | X509_get_pubkey p \<Rightarrow> [p]
    | RAND_bytes _ \<Rightarrow> [])"

definition own_init :: ownership where
  "own_init = \<lparr>ticks = 0, owned = {}, safe = True\<rparr>"

fun own_step :: "ownership \<Rightarrow> bssl_call \<times> answer \<Rightarrow> ownership" where
  "own_step M (c, r) =
     \<lparr>ticks = Suc (ticks M),
      owned = (owned M - set (consumes c r))
        \<union> (if allocates c \<and> r = RPtr True then {Obj (Suc (ticks M))} else {}),
      safe = (safe M \<and> (\<forall>p \<in> set (requires c). root p \<in> owned M))\<rparr>"

definition ownership :: "trace \<Rightarrow> ownership" where
  "ownership tr = foldl own_step own_init tr"

lemma ownership_snoc [simp]: "ownership (tr @ [e]) = own_step (ownership tr) e"
  by (simp add: ownership_def)

lemma ownership_Nil [simp]: "ownership [] = own_init"
  by (simp add: ownership_def)

lemma ownership_append: "ownership (tr @ es) = foldl own_step (ownership tr) es"
  by (simp add: ownership_def)

lemma ticks_ownership: "ticks (ownership tr) = length tr"
proof (induction tr rule: rev_induct)
  case (snoc e tr)
  then show ?case by (cases e) simp
qed (simp add: own_init_def)

lemma owned_old: "p \<in> owned (ownership tr) \<Longrightarrow> \<exists>n \<le> length tr. p = Obj n"
proof (induction tr arbitrary: p rule: rev_induct)
  case Nil
  then show ?case by (simp add: own_init_def)
next
  case (snoc e tr)
  then show ?case
    by (cases e) (auto simp: ticks_ownership split: if_splits intro: le_SucI)
qed

lemma owned_fresh: "Obj (Suc (length tr)) \<notin> owned (ownership tr)"
  using owned_old by fastforce

lemmas call_contracts = allocates_def requires_def consumes_def bail_def

section \<open>The ownership calculus\<close>

definition owns :: "ptr set \<Rightarrow> 'a ffi \<Rightarrow> ('a \<Rightarrow> ptr set \<Rightarrow> bool) \<Rightarrow> bool" where
  "owns S m Q \<longleftrightarrow> (\<forall>tr. safe (ownership tr) \<longrightarrow> owned (ownership tr) = S \<longrightarrow>
     (case run_state m tr of (r, tr') \<Rightarrow>
        safe (ownership tr') \<and> Q r (owned (ownership tr'))))"

lemma ownsI:
  assumes "\<And>tr r tr'. safe (ownership tr) \<Longrightarrow> owned (ownership tr) = S \<Longrightarrow>
    run_state m tr = (r, tr') \<Longrightarrow> safe (ownership tr') \<and> Q r (owned (ownership tr'))"
  shows "owns S m Q"
  using assms by (auto simp: owns_def split: prod.splits)

lemma ownsD:
  assumes "owns S m Q" and "safe (ownership tr)" and "owned (ownership tr) = S"
    and "run_state m tr = (r, tr')"
  shows "safe (ownership tr') \<and> Q r (owned (ownership tr'))"
  using assms by (auto simp: owns_def)

lemma owns_mono:
  "owns S m Q \<Longrightarrow> (\<And>r S'. Q r S' \<Longrightarrow> R r S') \<Longrightarrow> owns S m R"
  by (fastforce simp: owns_def)

lemma owns_return [ffi_wp]: "Q a S \<Longrightarrow> owns S (ret a) Q"
  by (simp add: owns_def)

lemma owns_bind:
  assumes m: "owns S m P" and f: "\<And>r S'. P r S' \<Longrightarrow> owns S' (f r) Q"
  shows "owns S (State_Monad.bind m f) Q"
proof (rule ownsI)
  fix tr r tr'
  assume tr: "safe (ownership tr)" "owned (ownership tr) = S"
    and run: "run_state (State_Monad.bind m f) tr = (r, tr')"
  obtain a tr1 where a: "run_state m tr = (a, tr1)"
    by (cases "run_state m tr")
  with m tr have "safe (ownership tr1)" and "P a (owned (ownership tr1))"
    by (auto dest: ownsD)
  moreover from run a have "run_state (f a) tr1 = (r, tr')"
    by simp
  ultimately show "safe (ownership tr') \<and> Q r (owned (ownership tr'))"
    using f by (blast dest: ownsD)
qed

lemma owns_bind_assoc [ffi_wp]:
  "owns S (State_Monad.bind m (\<lambda>x. State_Monad.bind (g x) f)) Q \<Longrightarrow>
     owns S (State_Monad.bind (State_Monad.bind m g) f) Q"
  by (simp add: owns_def split: prod.splits)

lemma owns_if [ffi_wp]:
  "(b \<Longrightarrow> owns S m Q) \<Longrightarrow> (\<not> b \<Longrightarrow> owns S n Q) \<Longrightarrow> owns S (if b then m else n) Q"
  by simp

lemma owns_case_option [ffi_wp]:
  "(x = None \<Longrightarrow> owns S m Q) \<Longrightarrow> (\<And>y. x = Some y \<Longrightarrow> owns S (f y) Q) \<Longrightarrow>
     owns S (case x of None \<Rightarrow> m | Some y \<Rightarrow> f y) Q"
  by (cases x) simp_all

lemma owns_ask [ffi_wp]: "(\<And>a. owns S (f a) Q) \<Longrightarrow> owns S (State_Monad.bind (ask g) f) Q"
  by (rule owns_bind [where P = "\<lambda>_ S'. S' = S"]) (auto simp: owns_def ask_def)

text \<open>One rule for each kind of call.\<close>

lemma owns_call_alloc [ffi_wp]:
  assumes "allocates c" and "\<And>r. consumes c r = []" and "\<forall>p \<in> set (requires c). root p \<in> S"
    and "owns S (f Null) Q"
    and "\<And>p. p \<noteq> Null \<Longrightarrow> root p = p \<Longrightarrow> p \<notin> S \<Longrightarrow> owns (insert p S) (f p) Q"
  shows "owns S (State_Monad.bind (call_ptr w c) f) Q"
proof (rule owns_bind)
  show "owns S (call_ptr w c)
     (\<lambda>p S'. p = Null \<and> S' = S \<or> p \<noteq> Null \<and> root p = p \<and> p \<notin> S \<and> S' = insert p S)"
    using assms(1-3) owned_fresh
    by (intro ownsI) (auto simp: call_ptr_def Let_def ticks_ownership split: if_splits)
qed (use assms(4,5) in auto)

lemma owns_call_part [ffi_wp]:
  assumes "\<not> allocates c" and "\<And>r. consumes c r = []" and "\<forall>p \<in> set (requires c). root p \<in> S"
    and "owns S (f Null) Q" and "owns S (f (Into p q)) Q"
  shows "owns S (State_Monad.bind (call_part w c p q) f) Q"
proof (rule owns_bind)
  show "owns S (call_part w c p q) (\<lambda>r S'. (r = Null \<or> r = Into p q) \<and> S' = S)"
    using assms(1-3) by (intro ownsI) (auto simp: call_part_def Let_def split: if_splits)
qed (use assms(4,5) in auto)

lemma owns_call_int [ffi_wp]:
  assumes "\<not> allocates c" and "\<forall>p \<in> set (requires c). root p \<in> S"
    and "\<And>i. owns (S - set (consumes c (RInt i))) (f i) Q"
  shows "owns S (State_Monad.bind (call_int w c) f) Q"
proof (rule owns_bind)
  show "owns S (call_int w c) (\<lambda>i S'. S' = S - set (consumes c (RInt i)))"
    using assms(1,2) by (intro ownsI) (auto simp: call_int_def Let_def)
qed (use assms(3) in auto)

text \<open>
  \<open>EVP_PKEY_assign_RSA\<close> takes the RSA key over when it returns 1.  The code treats the key as
  taken over in any case, which is right as long as the call never fails.
\<close>

definition assign_rsa_succeeds :: "world \<Rightarrow> bool" where
  "assign_rsa_succeeds w \<longleftrightarrow> (\<forall>tr k r. says_int w tr (EVP_PKEY_assign_RSA k r) = 1)"

lemma owns_assign_rsa:
  assumes "assign_rsa_succeeds w" and "root k \<in> S" and "root r \<in> S"
    and "owns (S - {r}) (f 1) Q"
  shows "owns S (State_Monad.bind (call_int w (EVP_PKEY_assign_RSA k r)) f) Q"
proof (rule owns_bind)
  show "owns S (call_int w (EVP_PKEY_assign_RSA k r)) (\<lambda>i S'. i = 1 \<and> S' = S - {r})"
    using assms(1-3) by (intro ownsI) (auto simp: call_int_def Let_def call_contracts assign_rsa_succeeds_def)
qed (use assms(4) in auto)

lemma owns_call_bool [ffi_wp]:
  assumes "\<not> allocates c" and "\<And>r. consumes c r = []" and "\<forall>p \<in> set (requires c). root p \<in> S"
    and "\<And>b. owns S (f b) Q"
  shows "owns S (State_Monad.bind (call_bool w c) f) Q"
proof (rule owns_bind)
  show "owns S (call_bool w c) (\<lambda>b S'. S' = S)"
    using assms(1-3) by (intro ownsI) (auto simp: call_bool_def Let_def)
qed (use assms(4) in auto)

lemma owns_call_bytes [ffi_wp]:
  assumes "\<not> allocates c" and "\<And>r. consumes c r = []" and "\<forall>p \<in> set (requires c). root p \<in> S"
    and "\<And>b. owns S (f b) Q"
  shows "owns S (State_Monad.bind (call_bytes w c) f) Q"
proof (rule owns_bind)
  show "owns S (call_bytes w c) (\<lambda>b S'. S' = S)"
    using assms(1-3) by (intro ownsI) (auto simp: call_bytes_def Let_def)
qed (use assms(4) in auto)

lemma owns_call_unit [ffi_wp]:
  assumes "\<not> allocates c" and "\<forall>p \<in> set (requires c). root p \<in> S"
    and "owns (S - set (consumes c RUnit)) (f ()) Q"
  shows "owns S (State_Monad.bind (call_unit c) f) Q"
proof (rule owns_bind)
  show "owns S (call_unit c) (\<lambda>b S'. S' = S - set (consumes c RUnit))"
    using assms(1,2) by (intro ownsI) (auto simp: call_unit_def Let_def)
qed (use assms(3) in auto)

text \<open>
  The contracts of a helper: \<open>keeps\<close>, it leaves the ownership as it was; \<open>tidy\<close>, the same for a
  fallible helper, which moreover does not panic; \<open>gives\<close>, it hands one new object to the caller
  when it returns \<open>Ok\<close>, leaves the ownership as it was when it returns \<open>Err\<close>, and does not
  panic.
\<close>

fun panics :: "('e, 'a) outcome \<Rightarrow> bool" where
  "panics (Panicked _) = True"
| "panics _ = False"

definition keeps :: "ptr set \<Rightarrow> 'a ffi \<Rightarrow> bool" where
  "keeps S m \<longleftrightarrow> owns S m (\<lambda>_ S'. S' = S)"

definition tidy :: "ptr set \<Rightarrow> ('e, 'a) outcome ffi \<Rightarrow> bool" where
  "tidy S m \<longleftrightarrow> owns S m (\<lambda>r S'. S' = S \<and> \<not> panics r)"

definition gives :: "ptr set \<Rightarrow> ('e, 'a) outcome ffi \<Rightarrow> ('a \<Rightarrow> ptr) \<Rightarrow> bool" where
  "gives S m p \<longleftrightarrow> owns S m (\<lambda>r S'. case r of
      Ok a \<Rightarrow> p a \<noteq> Null \<and> root (p a) = p a \<and> p a \<notin> S \<and> S' = insert (p a) S
    | Err e \<Rightarrow> S' = S
    | Panicked s \<Rightarrow> False)"

lemma tidy_or_cleanup:
  assumes "tidy S m" and "\<And>a. owns S (f a) Q"
    and "\<And>e. owns S (State_Monad.bind c (\<lambda>_. ret (Err e))) Q"
  shows "owns S (or_cleanup m c f) Q"
  unfolding or_cleanup_def
  by (rule owns_bind [OF assms(1) [unfolded tidy_def]])
    (auto simp: assms(2,3) split: outcome.splits)

lemma tidy_bindE:
  assumes "tidy S m" and "\<And>a. owns S (f a) Q" and "\<And>e. Q (Err e) S"
  shows "owns S (bindE m f) Q"
  unfolding bindE_def
  by (rule owns_bind [OF assms(1) [unfolded tidy_def]])
    (auto simp: assms(2,3) owns_return split: outcome.splits)

lemma gives_or_cleanup:
  assumes "gives S m p"
    and "\<And>a. p a \<noteq> Null \<Longrightarrow> root (p a) = p a \<Longrightarrow> p a \<notin> S \<Longrightarrow> owns (insert (p a) S) (f a) Q"
    and "\<And>e. owns S (State_Monad.bind c (\<lambda>_. ret (Err e))) Q"
  shows "owns S (or_cleanup m c f) Q"
  unfolding or_cleanup_def
  by (rule owns_bind [OF assms(1) [unfolded gives_def]])
    (auto simp: assms(2,3) split: outcome.splits)

lemma gives_bindE:
  assumes "gives S m p"
    and "\<And>a. p a \<noteq> Null \<Longrightarrow> root (p a) = p a \<Longrightarrow> p a \<notin> S \<Longrightarrow> owns (insert (p a) S) (f a) Q"
    and "\<And>e. Q (Err e) S"
  shows "owns S (bindE m f) Q"
  unfolding bindE_def
  by (rule owns_bind [OF assms(1) [unfolded gives_def]])
    (auto simp: assms(2,3) owns_return split: outcome.splits)

lemma keeps_bind:
  "keeps S m \<Longrightarrow> (\<And>a. owns S (f a) Q) \<Longrightarrow> owns S (State_Monad.bind m f) Q"
  unfolding keeps_def by (rule owns_bind [where P = "\<lambda>_ S'. S' = S"]) auto

lemma tidy_liftE: "\<not> panics r \<Longrightarrow> tidy S (liftE r)"
  by (simp add: tidy_def owns_return)

lemma bail_no_panic [simp]: "\<not> panics (bail s)"
  by (simp add: bail_def)

lemma panics_bind: "panics (bind_outcome r f) \<longleftrightarrow> panics r \<or> (\<exists>a. r = Ok a \<and> panics (f a))"
  by (cases r) simp_all

lemma panics_ok_or [simp]: "\<not> panics (ok_or e x)"
  by (cases x) simp_all

lemma panics_map_ok [simp]: "panics (map_ok f r) = panics r"
  by (cases r) simp_all

lemma panics_map_err [simp]: "panics (map_err f r) = panics r"
  by (cases r) simp_all

lemma panics_with_context [simp]: "panics (with_context s r) = panics r"
  by (simp add: with_context_def)

section \<open>Runs that succeed\<close>

lemma bindE_run_Ok:
  "run_state (bindE m f) tr = (Ok b, tr') \<longleftrightarrow>
     (\<exists>a tr1. run_state m tr = (Ok a, tr1) \<and> run_state (f a) tr1 = (Ok b, tr'))"
proof (cases "run_state m tr")
  case (Pair r tr1)
  then show ?thesis by (cases r) (auto simp: bindE_def)
qed

lemma bindE_run_Err:
  "run_state (bindE m f) tr = (Err e, tr') \<longleftrightarrow>
     run_state m tr = (Err e, tr') \<or>
     (\<exists>a tr1. run_state m tr = (Ok a, tr1) \<and> run_state (f a) tr1 = (Err e, tr'))"
proof (cases "run_state m tr")
  case (Pair r tr1)
  then show ?thesis by (cases r) (auto simp: bindE_def)
qed

lemma or_cleanup_run_Ok:
  "run_state (or_cleanup m c f) tr = (Ok b, tr') \<longleftrightarrow>
     (\<exists>a tr1. run_state m tr = (Ok a, tr1) \<and> run_state (f a) tr1 = (Ok b, tr'))"
proof (cases "run_state m tr")
  case (Pair r tr1)
  then show ?thesis by (cases r) (auto simp: or_cleanup_def split: prod.splits)
qed

lemma run_calls:
  "run_state (call_ptr w c) tr =
     (if says_ptr w tr c then Obj (Suc (length tr)) else Null, tr @ [(c, RPtr (says_ptr w tr c))])"
  "run_state (call_part w c p q) tr =
     (if says_ptr w tr c then Into p q else Null, tr @ [(c, RPtr (says_ptr w tr c))])"
  "run_state (call_int w c) tr = (says_int w tr c, tr @ [(c, RInt (says_int w tr c))])"
  "run_state (call_bool w c) tr = (says_ptr w tr c, tr @ [(c, RPtr (says_ptr w tr c))])"
  "run_state (call_bytes w c) tr = (says_bytes w tr c, tr @ [(c, RBytes (says_bytes w tr c))])"
  "run_state (call_unit c) tr = ((), tr @ [(c, RUnit)])"
  "run_state (ask f) tr = (f tr, tr)"
  by (simp_all add: call_ptr_def call_part_def call_int_def call_bool_def call_bytes_def call_unit_def
      ask_def Let_def)

lemma run_ret_Ok: "run_state (ret r) tr = (Ok a, tr') \<longleftrightarrow> r = Ok a \<and> tr' = tr"
  by auto

lemma run_fail_if_Ok:
  "run_state (if b then fail s else m) tr = (Ok a, tr') \<longleftrightarrow> \<not> b \<and> run_state m tr = (Ok a, tr')"
  by simp

lemmas run_Ok = bindE_run_Ok or_cleanup_run_Ok run_calls run_ret_Ok run_fail_if_Ok

text \<open>
  A world in which every call succeeds with the least answer, for evaluating programs on concrete
  inputs: the clock stands at the given second and the file system is empty.
\<close>

definition obliging_world :: "nat \<Rightarrow> world" where
  "obliging_world now =
     \<lparr>says_ptr = (\<lambda>_ _. True), says_int = (\<lambda>_ _. 1), says_bytes = (\<lambda>_ _. Some [1]),
      unix_time = (\<lambda>_. Some now), glob_paths = (\<lambda>_ _. Some []),
      path_is_file = (\<lambda>_ _. False), read_to_string = (\<lambda>_ _. None)\<rparr>"

lemma obliging_world_simps [simp]:
  "says_ptr (obliging_world n) tr c" "says_int (obliging_world n) tr c = 1"
  "says_bytes (obliging_world n) tr c = Some [1]" "unix_time (obliging_world n) tr = Some n"
  by (simp_all add: obliging_world_def)

end
