(* ===== verification/Cert_Authority.thy ===== *)
theory Cert_Authority
  imports Avs_Proto Ffi_World
begin

text \<open>
  The certificate authority of \<open>avs_server/src/ca.rs\<close>: creation of the signing key and of the
  authority's own certificate (self-signed, or issued by the TCA), issuance of workload
  certificates, and the extraction of the trust domain from a certificate's alternative name.
  Every function is a program over the foreign calls of \<open>Ffi_World\<close>, in the order of the source,
  with the clean-up of each error path and the destructors that run when a local goes out of scope.
\<close>

section \<open>State\<close>

definition CERT_VALIDITY :: int where
  "CERT_VALIDITY = 365"

definition SEC_DAYS :: int where
  "SEC_DAYS = 24 * 60 * 60"

definition ISSUER_NAME :: string where
  "ISSUER_NAME = ''Attestation Verification Service''"

definition SELF_SIGNED_TRUST_DOMAIN :: string where
  "SELF_SIGNED_TRUST_DOMAIN = ''prod.google.com.avs.pcit.goog''"

datatype 'a mutex = Mutex (guarded: 'a) (poisoned: bool)

record certificate_authority =
  ca_key :: "ptr mutex"
  issuer_name :: "ptr mutex"
  ca_cert_chain_der :: "bytes list"
  trust_domain :: string

record provisioned_identity =
  public_key :: ptr
  certificate_profile :: certificate_profile
  operator_domain_of :: string
  operator_role_of :: string
  publisher_domain_of :: string
  publisher_role_of :: string
  workload_name_of :: string
  not_before_sec :: int
  not_after_sec :: int

text \<open>A TCA client: what \<open>issue_certificate\<close> answers to a DER-encoded CSR.\<close>

type_synonym tca_client = "trace \<Rightarrow> bytes \<Rightarrow> (certificate_error, bytes list) outcome"

section \<open>Keys\<close>

definition key_pair_drop :: "ptr \<Rightarrow> unit ffi" where
  "key_pair_drop k = free EVP_PKEY k"

definition key_pair_from_bytes :: "world \<Rightarrow> bytes \<Rightarrow> (anyhow, ptr) outcome ffi" where
  "key_pair_from_bytes w bs = do {
     pkey \<leftarrow> call_ptr w (D2i EVP_PKEY bs);
     if pkey = Null then fail ''failed to parse public key from DER bytes''
     else ret (Ok pkey)
   }"

definition key_pair_eq :: "world \<Rightarrow> ptr \<Rightarrow> ptr \<Rightarrow> bool ffi" where
  "key_pair_eq w k l = do {
     i \<leftarrow> call_int w (EVP_PKEY_cmp k l);
     ret (i = 1)
   }"

definition create_ca_keypair :: "world \<Rightarrow> (anyhow, ptr) outcome ffi" where
  "create_ca_keypair w = do {
     rsa \<leftarrow> call_ptr w (New RSA);
     if rsa = Null then fail ''Failed to create RSA struct.''
     else do {
       big_e \<leftarrow> call_ptr w (New BIGNUM);
       if big_e = Null then do {
         _ \<leftarrow> free RSA rsa;
         fail ''Failed to create BIGNUM for exponent.''
       } else do {
         set \<leftarrow> call_int w (BN_set_word big_e 65537);
         if set \<noteq> 1 then do {
           _ \<leftarrow> free BIGNUM big_e;
           _ \<leftarrow> free RSA rsa;
           fail ''Failed to set exponent value''
         } else do {
           gen \<leftarrow> call_int w (RSA_generate_key_ex rsa 2048 big_e);
           if gen \<noteq> 1 then do {
             _ \<leftarrow> free BIGNUM big_e;
             _ \<leftarrow> free RSA rsa;
             fail ''Failed to generate RSA key pair.''
           } else do {
             _ \<leftarrow> free BIGNUM big_e;
             ca_key_ptr \<leftarrow> call_ptr w (New EVP_PKEY);
             if ca_key_ptr = Null then do {
               _ \<leftarrow> free RSA rsa;
               fail ''Failed to create PKey for Certificate Authority.''
             } else do {
               assigned \<leftarrow> call_int w (EVP_PKEY_assign_RSA ca_key_ptr rsa);
               if assigned \<noteq> 1 then do {
                 _ \<leftarrow> free EVP_PKEY ca_key_ptr;
                 fail ''Failed to assign RSA to PKey.''
               } else ret (Ok ca_key_ptr)
             }
           }
         }
       }
     }
   }"

section \<open>Names\<close>

definition create_issuer_x509_name :: "world \<Rightarrow> string \<Rightarrow> (anyhow, ptr) outcome ffi" where
  "create_issuer_x509_name w name = do {
     issuer_name_ptr \<leftarrow> call_ptr w (New X509_NAME);
     if issuer_name_ptr = Null then fail ''Failed to create X509_NAME for issuer''
     else if CHR 0x00 \<in> set name then do {
       _ \<leftarrow> free X509_NAME issuer_name_ptr;
       fail ''nul byte found in provided data''
     } else do {
       added \<leftarrow> call_int w (X509_NAME_add_entry_by_txt issuer_name_ptr ''CN'' name);
       if added \<noteq> 1 then do {
         _ \<leftarrow> free X509_NAME issuer_name_ptr;
         fail ''Failed to create issuer name.''
       } else ret (Ok issuer_name_ptr)
     }
   }"

definition extract_subject_name_from_cert :: "world \<Rightarrow> bytes \<Rightarrow> (anyhow, ptr) outcome ffi" where
  "extract_subject_name_from_cert w cert_der = do {
     x509 \<leftarrow> call_ptr w (D2i X509 cert_der);
     if x509 = Null then fail ''Failed to parse certificate for subject name extraction''
     else do {
       subject_name \<leftarrow> call_part w (X509_get_subject_name x509) x509 SubjectName;
       if subject_name = Null then do {
         _ \<leftarrow> free X509 x509;
         fail ''Certificate has no subject name''
       } else do {
         dup \<leftarrow> call_ptr w (X509_NAME_dup subject_name);
         _ \<leftarrow> free X509 x509;
         if dup = Null then fail ''Failed to duplicate subject name''
         else ret (Ok dup)
       }
     }
   }"

section \<open>Setters of a certificate under construction\<close>

definition set_x509_version :: "world \<Rightarrow> ptr \<Rightarrow> (anyhow, unit) outcome ffi" where
  "set_x509_version w x509 = do {
     r \<leftarrow> call_int w (X509_set_version x509 2);
     if r \<noteq> 1 then fail ''Failed to set cert version'' else ret (Ok ())
   }"

text \<open>\<open>X509_getm_notBefore\<close> and \<open>X509_getm_notAfter\<close> return the address of a field.\<close>

definition set_x509_validity :: "world \<Rightarrow> ptr \<Rightarrow> int \<Rightarrow> (anyhow, unit) outcome ffi" where
  "set_x509_validity w x509 days = do {
     nb \<leftarrow> call_bool w (X509_gmtime_adj (Into x509 NotBefore) 0);
     if \<not> nb then fail ''Failed to set notBefore''
     else do {
       na \<leftarrow> call_bool w (X509_gmtime_adj (Into x509 NotAfter) (wrap_i64 (days * SEC_DAYS)));
       if \<not> na then fail ''Failed to set notAfter'' else ret (Ok ())
     }
   }"

definition set_x509_validity_timestamps ::
  "world \<Rightarrow> ptr \<Rightarrow> int \<Rightarrow> int \<Rightarrow> (anyhow, unit) outcome ffi" where
  "set_x509_validity_timestamps w x509 nb_sec na_sec = do {
     nb \<leftarrow> call_bool w (ASN1_TIME_set_posix (Into x509 NotBefore) nb_sec);
     if \<not> nb then fail ''Failed to set notBefore timestamp''
     else do {
       na \<leftarrow> call_bool w (ASN1_TIME_set_posix (Into x509 NotAfter) na_sec);
       if \<not> na then fail ''Failed to set notAfter timestamp'' else ret (Ok ())
     }
   }"

text \<open>Adding an extension and releasing it, as every setter of an extension ends.\<close>

definition add_ext_and_free :: "world \<Rightarrow> ptr \<Rightarrow> ptr \<Rightarrow> string \<Rightarrow> string \<Rightarrow> (anyhow, unit) outcome ffi" where
  "add_ext_and_free w x509 ext create_msg add_msg =
     (if ext = Null then fail create_msg
      else do {
        r \<leftarrow> call_int w (X509_add_ext x509 ext);
        if r \<noteq> 1 then do {
          _ \<leftarrow> free X509_EXTENSION ext;
          fail add_msg
        } else do {
          _ \<leftarrow> free X509_EXTENSION ext;
          ret (Ok ())
        }
      })"

definition set_x509_ca_basic_constraints :: "world \<Rightarrow> ptr \<Rightarrow> (anyhow, unit) outcome ffi" where
  "set_x509_ca_basic_constraints w x509 = do {
     ext \<leftarrow> call_ptr w (X509V3_EXT_nconf_nid None NID_basic_constraints ''critical,CA:TRUE'');
     add_ext_and_free w x509 ext ''Failed to create CA BasicConstraints extension''
       ''Failed to add CA BasicConstraints extension''
   }"

definition set_x509_leaf_basic_constraints :: "world \<Rightarrow> ptr \<Rightarrow> (anyhow, unit) outcome ffi" where
  "set_x509_leaf_basic_constraints w x509 = do {
     ext \<leftarrow> call_ptr w (X509V3_EXT_nconf_nid None NID_basic_constraints ''critical,CA:FALSE'');
     add_ext_and_free w x509 ext ''Failed to create leaf BasicConstraints extension''
       ''Failed to add leaf BasicConstraints extension''
   }"

definition set_x509_key_usage :: "world \<Rightarrow> ptr \<Rightarrow> (anyhow, unit) outcome ffi" where
  "set_x509_key_usage w x509 = do {
     ext \<leftarrow> call_ptr w (X509V3_EXT_nconf_nid None NID_key_usage ''critical,digitalSignature'');
     add_ext_and_free w x509 ext ''Failed to create Key Usage extension''
       ''Failed to add Key Usage extension''
   }"

definition set_x509_subject_key_identifier :: "world \<Rightarrow> ptr \<Rightarrow> (anyhow, unit) outcome ffi" where
  "set_x509_subject_key_identifier w x509 = do {
     ext \<leftarrow> call_ptr w
       (X509V3_EXT_nconf_nid (Some (x509, x509)) NID_subject_key_identifier ''hash'');
     add_ext_and_free w x509 ext ''Failed to create Subject Key Identifier extension''
       ''Failed to add Subject Key Identifier extension''
   }"

definition set_x509_authority_key_identifier ::
  "world \<Rightarrow> ptr \<Rightarrow> bytes \<Rightarrow> (anyhow, unit) outcome ffi" where
  "set_x509_authority_key_identifier w x509 issuer_cert_der = do {
     issuer_x509 \<leftarrow> call_ptr w (D2i X509 issuer_cert_der);
     if issuer_x509 = Null
     then fail ''Failed to parse issuing CA certificate for AKI injection''
     else do {
       ext \<leftarrow> call_ptr w (X509V3_EXT_nconf_nid (Some (issuer_x509, x509))
         NID_authority_key_identifier ''keyid:always'');
       _ \<leftarrow> free X509 issuer_x509;
       add_ext_and_free w x509 ext
         ''Failed to create Authority Key Identifier extension (ensure issuer possesses an SKI)''
         ''Failed to add Authority Key Identifier extension to leaf certificate''
     }
   }"

text \<open>The value of the extended key usage for a profile; \<open>None\<close> when no extension is added.\<close>

fun eku_value :: "certificate_profile \<Rightarrow> (anyhow, string option) outcome" where
  "eku_value Unrestricted = Ok None"
| "eku_value Mtls = Ok (Some ''serverAuth,clientAuth'')"
| "eku_value Tls = Ok (Some ''serverAuth'')"
| "eku_value ProfileUnspecified = bail ''certificate_profile must be specified''"

definition set_x509_extended_key_usage ::
  "world \<Rightarrow> ptr \<Rightarrow> certificate_profile \<Rightarrow> (anyhow, unit) outcome ffi" where
  "set_x509_extended_key_usage w x509 profile =
     bindE (liftE (eku_value profile)) (\<lambda>v. case v of
        None \<Rightarrow> ret (Ok ())
      | Some eku_str \<Rightarrow> do {
          ext \<leftarrow> call_ptr w (X509V3_EXT_nconf_nid None NID_ext_key_usage eku_str);
          add_ext_and_free w x509 ext ''Failed to create Extended Key Usage extension''
            ''Failed to add Extended Key Usage extension''
        })"

definition set_x509_serial_random :: "world \<Rightarrow> ptr \<Rightarrow> (anyhow, unit) outcome ffi" where
  "set_x509_serial_random w x509 = do {
     serial_number \<leftarrow> call_ptr w (New ASN1_INTEGER);
     if serial_number = Null then do {
       _ \<leftarrow> free ASN1_INTEGER serial_number;
       fail ''Failed to create ASN1_INTEGER''
     } else do {
       big_num \<leftarrow> call_ptr w (New BIGNUM);
       if big_num = Null then do {
         _ \<leftarrow> free BIGNUM big_num;
         _ \<leftarrow> free ASN1_INTEGER serial_number;
         fail ''Failed to create BigNum for serial''
       } else do {
         rand \<leftarrow> call_int w (BN_rand big_num 152);
         if rand \<noteq> 1 then do {
           _ \<leftarrow> free BIGNUM big_num;
           _ \<leftarrow> free ASN1_INTEGER serial_number;
           fail ''Failed to generate random BigNum for serial''
         } else do {
           conv \<leftarrow> call_bool w (BN_to_ASN1_INTEGER big_num serial_number);
           if \<not> conv then do {
             _ \<leftarrow> free BIGNUM big_num;
             _ \<leftarrow> free ASN1_INTEGER serial_number;
             fail ''Failed to convert BigNum to ASN1_INTEGER''
           } else do {
             _ \<leftarrow> free BIGNUM big_num;
             set \<leftarrow> call_int w (X509_set_serialNumber x509 serial_number);
             if set \<noteq> 1 then do {
               _ \<leftarrow> free ASN1_INTEGER serial_number;
               fail ''Failed to set serial number''
             } else do {
               _ \<leftarrow> free ASN1_INTEGER serial_number;
               ret (Ok ())
             }
           }
         }
       }
     }
   }"

definition sign_x509 :: "world \<Rightarrow> ptr \<Rightarrow> ptr \<Rightarrow> (anyhow, unit) outcome ffi" where
  "sign_x509 w x509 key = do {
     r \<leftarrow> call_int w (X509_sign x509 key);
     if r \<le> 0 then fail ''Failed to sign certificate'' else ret (Ok ())
   }"

definition x509_to_der :: "world \<Rightarrow> ptr \<Rightarrow> (anyhow, bytes) outcome ffi" where
  "x509_to_der w x509 = do {
     len \<leftarrow> call_int w (I2d_len X509 x509);
     if len < 0 then fail ''Failed to determine DER encoding length''
     else do {
       written \<leftarrow> call_bytes w (I2d X509 x509);
       case written of
         None \<Rightarrow> fail ''Failed to encode X509 to DER''
       | Some bs \<Rightarrow> ret (Ok (filled len bs))
     }
   }"

section \<open>Trust domain of a certificate\<close>

text \<open>
  \<open>match_indices("spiffe://")\<close>: the suffixes of a string that start with the pattern, scanning
  from the left and resuming after each match.
\<close>

definition SPIFFE :: string where
  "SPIFFE = ''spiffe://''"

function spiffe_matches :: "string \<Rightarrow> string list" where
  "spiffe_matches [] = []"
| "spiffe_matches (x # xs) =
     (if prefix SPIFFE (x # xs) then (x # xs) # spiffe_matches (drop 8 xs)
      else spiffe_matches xs)"
  by pat_completeness auto
termination
  by (relation "measure length") auto

definition graphic_prefix :: "string \<Rightarrow> string" where
  "graphic_prefix s = takeWhile (\<lambda>c. is_ascii_graphic (code c)) s"

definition extract_spiffe_trust_domain :: "bytes \<Rightarrow> (anyhow, string) outcome" where
  "extract_spiffe_trust_domain san_bytes =
     (case map graphic_prefix (spiffe_matches (from_utf8_lossy san_bytes)) of
        [] \<Rightarrow> bail ''No SPIFFE URI found in SAN extension''
      | _ # _ # _ \<Rightarrow> bail ''Multiple SPIFFE URIs found in SAN extension: {:?}''
      | [uri] \<Rightarrow>
          if \<not> prefix SPIFFE uri
          then Panicked ''called `Option::unwrap()` on a `None` value''
          else
            let trust_domain = hd (split_on CHR ''/'' (drop (length SPIFFE) uri))
            in if trust_domain = []
               then bail (''SPIFFE URI has an empty trust domain: '' @ uri)
               else Ok trust_domain)"

definition extract_trust_domain_from_cert :: "world \<Rightarrow> bytes \<Rightarrow> (anyhow, string) outcome ffi" where
  "extract_trust_domain_from_cert w cert_der = do {
     x509 \<leftarrow> call_ptr w (D2i X509 cert_der);
     if x509 = Null then fail ''Failed to parse certificate for trust domain extraction''
     else do {
       ext_idx \<leftarrow> call_int w (X509_get_ext_by_NID x509 NID_subject_alt_name);
       if ext_idx < 0 then do {
         _ \<leftarrow> free X509 x509;
         fail ''Certificate does not contain a Subject Alternative Name extension''
       } else do {
         ext \<leftarrow> call_part w (X509_get_ext x509 ext_idx) x509 (ExtensionAt ext_idx);
         if ext = Null then do {
           _ \<leftarrow> free X509 x509;
           fail ''Failed to retrieve SAN extension''
         } else do {
           octet_string \<leftarrow> call_part w (X509_EXTENSION_get_data ext) ext ExtensionData;
           if octet_string = Null then do {
             _ \<leftarrow> free X509 x509;
             fail ''SAN extension has no data''
           } else do {
             data_ptr \<leftarrow> call_part w (ASN1_STRING_get0_data octet_string) octet_string StringData;
             data_len \<leftarrow> call_int w (ASN1_STRING_length octet_string);
             if data_ptr = Null \<or> data_len \<le> 0 then do {
               _ \<leftarrow> free X509 x509;
               fail ''SAN extension data is empty''
             } else do {
               slice \<leftarrow> call_bytes w (Read_slice data_ptr data_len);
               _ \<leftarrow> free X509 x509;
               liftE (extract_spiffe_trust_domain (filled data_len (unwrap_or [] slice)))
             }
           }
         }
       }
     }
   }"

section \<open>Alternative names\<close>

definition create_san_extension_from_str ::
  "world \<Rightarrow> string \<Rightarrow> gen_type \<Rightarrow> (anyhow, ptr) outcome ffi" where
  "create_san_extension_from_str w v gen_type = do {
     ia5 \<leftarrow> call_ptr w (New ASN1_IA5STRING);
     if ia5 = Null then fail ''Failed to allocate ASN1_IA5STRING for SAN extension''
     else do {
       set \<leftarrow> call_int w (ASN1_STRING_set ia5 (as_bytes v));
       if set \<noteq> 1 then do {
         _ \<leftarrow> free ASN1_IA5STRING ia5;
         fail ''Failed to set ASN1_IA5STRING content for SAN extension''
       } else do {
         general_name \<leftarrow> call_ptr w (New GENERAL_NAME);
         if general_name = Null then do {
           _ \<leftarrow> free ASN1_IA5STRING ia5;
           fail ''Failed to allocate GENERAL_NAME for SAN extension''
         } else do {
           _ \<leftarrow> call_unit (GENERAL_NAME_set0_value general_name gen_type ia5);
           gens \<leftarrow> call_ptr w (New GENERAL_NAMES);
           if gens = Null then do {
             _ \<leftarrow> free GENERAL_NAME general_name;
             fail ''Failed to allocate GENERAL_NAMES stack for SAN extension''
           } else do {
             pushed \<leftarrow> call_int w (Sk_GENERAL_NAME_push gens general_name);
             if pushed = 0 then do {
               _ \<leftarrow> free GENERAL_NAME general_name;
               _ \<leftarrow> free GENERAL_NAMES gens;
               fail ''Failed to push GENERAL_NAME to GENERAL_NAMES stack''
             } else do {
               ext \<leftarrow> call_ptr w (X509V3_EXT_i2d NID_subject_alt_name 1 gens);
               _ \<leftarrow> free GENERAL_NAMES gens;
               if ext = Null
               then fail ''Failed to create SAN X509_EXTENSION via X509V3_EXT_i2d''
               else ret (Ok ext)
             }
           }
         }
       }
     }
   }"

definition spiffe_id :: "string \<Rightarrow> provisioned_identity \<Rightarrow> string" where
  "spiffe_id td i =
     ''spiffe://'' @ td @ ''/operator/'' @ operator_domain_of i @ ''/'' @ operator_role_of i
       @ ''/publisher/'' @ publisher_domain_of i @ ''/'' @ publisher_role_of i
       @ ''/workload/'' @ workload_name_of i"

definition dns_name :: "string \<Rightarrow> provisioned_identity \<Rightarrow> string" where
  "dns_name td i = operator_role_of i @ ''.'' @ operator_domain_of i @ ''.'' @ td"

definition create_spiffe_extension ::
  "world \<Rightarrow> certificate_authority \<Rightarrow> provisioned_identity \<Rightarrow> (anyhow, ptr) outcome ffi" where
  "create_spiffe_extension w ca identity =
     create_san_extension_from_str w (spiffe_id (trust_domain ca) identity) GEN_URI"

definition create_dns_extension ::
  "world \<Rightarrow> certificate_authority \<Rightarrow> provisioned_identity \<Rightarrow> (anyhow, ptr) outcome ffi" where
  "create_dns_extension w ca identity =
     create_san_extension_from_str w (dns_name (trust_domain ca) identity) GEN_DNS"

definition create_san_extension ::
  "world \<Rightarrow> certificate_authority \<Rightarrow> provisioned_identity \<Rightarrow> (anyhow, ptr) outcome ffi" where
  "create_san_extension w ca identity =
     (case certificate_profile identity of
        Tls \<Rightarrow> create_dns_extension w ca identity
      | _ \<Rightarrow> create_spiffe_extension w ca identity)"

section \<open>Issuing a workload certificate\<close>

definition generate_certificate ::
  "world \<Rightarrow> certificate_authority \<Rightarrow> provisioned_identity \<Rightarrow> (anyhow, bytes) outcome ffi" where
  "generate_certificate w ca identity = do {
     x509 \<leftarrow> call_ptr w (New X509);
     if x509 = Null then fail ''Failed to create X509 object.''
     else
     or_cleanup (set_x509_version w x509) (free X509 x509) (\<lambda>_.
     or_cleanup (set_x509_serial_random w x509) (free X509 x509) (\<lambda>_.
     if poisoned (issuer_name ca) then do {
       _ \<leftarrow> free X509 x509;
       fail ''Issuer name mutex poisoned: {e}''
     } else do {
     issuer \<leftarrow> call_int w (X509_set_issuer_name x509 (guarded (issuer_name ca)));
     if issuer \<noteq> 1 then do {
       _ \<leftarrow> free X509 x509;
       fail ''Failed to set issuer name''
     } else do {
     pubkey \<leftarrow> call_int w (X509_set_pubkey x509 (public_key identity));
     if pubkey \<noteq> 1 then do {
       _ \<leftarrow> free X509 x509;
       fail ''Failed to set public key''
     } else
     or_cleanup (create_san_extension w ca identity) (free X509 x509) (\<lambda>ext.
     if ext = Null then do {
       _ \<leftarrow> free X509 x509;
       fail ''Failed to create SAN extension''
     } else do {
     added \<leftarrow> call_int w (X509_add_ext x509 ext);
     if added \<noteq> 1 then do {
       _ \<leftarrow> free X509_EXTENSION ext;
       _ \<leftarrow> free X509 x509;
       fail ''Failed to add SAN extension''
     } else do {
     _ \<leftarrow> free X509_EXTENSION ext;
     or_cleanup (set_x509_extended_key_usage w x509 (certificate_profile identity))
       (free X509 x509) (\<lambda>_.
     or_cleanup (set_x509_leaf_basic_constraints w x509) (free X509 x509) (\<lambda>_.
     or_cleanup (set_x509_key_usage w x509) (free X509 x509) (\<lambda>_.
     case ca_cert_chain_der ca of
       [] \<Rightarrow> ret (Panicked ''index out of bounds: the len is 0 but the index is 0'')
     | issuer_der # _ \<Rightarrow>
     or_cleanup (set_x509_authority_key_identifier w x509 issuer_der) (free X509 x509) (\<lambda>_.
     or_cleanup (set_x509_validity_timestamps w x509 (not_before_sec identity) (not_after_sec identity))
       (free X509 x509) (\<lambda>_.
     if poisoned (ca_key ca) then do {
       _ \<leftarrow> free X509 x509;
       fail ''CA key mutex poisoned: {e}''
     } else
     or_cleanup (sign_x509 w x509 (guarded (ca_key ca))) (free X509 x509) (\<lambda>_.
     or_cleanup (x509_to_der w x509) (free X509 x509) (\<lambda>cert_der. do {
     _ \<leftarrow> free X509 x509;
     ret (Ok cert_der) }))))))) }})}}))
   }"

section \<open>The authority's own certificate\<close>

definition create_ca_csr :: "world \<Rightarrow> ptr \<Rightarrow> ptr \<Rightarrow> (anyhow, bytes) outcome ffi" where
  "create_ca_csr w key_pair subject_name = do {
     req \<leftarrow> call_ptr w (New X509_REQ);
     if req = Null then fail ''Failed to create X509_REQ''
     else do {
     version \<leftarrow> call_int w (X509_REQ_set_version req 0);
     if version \<noteq> 1 then do {
       _ \<leftarrow> free X509_REQ req;
       fail ''Failed to set CSR version''
     } else do {
     subject \<leftarrow> call_int w (X509_REQ_set_subject_name req subject_name);
     if subject \<noteq> 1 then do {
       _ \<leftarrow> free X509_REQ req;
       fail ''Failed to set CSR subject''
     } else do {
     pubkey \<leftarrow> call_int w (X509_REQ_set_pubkey req key_pair);
     if pubkey \<noteq> 1 then do {
       _ \<leftarrow> free X509_REQ req;
       fail ''Failed to set CSR pubkey''
     } else do {
     signed \<leftarrow> call_int w (X509_REQ_sign req key_pair);
     if signed \<le> 0 then do {
       _ \<leftarrow> free X509_REQ req;
       fail ''Failed to sign CSR''
     } else do {
     len \<leftarrow> call_int w (I2d_len X509_REQ req);
     if len < 0 then do {
       _ \<leftarrow> free X509_REQ req;
       fail ''Failed to determine CSR DER encoding length''
     } else do {
     written \<leftarrow> call_bytes w (I2d X509_REQ req);
     _ \<leftarrow> free X509_REQ req;
     case written of
       None \<Rightarrow> fail ''Failed to encode CSR to DER''
     | Some bs \<Rightarrow> ret (Ok (filled len bs)) }}}}}}
   }"

definition create_ca_x509 :: "world \<Rightarrow> ptr \<Rightarrow> ptr \<Rightarrow> (anyhow, ptr) outcome ffi" where
  "create_ca_x509 w key_pair issuer = do {
     x509 \<leftarrow> call_ptr w (New X509);
     if x509 = Null then fail ''Failed to create X509 for CA cert.''
     else
     or_cleanup (set_x509_version w x509) (free X509 x509) (\<lambda>_. do {
     serial_number \<leftarrow> call_ptr w (New ASN1_INTEGER);
     if serial_number = Null then do {
       _ \<leftarrow> free X509 x509;
       fail ''Failed to create ASN1_INTEGER''
     } else do {
     _ \<leftarrow> call_int w (ASN1_INTEGER_set serial_number 1);
     serial \<leftarrow> call_int w (X509_set_serialNumber x509 serial_number);
     if serial \<noteq> 1 then do {
       _ \<leftarrow> free ASN1_INTEGER serial_number;
       _ \<leftarrow> free X509 x509;
       fail ''Failed to set CA cert serial number''
     } else do {
     _ \<leftarrow> free ASN1_INTEGER serial_number;
     subject \<leftarrow> call_int w (X509_set_subject_name x509 issuer);
     if subject \<noteq> 1 then do {
       _ \<leftarrow> free X509 x509;
       fail ''Failed to set CA cert subject name''
     } else do {
     iss \<leftarrow> call_int w (X509_set_issuer_name x509 issuer);
     if iss \<noteq> 1 then do {
       _ \<leftarrow> free X509 x509;
       fail ''Failed to set CA cert issuer name''
     } else do {
     pubkey \<leftarrow> call_int w (X509_set_pubkey x509 key_pair);
     if pubkey \<noteq> 1 then do {
       _ \<leftarrow> free X509 x509;
       fail ''Failed to set CA cert public key''
     } else
     or_cleanup (set_x509_validity w x509 CERT_VALIDITY) (free X509 x509) (\<lambda>_.
     or_cleanup (set_x509_ca_basic_constraints w x509) (free X509 x509) (\<lambda>_.
     or_cleanup (set_x509_subject_key_identifier w x509) (free X509 x509) (\<lambda>_.
     or_cleanup (sign_x509 w x509 key_pair) (free X509 x509) (\<lambda>_.
     ret (Ok x509))))) }}}}})
   }"

definition mk_ca :: "ptr \<Rightarrow> ptr \<Rightarrow> bytes list \<Rightarrow> string \<Rightarrow> certificate_authority" where
  "mk_ca key name chain td =
     \<lparr>ca_key = Mutex key False, issuer_name = Mutex name False,
      ca_cert_chain_der = chain, trust_domain = td\<rparr>"

text \<open>
  In both constructors the key pair is a local with a destructor, which runs on every early return
  once the key exists; the subject name of the CSR is a raw pointer that the code frees itself.
\<close>

definition new_root :: "world \<Rightarrow> (anyhow, certificate_authority) outcome ffi" where
  "new_root w =
     bindE (create_ca_keypair w) (\<lambda>key.
     or_cleanup (create_issuer_x509_name w ISSUER_NAME) (key_pair_drop key) (\<lambda>issuer_name_ptr.
     or_cleanup (create_ca_x509 w key issuer_name_ptr)
       (do { _ \<leftarrow> free X509_NAME issuer_name_ptr; key_pair_drop key }) (\<lambda>x509.
     or_cleanup (x509_to_der w x509)
       (do { _ \<leftarrow> free X509_NAME issuer_name_ptr; _ \<leftarrow> free X509 x509; key_pair_drop key })
       (\<lambda>ca_cert_der. do {
     _ \<leftarrow> free X509 x509;
     ret (Ok (mk_ca key issuer_name_ptr [ca_cert_der] SELF_SIGNED_TRUST_DOMAIN)) }))))"

definition create_key_and_csr :: "world \<Rightarrow> (anyhow, ptr \<times> bytes) outcome ffi" where
  "create_key_and_csr w =
     bindE (create_issuer_x509_name w ISSUER_NAME) (\<lambda>subject_name_ptr.
     or_cleanup (create_ca_keypair w) (free X509_NAME subject_name_ptr) (\<lambda>key.
     or_cleanup (create_ca_csr w key subject_name_ptr)
       (do { _ \<leftarrow> free X509_NAME subject_name_ptr; key_pair_drop key }) (\<lambda>csr_der. do {
     _ \<leftarrow> free X509_NAME subject_name_ptr;
     ret (Ok (key, csr_der)) })))"

text \<open>
  The rest of \<open>new_intermediate\<close>, from the answer of the TCA on: other requests may run between the
  two parts, while the answer is awaited.
\<close>

definition finish_intermediate ::
  "world \<Rightarrow> ptr \<Rightarrow> (certificate_error, bytes list) outcome \<Rightarrow> (anyhow, certificate_authority) outcome ffi" where
  "finish_intermediate w key answer =
     or_cleanup (liftE (map_err CertErr answer)) (key_pair_drop key) (\<lambda>cert_chain.
     case cert_chain of
       [] \<Rightarrow> do {
         _ \<leftarrow> key_pair_drop key;
         fail ''TCA returned empty certificate chain''
       }
     | ca_cert # _ \<Rightarrow>
     or_cleanup (extract_trust_domain_from_cert w ca_cert) (key_pair_drop key) (\<lambda>td.
     or_cleanup (extract_subject_name_from_cert w ca_cert) (key_pair_drop key) (\<lambda>issuer_name_ptr.
     ret (Ok (mk_ca key issuer_name_ptr cert_chain td)))))"

definition new_intermediate ::
  "world \<Rightarrow> tca_client \<Rightarrow> (anyhow, certificate_authority) outcome ffi" where
  "new_intermediate w tca =
     bindE (create_key_and_csr w) (\<lambda>(key, csr_der). do {
     answer \<leftarrow> ask (\<lambda>tr. tca tr csr_der);
     finish_intermediate w key answer })"

definition get_ca_cert_chain_der :: "certificate_authority \<Rightarrow> bytes list" where
  "get_ca_cert_chain_der ca = ca_cert_chain_der ca"

text \<open>Dropping an authority: its own destructor, then that of the key it holds.\<close>

definition drop_certificate_authority :: "certificate_authority \<Rightarrow> unit ffi" where
  "drop_certificate_authority ca =
     (if poisoned (issuer_name ca) then key_pair_drop (guarded (ca_key ca))
      else do {
        _ \<leftarrow> free X509_NAME (guarded (issuer_name ca));
        key_pair_drop (guarded (ca_key ca))
      })"

section \<open>No leak, no use after free\<close>

lemma tidy_set_x509_version: "root x \<in> S \<Longrightarrow> tidy S (set_x509_version w x)"
  unfolding tidy_def set_x509_version_def
  by (intro ffi_wp) (simp_all add: call_contracts)

lemma tidy_set_x509_validity: "root x \<in> S \<Longrightarrow> tidy S (set_x509_validity w x d)"
  unfolding tidy_def set_x509_validity_def
  by (intro ffi_wp) (simp_all add: call_contracts)

lemma tidy_set_x509_validity_timestamps:
  "root x \<in> S \<Longrightarrow> tidy S (set_x509_validity_timestamps w x a b)"
  unfolding tidy_def set_x509_validity_timestamps_def
  by (intro ffi_wp) (simp_all add: call_contracts)

text \<open>An extension handed to \<open>add_ext_and_free\<close> is released, whatever happens.\<close>

lemma owns_add_ext_and_free:
  assumes "root x \<in> S" and "e = Null \<and> T = S \<or> e \<noteq> Null \<and> root e = e \<and> e \<notin> S \<and> T = insert e S"
  shows "owns T (add_ext_and_free w x e a b) (\<lambda>r S'. S' = S \<and> \<not> panics r)"
  unfolding add_ext_and_free_def using assms
  by (intro ffi_wp) (auto simp: call_contracts)

lemma owns_nconf_ext [ffi_wp]:
  assumes "root x \<in> S" and "\<And>p q. ctx = Some (p, q) \<Longrightarrow> root p \<in> S \<and> root q \<in> S"
    and "\<And>e T. e = Null \<and> T = S \<or> e \<noteq> Null \<and> root e = e \<and> e \<notin> S \<and> T = insert e S \<Longrightarrow> owns T (f e) Q"
  shows "owns S (State_Monad.bind (call_ptr w (X509V3_EXT_nconf_nid ctx n v)) f) Q"
  using assms by (intro owns_call_alloc) (auto simp: call_contracts split: option.splits)

lemma tidy_set_x509_ca_basic_constraints:
  "root x \<in> S \<Longrightarrow> tidy S (set_x509_ca_basic_constraints w x)"
  unfolding tidy_def set_x509_ca_basic_constraints_def
  by (rule owns_nconf_ext) (auto intro: owns_add_ext_and_free)

lemma tidy_set_x509_leaf_basic_constraints:
  "root x \<in> S \<Longrightarrow> tidy S (set_x509_leaf_basic_constraints w x)"
  unfolding tidy_def set_x509_leaf_basic_constraints_def
  by (rule owns_nconf_ext) (auto intro: owns_add_ext_and_free)

lemma tidy_set_x509_key_usage: "root x \<in> S \<Longrightarrow> tidy S (set_x509_key_usage w x)"
  unfolding tidy_def set_x509_key_usage_def
  by (rule owns_nconf_ext) (auto intro: owns_add_ext_and_free)

lemma tidy_set_x509_subject_key_identifier:
  "root x \<in> S \<Longrightarrow> tidy S (set_x509_subject_key_identifier w x)"
  unfolding tidy_def set_x509_subject_key_identifier_def
  by (rule owns_nconf_ext) (auto intro: owns_add_ext_and_free)

lemma eku_value_no_panic [simp]: "\<not> panics (eku_value p)"
  by (cases p) simp_all

lemma tidy_set_x509_extended_key_usage:
  "root x \<in> S \<Longrightarrow> tidy S (set_x509_extended_key_usage w x p)"
  unfolding tidy_def set_x509_extended_key_usage_def
  by (rule tidy_bindE)
    (auto intro!: tidy_liftE owns_case_option owns_return owns_nconf_ext owns_add_ext_and_free)

lemma tidy_set_x509_serial_random: "root x \<in> S \<Longrightarrow> tidy S (set_x509_serial_random w x)"
  unfolding tidy_def set_x509_serial_random_def
  by (intro ffi_wp) (auto simp: call_contracts)

lemma tidy_sign_x509: "root x \<in> S \<Longrightarrow> root k \<in> S \<Longrightarrow> tidy S (sign_x509 w x k)"
  unfolding tidy_def sign_x509_def
  by (intro ffi_wp) (simp_all add: call_contracts)

lemma tidy_x509_to_der: "root x \<in> S \<Longrightarrow> tidy S (x509_to_der w x)"
  unfolding tidy_def x509_to_der_def
  by (intro ffi_wp) (simp_all add: call_contracts)

lemma tidy_set_x509_authority_key_identifier:
  assumes "root x \<in> S"
  shows "tidy S (set_x509_authority_key_identifier w x der)"
  unfolding tidy_def set_x509_authority_key_identifier_def using assms
  by (intro owns_add_ext_and_free ffi_wp) (auto simp: call_contracts)

lemma gives_create_issuer_x509_name: "gives S (create_issuer_x509_name w n) (\<lambda>p. p)"
  unfolding gives_def create_issuer_x509_name_def
  by (intro ffi_wp) (auto simp: call_contracts)

lemma gives_extract_subject_name_from_cert:
  "gives S (extract_subject_name_from_cert w der) (\<lambda>p. p)"
  unfolding gives_def extract_subject_name_from_cert_def
  by (intro ffi_wp) (auto simp: call_contracts)

lemma gives_key_pair_from_bytes: "gives S (key_pair_from_bytes w bs) (\<lambda>p. p)"
  unfolding gives_def key_pair_from_bytes_def
  by (intro ffi_wp) (auto simp: call_contracts)

lemma keeps_key_pair_eq: "root k \<in> S \<Longrightarrow> root l \<in> S \<Longrightarrow> keeps S (key_pair_eq w k l)"
  unfolding keeps_def key_pair_eq_def
  by (intro ffi_wp) (auto simp: call_contracts)

lemma gives_create_ca_keypair:
  "assign_rsa_succeeds w \<Longrightarrow> gives S (create_ca_keypair w) (\<lambda>p. p)"
  unfolding gives_def create_ca_keypair_def
  by (intro owns_assign_rsa ffi_wp) (auto simp: call_contracts)

lemma gives_create_san_extension_from_str:
  "gives S (create_san_extension_from_str w v t) (\<lambda>p. p)"
  unfolding gives_def create_san_extension_from_str_def
  by (intro ffi_wp) (auto simp: call_contracts)

lemma gives_create_san_extension: "gives S (create_san_extension w ca i) (\<lambda>p. p)"
  unfolding create_san_extension_def create_dns_extension_def create_spiffe_extension_def
  by (cases "certificate_profile i") (simp_all add: gives_create_san_extension_from_str)

lemma spiffe_matches_prefix: "m \<in> set (spiffe_matches s) \<Longrightarrow> prefix SPIFFE m"
  by (induction s rule: spiffe_matches.induct) (auto split: if_splits)

lemma graphic_prefix_keeps_SPIFFE: "prefix SPIFFE m \<Longrightarrow> prefix SPIFFE (graphic_prefix m)"
  by (auto simp: prefix_def SPIFFE_def graphic_prefix_def is_ascii_graphic_def)

lemma extract_spiffe_trust_domain_no_panic: "\<not> panics (extract_spiffe_trust_domain bs)"
proof -
  have "prefix SPIFFE (graphic_prefix z)" if "spiffe_matches s = [z]" for z s
    using that spiffe_matches_prefix [of z s] by (simp add: graphic_prefix_keeps_SPIFFE)
  then show ?thesis
    by (auto simp: extract_spiffe_trust_domain_def Let_def split: list.splits)
qed

lemma tidy_extract_trust_domain_from_cert: "tidy S (extract_trust_domain_from_cert w der)"
  unfolding tidy_def extract_trust_domain_from_cert_def
  by (intro ffi_wp) (auto simp: call_contracts extract_spiffe_trust_domain_no_panic)

lemma tidy_create_ca_csr:
  "root k \<in> S \<Longrightarrow> root n \<in> S \<Longrightarrow> tidy S (create_ca_csr w k n)"
  unfolding tidy_def create_ca_csr_def
  by (intro ffi_wp) (auto simp: call_contracts)

lemmas setter_contracts =
  tidy_set_x509_version tidy_set_x509_validity tidy_set_x509_validity_timestamps
  tidy_set_x509_ca_basic_constraints tidy_set_x509_leaf_basic_constraints
  tidy_set_x509_key_usage tidy_set_x509_subject_key_identifier
  tidy_set_x509_extended_key_usage tidy_set_x509_serial_random tidy_sign_x509
  tidy_x509_to_der tidy_set_x509_authority_key_identifier

lemmas setter_wp = setter_contracts [THEN tidy_or_cleanup]

lemma gives_create_ca_x509:
  "root k \<in> S \<Longrightarrow> root n \<in> S \<Longrightarrow> gives S (create_ca_x509 w k n) (\<lambda>p. p)"
  unfolding gives_def create_ca_x509_def
  by (intro ffi_wp setter_wp) (auto simp: call_contracts)

lemma tidy_generate_certificate:
  assumes "root (guarded (issuer_name ca)) \<in> S" and "root (guarded (ca_key ca)) \<in> S"
    and "root (public_key i) \<in> S" and "ca_cert_chain_der ca = d # ds"
  shows "tidy S (generate_certificate w ca i)"
  unfolding tidy_def generate_certificate_def assms(4) list.case
  using assms(1-3)
  by (intro ffi_wp setter_wp gives_or_cleanup [OF gives_create_san_extension])
    (auto simp: call_contracts)

text \<open>
  An authority that the process owns: its key and its name are live objects, neither mutex is
  poisoned, and its chain and trust domain are not empty.
\<close>

definition ca_objects :: "certificate_authority \<Rightarrow> ptr set" where
  "ca_objects ca = {guarded (ca_key ca), guarded (issuer_name ca)}"

definition ca_wf :: "certificate_authority \<Rightarrow> bool" where
  "ca_wf ca \<longleftrightarrow>
     ca_cert_chain_der ca \<noteq> [] \<and> trust_domain ca \<noteq> [] \<and>
     \<not> poisoned (ca_key ca) \<and> \<not> poisoned (issuer_name ca) \<and>
     (\<forall>p \<in> ca_objects ca. p \<noteq> Null \<and> root p = p) \<and>
     guarded (ca_key ca) \<noteq> guarded (issuer_name ca)"

definition gives_ca :: "ptr set \<Rightarrow> (anyhow, certificate_authority) outcome ffi \<Rightarrow> bool" where
  "gives_ca S m \<longleftrightarrow> owns S m (\<lambda>r S'. case r of
      Ok ca \<Rightarrow> ca_wf ca \<and> ca_objects ca \<inter> S = {} \<and> S' = ca_objects ca \<union> S
    | Err e \<Rightarrow> S' = S
    | Panicked s \<Rightarrow> False)"

lemma SELF_SIGNED_TRUST_DOMAIN_nonempty [simp]: "SELF_SIGNED_TRUST_DOMAIN \<noteq> []"
  by (simp add: SELF_SIGNED_TRUST_DOMAIN_def)

lemma gives_ca_new_root:
  assumes "assign_rsa_succeeds w"
  shows "gives_ca S (new_root w)"
  unfolding gives_ca_def new_root_def key_pair_drop_def
  by (intro gives_bindE [OF gives_create_ca_keypair [OF assms]]
      gives_or_cleanup [OF gives_create_issuer_x509_name]
      gives_or_cleanup [OF gives_create_ca_x509] setter_wp ffi_wp)
    (auto simp: call_contracts ca_wf_def ca_objects_def mk_ca_def)

lemma gives_create_key_and_csr:
  assumes "assign_rsa_succeeds w"
  shows "gives S (create_key_and_csr w) fst"
  unfolding gives_def create_key_and_csr_def key_pair_drop_def
  by (intro gives_bindE [OF gives_create_issuer_x509_name]
      gives_or_cleanup [OF gives_create_ca_keypair [OF assms]]
      tidy_or_cleanup [OF tidy_create_ca_csr] ffi_wp)
    (auto simp: call_contracts)

text \<open>A TCA client that answers, with a chain or an error.\<close>

definition tca_answers :: "tca_client \<Rightarrow> bool" where
  "tca_answers tca \<longleftrightarrow> (\<forall>tr csr. \<not> panics (tca tr csr))"

text \<open>
  The trust domain: it is not empty, it holds no slash, and every character is a graphic ASCII one.
\<close>

definition valid_trust_domain :: "string \<Rightarrow> bool" where
  "valid_trust_domain td \<longleftrightarrow>
     td \<noteq> [] \<and> (\<forall>c \<in> set td. is_ascii_graphic (code c) \<and> c \<noteq> CHR ''/'')"

lemma extract_spiffe_trust_domain_valid:
  assumes "extract_spiffe_trust_domain bs = Ok td"
  shows "valid_trust_domain td"
proof -
  from assms obtain z where td: "td = hd (split_on CHR ''/'' (drop (length SPIFFE) (graphic_prefix z)))"
    and ne: "td \<noteq> []"
    by (auto simp: extract_spiffe_trust_domain_def Let_def split: list.splits if_splits)
  then have "td = takeWhile (\<lambda>c. c \<noteq> CHR ''/'') (drop (length SPIFFE) (graphic_prefix z))"
    by (simp add: hd_split_on)
  then have "c \<noteq> CHR ''/'' \<and> c \<in> set (graphic_prefix z)" if "c \<in> set td" for c
    using that by (auto dest: set_takeWhileD in_set_dropD)
  with ne show ?thesis
    by (auto simp: valid_trust_domain_def graphic_prefix_def dest: set_takeWhileD)
qed

lemma owns_extract_trust_domain_from_cert:
  "owns S (extract_trust_domain_from_cert w der)
     (\<lambda>r S'. S' = S \<and> \<not> panics r \<and> (\<forall>td. r = Ok td \<longrightarrow> valid_trust_domain td))"
  unfolding extract_trust_domain_from_cert_def
  by (intro ffi_wp)
    (auto simp: call_contracts extract_spiffe_trust_domain_no_panic extract_spiffe_trust_domain_valid)

lemma or_cleanup_extract_trust_domain:
  assumes "\<And>td. valid_trust_domain td \<Longrightarrow> owns S (f td) Q"
    and "\<And>e. owns S (State_Monad.bind c (\<lambda>_. ret (Err e))) Q"
  shows "owns S (or_cleanup (extract_trust_domain_from_cert w der) c f) Q"
  unfolding or_cleanup_def
  by (rule owns_bind [OF owns_extract_trust_domain_from_cert])
    (auto simp: assms split: outcome.splits)

lemma owns_case_list [ffi_wp]:
  "(xs = [] \<Longrightarrow> owns S m Q) \<Longrightarrow> (\<And>y ys. xs = y # ys \<Longrightarrow> owns S (f y ys) Q) \<Longrightarrow>
     owns S (case xs of [] \<Rightarrow> m | y # ys \<Rightarrow> f y ys) Q"
  by (cases xs) simp_all

text \<open>The key is alive when the answer comes; it ends up in the authority or is freed.\<close>

lemma owns_finish_intermediate:
  assumes "\<not> panics answer" and k: "k \<noteq> Null" "root k = k" "k \<notin> S"
  shows "owns (insert k S) (finish_intermediate w k answer) (\<lambda>r S'. case r of
      Ok ca \<Rightarrow> ca_wf ca \<and> ca_objects ca \<inter> S = {} \<and> S' = ca_objects ca \<union> S
    | Err e \<Rightarrow> S' = S
    | Panicked s \<Rightarrow> False)"
proof -
  have "tidy (insert k S) (liftE (map_err CertErr answer))"
    using assms(1) by (simp add: tidy_def owns_return)
  from k show ?thesis
    unfolding finish_intermediate_def key_pair_drop_def
    by (intro tidy_or_cleanup [OF \<open>tidy _ _\<close>] or_cleanup_extract_trust_domain
        gives_or_cleanup [OF gives_extract_subject_name_from_cert] ffi_wp)
      (auto simp: call_contracts ca_wf_def ca_objects_def mk_ca_def valid_trust_domain_def)
qed

lemma owns_ask_answer: "(\<And>tr. owns S (f (g tr)) Q) \<Longrightarrow> owns S (State_Monad.bind (ask g) f) Q"
  by (simp add: owns_def ask_def)

lemma gives_ca_new_intermediate:
  assumes "assign_rsa_succeeds w" and "tca_answers tca"
  shows "gives_ca S (new_intermediate w tca)"
  unfolding gives_ca_def new_intermediate_def
  using assms(2)
  by (intro gives_bindE [OF gives_create_key_and_csr [OF assms(1)]])
    (auto simp: tca_answers_def intro!: owns_ask_answer owns_finish_intermediate)

lemma owns_drop_certificate_authority:
  assumes "ca_wf ca" and "ca_objects ca \<subseteq> S"
  shows "owns S (drop_certificate_authority ca) (\<lambda>_ S'. S' = S - ca_objects ca)"
proof -
  let ?k = "guarded (ca_key ca)" and ?n = "guarded (issuer_name ca)"
  have "owns S (State_Monad.bind (free X509_NAME ?n) (\<lambda>_. State_Monad.bind (free EVP_PKEY ?k) ret))
     (\<lambda>_ S'. S' = S - ca_objects ca)"
    using assms by (intro ffi_wp) (auto simp: call_contracts ca_wf_def ca_objects_def)
  with assms(1) show ?thesis
    by (simp add: drop_certificate_authority_def key_pair_drop_def ca_wf_def)
qed

end
