(* ===== verification/Policy_Refs.thy ===== *)
theory Policy_Refs
  imports Avs_Proto
begin

text \<open>
  The traversals of \<open>avs_server/policies/pes.rs\<close> and \<open>avs_server/policies/c2sp.rs\<close>: each walks
  a policy's reference values, collects mutable references to the transparency-log fields it finds,
  and writes through them.  A mutable reference is modelled by the place it points to, a
  \<open>slot\<close> of the policy, with the read and the write at that place.

  The locale \<open>field_refs\<close> states what the two traversals have in common: the references are
  pairwise different, each points at a field that is there, and a write changes that field and no
  other.  The effect of the writing loop is proved once from these laws.
\<close>

section \<open>Places in a policy\<close>

datatype slot =
    CbtStage0 | CbtKernel | CbtInitRamFs | CbtRuntimeAgent | CbtRuntimeAgentBinary | CbtUserspace
  | CbtBinaryMpm | CbtBinaryMpms nat
  | OcAmdStage0 | OcTdxStage0 | OcKernel | OcInitRamFs | OcSystemImage | OcBinary | OcConfiguration

text \<open>Reading: the transparency-log values at a place, if every message on the path is present.\<close>

fun endorsed_tlog :: "reference_type \<Rightarrow> tlog_reference_values option" where
  "endorsed_tlog (Endorsement e) = tlog e"
| "endorsed_tlog (OtherReference _) = None"

definition tlog_of_binary :: "binary_reference_value option \<Rightarrow> tlog_reference_values option" where
  "tlog_of_binary b = Option.bind (Option.bind b brv_type) endorsed_tlog"

definition tlog_of_kernel_binary :: "kernel_binary_reference_value option \<Rightarrow> tlog_reference_values option" where
  "tlog_of_kernel_binary b = Option.bind (Option.bind b kbrv_type) endorsed_tlog"

definition tlog_of_mpm :: "mpm_reference_value option \<Rightarrow> tlog_reference_values option" where
  "tlog_of_mpm b = Option.bind (Option.bind b mpm_type) endorsed_tlog"

fun cbt_tlog_at :: "cbt_reference_values \<Rightarrow> slot \<Rightarrow> tlog_reference_values option" where
  "cbt_tlog_at c CbtStage0 =
     tlog_of_binary (Option.bind (Option.bind (cbt_root_layer c) amd_sev) amd_stage0)"
| "cbt_tlog_at c CbtKernel = tlog_of_kernel_binary (Option.bind (cbt_kernel_layer c) kernel)"
| "cbt_tlog_at c CbtInitRamFs = tlog_of_binary (Option.bind (cbt_kernel_layer c) init_ram_fs)"
| "cbt_tlog_at c CbtRuntimeAgent = tlog_of_binary (Option.bind (layer1 c) runtime_agent)"
| "cbt_tlog_at c CbtRuntimeAgentBinary = tlog_of_binary (Option.bind (layer1 c) runtime_agent_binary)"
| "cbt_tlog_at c CbtUserspace = tlog_of_binary (Option.bind (layer1 c) userspace)"
| "cbt_tlog_at c CbtBinaryMpm = tlog_of_mpm (Option.bind (layer2 c) binary_mpm)"
| "cbt_tlog_at c (CbtBinaryMpms i) =
     tlog_of_mpm (Option.bind (layer2 c)
       (\<lambda>l. if i < length (binary_mpms l) then Some (binary_mpms l ! i) else None))"
| "cbt_tlog_at c _ = None"

fun oc_tlog_at :: "oak_containers_reference_values \<Rightarrow> slot \<Rightarrow> tlog_reference_values option" where
  "oc_tlog_at c OcAmdStage0 =
     tlog_of_binary (Option.bind (Option.bind (oc_root_layer c) amd_sev) amd_stage0)"
| "oc_tlog_at c OcTdxStage0 =
     tlog_of_binary (Option.bind (Option.bind (oc_root_layer c) intel_tdx) tdx_stage0)"
| "oc_tlog_at c OcKernel = tlog_of_kernel_binary (Option.bind (oc_kernel_layer c) kernel)"
| "oc_tlog_at c OcInitRamFs = tlog_of_binary (Option.bind (oc_kernel_layer c) init_ram_fs)"
| "oc_tlog_at c OcSystemImage = tlog_of_binary (Option.bind (system_layer c) system_image)"
| "oc_tlog_at c OcBinary = tlog_of_binary (Option.bind (container_layer c) container_binary)"
| "oc_tlog_at c OcConfiguration = tlog_of_binary (Option.bind (container_layer c) configuration)"
| "oc_tlog_at c _ = None"

fun type_tlog_at :: "reference_values_type \<Rightarrow> slot \<Rightarrow> tlog_reference_values option" where
  "type_tlog_at (Cbt c) s = cbt_tlog_at c s"
| "type_tlog_at (OakContainers c) s = oc_tlog_at c s"
| "type_tlog_at (OtherReferenceValues _) s = None"

definition tlog_at :: "policy \<Rightarrow> slot \<Rightarrow> tlog_reference_values option" where
  "tlog_at p s =
     Option.bind (Option.bind (oak_reference_values p) rv_type) (\<lambda>t. type_tlog_at t s)"

text \<open>Writing: the same paths, with the values at the end replaced by their image.\<close>

fun on_endorsed :: "(tlog_reference_values \<Rightarrow> tlog_reference_values) \<Rightarrow> reference_type \<Rightarrow> reference_type" where
  "on_endorsed f (Endorsement e) = Endorsement (e\<lparr>tlog := map_option f (tlog e)\<rparr>)"
| "on_endorsed f (OtherReference bs) = OtherReference bs"

definition on_binary ::
  "(tlog_reference_values \<Rightarrow> tlog_reference_values) \<Rightarrow> binary_reference_value option \<Rightarrow>
     binary_reference_value option" where
  "on_binary f = map_option (\<lambda>b. b\<lparr>brv_type := map_option (on_endorsed f) (brv_type b)\<rparr>)"

definition on_kernel_binary ::
  "(tlog_reference_values \<Rightarrow> tlog_reference_values) \<Rightarrow> kernel_binary_reference_value option \<Rightarrow>
     kernel_binary_reference_value option" where
  "on_kernel_binary f = map_option (\<lambda>b. b\<lparr>kbrv_type := map_option (on_endorsed f) (kbrv_type b)\<rparr>)"

definition on_mpm ::
  "(tlog_reference_values \<Rightarrow> tlog_reference_values) \<Rightarrow> mpm_reference_value \<Rightarrow> mpm_reference_value" where
  "on_mpm f b = b\<lparr>mpm_type := map_option (on_endorsed f) (mpm_type b)\<rparr>"

fun cbt_modify ::
  "slot \<Rightarrow> (tlog_reference_values \<Rightarrow> tlog_reference_values) \<Rightarrow> cbt_reference_values \<Rightarrow>
     cbt_reference_values" where
  "cbt_modify CbtStage0 f c = cbt_root_layer_update
     (map_option (amd_sev_update (map_option (amd_stage0_update (on_binary f))))) c"
| "cbt_modify CbtKernel f c =
     cbt_kernel_layer_update (map_option (kernel_update (on_kernel_binary f))) c"
| "cbt_modify CbtInitRamFs f c =
     cbt_kernel_layer_update (map_option (init_ram_fs_update (on_binary f))) c"
| "cbt_modify CbtRuntimeAgent f c =
     layer1_update (map_option (runtime_agent_update (on_binary f))) c"
| "cbt_modify CbtRuntimeAgentBinary f c =
     layer1_update (map_option (runtime_agent_binary_update (on_binary f))) c"
| "cbt_modify CbtUserspace f c = layer1_update (map_option (userspace_update (on_binary f))) c"
| "cbt_modify CbtBinaryMpm f c =
     layer2_update (map_option (binary_mpm_update (map_option (on_mpm f)))) c"
| "cbt_modify (CbtBinaryMpms i) f c =
     layer2_update (map_option (binary_mpms_update (\<lambda>ms. ms[i := on_mpm f (ms ! i)]))) c"
| "cbt_modify _ f c = c"

fun oc_modify ::
  "slot \<Rightarrow> (tlog_reference_values \<Rightarrow> tlog_reference_values) \<Rightarrow> oak_containers_reference_values \<Rightarrow>
     oak_containers_reference_values" where
  "oc_modify OcAmdStage0 f c = oc_root_layer_update
     (map_option (amd_sev_update (map_option (amd_stage0_update (on_binary f))))) c"
| "oc_modify OcTdxStage0 f c = oc_root_layer_update
     (map_option (intel_tdx_update (map_option (tdx_stage0_update (on_binary f))))) c"
| "oc_modify OcKernel f c =
     oc_kernel_layer_update (map_option (kernel_update (on_kernel_binary f))) c"
| "oc_modify OcInitRamFs f c =
     oc_kernel_layer_update (map_option (init_ram_fs_update (on_binary f))) c"
| "oc_modify OcSystemImage f c =
     system_layer_update (map_option (system_image_update (on_binary f))) c"
| "oc_modify OcBinary f c =
     container_layer_update (map_option (container_binary_update (on_binary f))) c"
| "oc_modify OcConfiguration f c =
     container_layer_update (map_option (configuration_update (on_binary f))) c"
| "oc_modify _ f c = c"

fun type_modify ::
  "slot \<Rightarrow> (tlog_reference_values \<Rightarrow> tlog_reference_values) \<Rightarrow> reference_values_type \<Rightarrow>
     reference_values_type" where
  "type_modify s f (Cbt c) = Cbt (cbt_modify s f c)"
| "type_modify s f (OakContainers c) = OakContainers (oc_modify s f c)"
| "type_modify s f (OtherReferenceValues bs) = OtherReferenceValues bs"

definition modify_tlog ::
  "slot \<Rightarrow> (tlog_reference_values \<Rightarrow> tlog_reference_values) \<Rightarrow> policy \<Rightarrow> policy" where
  "modify_tlog s f p =
     oak_reference_values_update (map_option (rv_type_update (map_option (type_modify s f)))) p"

lemma endorsed_tlog_on: "endorsed_tlog (on_endorsed f t) = map_option f (endorsed_tlog t)"
  by (cases t) simp_all

lemma bind_map_option: "Option.bind (map_option g x) h = Option.bind x (\<lambda>y. h (g y))"
  by (cases x) simp_all

lemma map_option_bind: "map_option f (Option.bind x g) = Option.bind x (\<lambda>y. map_option f (g y))"
  by (cases x) simp_all

lemma tlog_of_on:
  "tlog_of_binary (on_binary f b) = map_option f (tlog_of_binary b)"
  "tlog_of_kernel_binary (on_kernel_binary f k) = map_option f (tlog_of_kernel_binary k)"
  "tlog_of_mpm (map_option (on_mpm f) m) = map_option f (tlog_of_mpm m)"
  by (cases b; cases k; cases m;
      simp add: tlog_of_binary_def on_binary_def tlog_of_kernel_binary_def on_kernel_binary_def
        tlog_of_mpm_def on_mpm_def bind_map_option map_option_bind endorsed_tlog_on)+

lemma bind_on:
  "Option.bind x (\<lambda>y. on_binary f (g y)) = on_binary f (Option.bind x g)"
  "Option.bind x (\<lambda>y. on_kernel_binary f (h y)) = on_kernel_binary f (Option.bind x h)"
  "Option.bind x (\<lambda>y. map_option (on_mpm f) (k y)) = map_option (on_mpm f) (Option.bind x k)"
  by (cases x; simp add: on_binary_def on_kernel_binary_def)+

lemma nth_list_update_option:
  "(if i < length ms then Some (ms[j := f (ms ! j)] ! i) else None) =
     (if j = i then map_option f (if i < length ms then Some (ms ! i) else None)
      else if i < length ms then Some (ms ! i) else None)"
  by simp

lemmas slot_simps = bind_map_option bind_on tlog_of_on

lemma cbt_tlog_at_modify:
  "cbt_tlog_at (cbt_modify s f c) t =
     (if s = t then map_option f (cbt_tlog_at c t) else cbt_tlog_at c t)"
  by (cases s; cases t; simp add: slot_simps nth_list_update_option cong: if_cong)

lemma oc_tlog_at_modify:
  "oc_tlog_at (oc_modify s f c) t =
     (if s = t then map_option f (oc_tlog_at c t) else oc_tlog_at c t)"
  by (cases s; cases t; simp add: slot_simps)

lemma type_tlog_at_modify:
  "type_tlog_at (type_modify s f r) t =
     (if s = t then map_option f (type_tlog_at r t) else type_tlog_at r t)"
  by (cases r) (simp_all add: cbt_tlog_at_modify oc_tlog_at_modify)

lemma tlog_at_modify_tlog:
  "tlog_at (modify_tlog s f p) t = (if s = t then map_option f (tlog_at p t) else tlog_at p t)"
  by (simp add: tlog_at_def modify_tlog_def bind_map_option type_tlog_at_modify map_option_bind)

section \<open>The references to the PES fields\<close>

text \<open>\<open>Vec::extend\<close> with an optional reference.\<close>

fun refer :: "slot \<Rightarrow> 'v option \<Rightarrow> slot list" where
  "refer s None = []"
| "refer s (Some _) = [s]"

definition get_pes_from_binary_reference_value ::
  "binary_reference_value option \<Rightarrow> pes_reference_value option" where
  "get_pes_from_binary_reference_value b = Option.bind (tlog_of_binary b) pes"

definition get_pes_from_kernel_binary_reference_value ::
  "kernel_binary_reference_value option \<Rightarrow> pes_reference_value option" where
  "get_pes_from_kernel_binary_reference_value b = Option.bind (tlog_of_kernel_binary b) pes"

definition get_pes_from_single_mpm_reference_value ::
  "mpm_reference_value \<Rightarrow> pes_reference_value option" where
  "get_pes_from_single_mpm_reference_value m = Option.bind (tlog_of_mpm (Some m)) pes"

definition get_pes_from_mpm_reference_value ::
  "mpm_reference_value option \<Rightarrow> pes_reference_value option" where
  "get_pes_from_mpm_reference_value m =
     Option.bind m get_pes_from_single_mpm_reference_value"

definition get_pes_fields_from_cbt :: "cbt_reference_values \<Rightarrow> slot list" where
  "get_pes_fields_from_cbt c =
     refer CbtStage0 (Option.bind (Option.bind (cbt_root_layer c) amd_sev)
       (\<lambda>a. get_pes_from_binary_reference_value (amd_stage0 a)))
     @ (case cbt_kernel_layer c of None \<Rightarrow> [] | Some k \<Rightarrow>
          refer CbtKernel (get_pes_from_kernel_binary_reference_value (kernel k))
          @ refer CbtInitRamFs (get_pes_from_binary_reference_value (init_ram_fs k)))
     @ (case layer1 c of None \<Rightarrow> [] | Some l1 \<Rightarrow>
          refer CbtRuntimeAgent (get_pes_from_binary_reference_value (runtime_agent l1))
          @ refer CbtRuntimeAgentBinary (get_pes_from_binary_reference_value (runtime_agent_binary l1))
          @ refer CbtUserspace (get_pes_from_binary_reference_value (userspace l1)))
     @ (case layer2 c of None \<Rightarrow> [] | Some l2 \<Rightarrow>
          refer CbtBinaryMpm (get_pes_from_mpm_reference_value (binary_mpm l2))
          @ concat (map (\<lambda>(i, mpm). refer (CbtBinaryMpms i) (get_pes_from_single_mpm_reference_value mpm))
              (enumerate 0 (binary_mpms l2))))"

definition get_pes_fields_from_oak_containers :: "oak_containers_reference_values \<Rightarrow> slot list" where
  "get_pes_fields_from_oak_containers c =
     (case oc_root_layer c of None \<Rightarrow> [] | Some r \<Rightarrow>
        (case amd_sev r of None \<Rightarrow> [] | Some a \<Rightarrow>
           refer OcAmdStage0 (get_pes_from_binary_reference_value (amd_stage0 a)))
        @ (case intel_tdx r of None \<Rightarrow> [] | Some t \<Rightarrow>
           refer OcTdxStage0 (get_pes_from_binary_reference_value (tdx_stage0 t))))
     @ (case oc_kernel_layer c of None \<Rightarrow> [] | Some k \<Rightarrow>
          refer OcKernel (get_pes_from_kernel_binary_reference_value (kernel k))
          @ refer OcInitRamFs (get_pes_from_binary_reference_value (init_ram_fs k)))
     @ (case system_layer c of None \<Rightarrow> [] | Some s \<Rightarrow>
          refer OcSystemImage (get_pes_from_binary_reference_value (system_image s)))
     @ (case container_layer c of None \<Rightarrow> [] | Some l \<Rightarrow>
          refer OcBinary (get_pes_from_binary_reference_value (container_binary l))
          @ refer OcConfiguration (get_pes_from_binary_reference_value (configuration l)))"

definition get_pes_fields :: "policy \<Rightarrow> slot list" where
  "get_pes_fields p =
     (case oak_reference_values p of
        None \<Rightarrow> []
      | Some rvs \<Rightarrow>
          (case rv_type rvs of
             Some (Cbt c) \<Rightarrow> get_pes_fields_from_cbt c
           | Some (OakContainers c) \<Rightarrow> get_pes_fields_from_oak_containers c
           | _ \<Rightarrow> []))"

section \<open>The references to the C2SP fields\<close>

definition get_c2sp_from_binary_reference_value ::
  "binary_reference_value option \<Rightarrow> c2sp_reference_value option" where
  "get_c2sp_from_binary_reference_value b = Option.bind (tlog_of_binary b) c2sp"

definition get_c2sp_from_kernel_binary_reference_value ::
  "kernel_binary_reference_value option \<Rightarrow> c2sp_reference_value option" where
  "get_c2sp_from_kernel_binary_reference_value b = Option.bind (tlog_of_kernel_binary b) c2sp"

definition get_c2sp_from_single_mpm_reference_value ::
  "mpm_reference_value \<Rightarrow> c2sp_reference_value option" where
  "get_c2sp_from_single_mpm_reference_value m = Option.bind (tlog_of_mpm (Some m)) c2sp"

definition get_c2sp_from_mpm_reference_value ::
  "mpm_reference_value option \<Rightarrow> c2sp_reference_value option" where
  "get_c2sp_from_mpm_reference_value m =
     Option.bind m get_c2sp_from_single_mpm_reference_value"

definition get_c2sp_fields_from_cbt :: "cbt_reference_values \<Rightarrow> slot list" where
  "get_c2sp_fields_from_cbt c =
     refer CbtStage0 (Option.bind (Option.bind (cbt_root_layer c) amd_sev)
       (\<lambda>a. get_c2sp_from_binary_reference_value (amd_stage0 a)))
     @ (case cbt_kernel_layer c of None \<Rightarrow> [] | Some k \<Rightarrow>
          refer CbtKernel (get_c2sp_from_kernel_binary_reference_value (kernel k))
          @ refer CbtInitRamFs (get_c2sp_from_binary_reference_value (init_ram_fs k)))
     @ (case layer1 c of None \<Rightarrow> [] | Some l1 \<Rightarrow>
          refer CbtRuntimeAgentBinary (get_c2sp_from_binary_reference_value (runtime_agent_binary l1))
          @ refer CbtUserspace (get_c2sp_from_binary_reference_value (userspace l1)))
     @ (case layer2 c of None \<Rightarrow> [] | Some l2 \<Rightarrow>
          refer CbtBinaryMpm (get_c2sp_from_mpm_reference_value (binary_mpm l2))
          @ concat (map (\<lambda>(i, mpm). refer (CbtBinaryMpms i) (get_c2sp_from_single_mpm_reference_value mpm))
              (enumerate 0 (binary_mpms l2))))"

definition get_c2sp_fields_from_oak_containers :: "oak_containers_reference_values \<Rightarrow> slot list" where
  "get_c2sp_fields_from_oak_containers c =
     (case oc_root_layer c of None \<Rightarrow> [] | Some r \<Rightarrow>
        (case amd_sev r of None \<Rightarrow> [] | Some a \<Rightarrow>
           refer OcAmdStage0 (get_c2sp_from_binary_reference_value (amd_stage0 a)))
        @ (case intel_tdx r of None \<Rightarrow> [] | Some t \<Rightarrow>
           refer OcTdxStage0 (get_c2sp_from_binary_reference_value (tdx_stage0 t))))
     @ (case oc_kernel_layer c of None \<Rightarrow> [] | Some k \<Rightarrow>
          refer OcKernel (get_c2sp_from_kernel_binary_reference_value (kernel k))
          @ refer OcInitRamFs (get_c2sp_from_binary_reference_value (init_ram_fs k)))
     @ (case system_layer c of None \<Rightarrow> [] | Some s \<Rightarrow>
          refer OcSystemImage (get_c2sp_from_binary_reference_value (system_image s)))
     @ (case container_layer c of None \<Rightarrow> [] | Some l \<Rightarrow>
          refer OcBinary (get_c2sp_from_binary_reference_value (container_binary l))
          @ refer OcConfiguration (get_c2sp_from_binary_reference_value (configuration l)))"

definition get_c2sp_fields :: "policy \<Rightarrow> slot list" where
  "get_c2sp_fields p =
     (case oak_reference_values p of
        None \<Rightarrow> []
      | Some rvs \<Rightarrow>
          (case rv_type rvs of
             Some (Cbt c) \<Rightarrow> get_c2sp_fields_from_cbt c
           | Some (OakContainers c) \<Rightarrow> get_c2sp_fields_from_oak_containers c
           | _ \<Rightarrow> []))"

section \<open>Writing through the references\<close>

definition pes_at :: "policy \<Rightarrow> slot \<Rightarrow> pes_reference_value option" where
  "pes_at p s = Option.bind (tlog_at p s) pes"

definition modify_pes :: "slot \<Rightarrow> (pes_reference_value \<Rightarrow> pes_reference_value) \<Rightarrow> policy \<Rightarrow> policy" where
  "modify_pes s f = modify_tlog s (pes_update (map_option f))"

definition c2sp_at :: "policy \<Rightarrow> slot \<Rightarrow> c2sp_reference_value option" where
  "c2sp_at p s = Option.bind (tlog_at p s) c2sp"

definition modify_c2sp :: "slot \<Rightarrow> (c2sp_reference_value \<Rightarrow> c2sp_reference_value) \<Rightarrow> policy \<Rightarrow> policy" where
  "modify_c2sp s f = modify_tlog s (c2sp_update (map_option f))"

text \<open>The loops of \<open>inject_pes_keys\<close> and \<open>inject_c2sp_policy\<close>.\<close>

definition write_pes_key_set :: "verifying_key_set \<Rightarrow> policy \<Rightarrow> policy" where
  "write_pes_key_set ks p =
     fold (\<lambda>s. modify_pes s (\<lambda>v. v\<lparr>key_set := Some ks\<rparr>)) (get_pes_fields p) p"

definition inject_c2sp_policy :: "policy \<Rightarrow> string \<Rightarrow> (anyhow, policy) outcome" where
  "inject_c2sp_policy p text =
     Ok (fold (\<lambda>s. modify_c2sp s (\<lambda>v. v\<lparr>c2sp_policy := text\<rparr>)) (get_c2sp_fields p) p)"

locale field_refs =
  fixes refs :: "'p \<Rightarrow> 'r list"
    and deref :: "'p \<Rightarrow> 'r \<Rightarrow> 'v option"
    and modify :: "'r \<Rightarrow> ('v \<Rightarrow> 'v) \<Rightarrow> 'p \<Rightarrow> 'p"
  assumes refs_distinct: "distinct (refs p)"
    and refs_present: "r \<in> set (refs p) \<Longrightarrow> deref p r \<noteq> None"
    and deref_modify: "deref (modify r f p) s = (if r = s then map_option f (deref p s) else deref p s)"
    and refs_determined:
      "(\<And>s. deref p s = None \<longleftrightarrow> deref q s = None) \<Longrightarrow> set (refs p) = set (refs q)"
begin

lemma deref_write:
  "distinct rs \<Longrightarrow> deref (fold (\<lambda>r. modify r f) rs p) s =
     (if s \<in> set rs then map_option f (deref p s) else deref p s)"
proof (induction rs arbitrary: p)
  case Nil
  then show ?case by simp
next
  case (Cons r rs)
  then show ?case by (auto simp: deref_modify)
qed

lemma deref_write_refs:
  "deref (fold (\<lambda>r. modify r f) (refs p) p) s =
     (if s \<in> set (refs p) then map_option f (deref p s) else deref p s)"
  by (rule deref_write) (rule refs_distinct)

lemma refs_write_refs: "set (refs (fold (\<lambda>r. modify r f) (refs p) p)) = set (refs p)"
  by (rule refs_determined) (auto simp: deref_write_refs)

lemma write_all_fields:
  "s \<in> set (refs p) \<Longrightarrow> \<exists>v. deref p s = Some v \<and> deref (fold (\<lambda>r. modify r f) (refs p) p) s = Some (f v)"
  using refs_present [of s p] by (cases "deref p s") (auto simp: deref_write_refs)

end

section \<open>The traversals satisfy the contract\<close>

lemma in_refer: "s \<in> set (refer t v) \<longleftrightarrow> s = t \<and> v \<noteq> None"
  by (cases v) simp_all

lemma ex_nat_split: "(\<exists>i. P i) \<longleftrightarrow> P 0 \<or> (\<exists>i. P (Suc i))"
  by (metis not0_implies_Suc)

lemma distinct_refer [simp]: "distinct (refer s v)"
  by (cases v) simp_all

lemma in_mpm_refs_from:
  "s \<in> set (concat (map (\<lambda>(i, m). refer (CbtBinaryMpms i) (g m)) (enumerate n ms))) \<longleftrightarrow>
     (\<exists>i. s = CbtBinaryMpms (n + i) \<and> i < length ms \<and> g (ms ! i) \<noteq> None)"
proof (induction ms arbitrary: n)
  case Nil
  then show ?case by simp
next
  case (Cons m ms)
  have "(\<exists>i. s = CbtBinaryMpms (n + i) \<and> i < length (m # ms) \<and> g ((m # ms) ! i) \<noteq> None) \<longleftrightarrow>
      s = CbtBinaryMpms n \<and> g m \<noteq> None \<or>
      (\<exists>i. s = CbtBinaryMpms (Suc n + i) \<and> i < length ms \<and> g (ms ! i) \<noteq> None)"
    by (subst ex_nat_split) simp
  then show ?case
    by (simp add: Cons.IH in_refer del: set_concat)
qed

lemmas in_mpm_refs = in_mpm_refs_from [where n = 0, unfolded add_0]

lemma distinct_mpm_refs:
  "distinct (concat (map (\<lambda>(i, m). refer (CbtBinaryMpms i) (g m)) (enumerate n ms)))"
proof (induction ms arbitrary: n)
  case Nil
  then show ?case by simp
next
  case (Cons m ms)
  have "\<forall>s \<in> set (refer (CbtBinaryMpms n) (g m)).
      s \<notin> set (concat (map (\<lambda>(i, m). refer (CbtBinaryMpms i) (g m)) (enumerate (Suc n) ms)))"
    by (simp only: in_mpm_refs_from) (simp add: in_refer Ball_def)
  then show ?case
    using Cons.IH [of "Suc n"] by (simp add: disjoint_iff del: set_concat)
qed

lemma distinct_layer_refs:
  "distinct (case x of None \<Rightarrow> [] | Some y \<Rightarrow> f y) \<longleftrightarrow> (\<forall>y. x = Some y \<longrightarrow> distinct (f y))"
  by (cases x) simp_all

lemmas pes_getters = get_pes_from_binary_reference_value_def
  get_pes_from_kernel_binary_reference_value_def get_pes_from_single_mpm_reference_value_def
  get_pes_from_mpm_reference_value_def

lemmas c2sp_getters = get_c2sp_from_binary_reference_value_def
  get_c2sp_from_kernel_binary_reference_value_def get_c2sp_from_single_mpm_reference_value_def
  get_c2sp_from_mpm_reference_value_def

text \<open>A path through optional messages is walked the same way by a read and by a traversal.\<close>

lemma tlog_of_bind:
  "tlog_of_binary (Option.bind x g) = Option.bind x (\<lambda>y. tlog_of_binary (g y))"
  "tlog_of_kernel_binary (Option.bind x h) = Option.bind x (\<lambda>y. tlog_of_kernel_binary (h y))"
  "tlog_of_mpm (Option.bind x k) = Option.bind x (\<lambda>y. tlog_of_mpm (k y))"
  by (cases x; simp add: tlog_of_binary_def tlog_of_kernel_binary_def tlog_of_mpm_def)+

lemma tlog_of_mpm_nth:
  "tlog_of_mpm (if b then Some y else None) = (if b then tlog_of_mpm (Some y) else None)"
  by (simp add: tlog_of_mpm_def)

lemma bind_present: "Option.bind x f \<noteq> None \<longleftrightarrow> (\<exists>y. x = Some y \<and> f y \<noteq> None)"
  by (cases x) simp_all

lemma in_layer_refs:
  "s \<in> set (case x of None \<Rightarrow> [] | Some y \<Rightarrow> f y) \<longleftrightarrow> (\<exists>y. x = Some y \<and> s \<in> set (f y))"
  by (cases x) simp_all

lemmas path_simps = tlog_of_bind tlog_of_mpm_nth bind_present in_layer_refs in_refer in_mpm_refs

lemma pes_fields_from_oak_containers_iff:
  "s \<in> set (get_pes_fields_from_oak_containers c) \<longleftrightarrow> Option.bind (oc_tlog_at c s) pes \<noteq> None"
  unfolding get_pes_fields_from_oak_containers_def set_append Un_iff path_simps pes_getters
  by (cases s; simp add: path_simps bind_eq_Some_conv del: not_None_eq; blast?)

lemma pes_fields_from_cbt_iff:
  "s \<in> set (get_pes_fields_from_cbt c) \<longleftrightarrow> Option.bind (cbt_tlog_at c s) pes \<noteq> None"
  unfolding get_pes_fields_from_cbt_def set_append Un_iff path_simps pes_getters
  by (cases s; simp add: path_simps bind_eq_Some_conv tlog_of_mpm_def del: not_None_eq; blast?)

lemma c2sp_fields_from_oak_containers_iff:
  "s \<in> set (get_c2sp_fields_from_oak_containers c) \<longleftrightarrow> Option.bind (oc_tlog_at c s) c2sp \<noteq> None"
  unfolding get_c2sp_fields_from_oak_containers_def set_append Un_iff path_simps c2sp_getters
  by (cases s; simp add: path_simps bind_eq_Some_conv del: not_None_eq; blast?)

lemma c2sp_fields_from_cbt_iff:
  "s \<in> set (get_c2sp_fields_from_cbt c) \<longleftrightarrow>
     Option.bind (cbt_tlog_at c s) c2sp \<noteq> None \<and> s \<noteq> CbtRuntimeAgent"
  unfolding get_c2sp_fields_from_cbt_def set_append Un_iff path_simps c2sp_getters
  by (cases s; simp add: path_simps bind_eq_Some_conv tlog_of_mpm_def del: not_None_eq; blast?)


lemma distinct_pes_fields: "distinct (get_pes_fields p)"
proof -
  have "distinct (get_pes_fields_from_cbt c)" for c
    unfolding get_pes_fields_from_cbt_def distinct_append disjoint_iff set_append Un_iff
      distinct_layer_refs in_layer_refs in_refer in_mpm_refs
    by (auto simp: distinct_mpm_refs simp del: set_concat)
  moreover have "distinct (get_pes_fields_from_oak_containers c)" for c
    unfolding get_pes_fields_from_oak_containers_def distinct_append disjoint_iff set_append Un_iff
      distinct_layer_refs in_layer_refs in_refer
    by auto
  ultimately show ?thesis
    by (simp add: get_pes_fields_def split: option.split reference_values_type.split)
qed

lemma distinct_c2sp_fields: "distinct (get_c2sp_fields p)"
proof -
  have "distinct (get_c2sp_fields_from_cbt c)" for c
    unfolding get_c2sp_fields_from_cbt_def distinct_append disjoint_iff set_append Un_iff
      distinct_layer_refs in_layer_refs in_refer in_mpm_refs
    by (auto simp: distinct_mpm_refs simp del: set_concat)
  moreover have "distinct (get_c2sp_fields_from_oak_containers c)" for c
    unfolding get_c2sp_fields_from_oak_containers_def distinct_append disjoint_iff set_append Un_iff
      distinct_layer_refs in_layer_refs in_refer
    by auto
  ultimately show ?thesis
    by (simp add: get_c2sp_fields_def split: option.split reference_values_type.split)
qed

lemma policy_type_cases:
  obtains (none) "oak_reference_values p = None"
  | (untyped) r where "oak_reference_values p = Some r" "rv_type r = None"
  | (cbt) r c where "oak_reference_values p = Some r" "rv_type r = Some (Cbt c)"
  | (oak_containers) r c where "oak_reference_values p = Some r" "rv_type r = Some (OakContainers c)"
  | (other) r bs where "oak_reference_values p = Some r" "rv_type r = Some (OtherReferenceValues bs)"
  by (metis not_None_eq reference_values_type.exhaust)

lemma in_pes_fields: "s \<in> set (get_pes_fields p) \<longleftrightarrow> pes_at p s \<noteq> None"
  by (cases p rule: policy_type_cases)
    (simp_all add: get_pes_fields_def pes_at_def tlog_at_def pes_fields_from_cbt_iff
      pes_fields_from_oak_containers_iff del: not_None_eq)

text \<open>The runtime agent of layer 1 is the one place the C2SP traversal does not visit.\<close>

lemma in_c2sp_fields:
  "s \<in> set (get_c2sp_fields p) \<longleftrightarrow> c2sp_at p s \<noteq> None \<and> s \<noteq> CbtRuntimeAgent"
  by (cases p rule: policy_type_cases; cases "s = CbtRuntimeAgent")
    (simp_all add: get_c2sp_fields_def c2sp_at_def tlog_at_def c2sp_fields_from_cbt_iff
      c2sp_fields_from_oak_containers_iff del: not_None_eq)

interpretation pes_refs: field_refs get_pes_fields pes_at modify_pes
proof
  show "pes_at (modify_pes r f p) s = (if r = s then map_option f (pes_at p s) else pes_at p s)"
    for r f p s
    by (simp add: pes_at_def modify_pes_def tlog_at_modify_tlog bind_map_option map_option_bind)
qed (auto simp: distinct_pes_fields in_pes_fields simp del: not_None_eq)

interpretation c2sp_refs: field_refs get_c2sp_fields c2sp_at modify_c2sp
proof
  show "c2sp_at (modify_c2sp r f p) s = (if r = s then map_option f (c2sp_at p s) else c2sp_at p s)"
    for r f p s
    by (simp add: c2sp_at_def modify_c2sp_def tlog_at_modify_tlog bind_map_option map_option_bind)
qed (auto simp: distinct_c2sp_fields in_c2sp_fields simp del: not_None_eq)

end
