(* ===== verification/Policy_Map.thy ===== *)
theory Policy_Map
  imports Policy_Refs
begin

text \<open>
  The writing loops of \<open>pes.rs\<close> and \<open>c2sp.rs\<close>, which collect mutable references and write through them,
  are shown equal to a map over the structure of the policy.
\<close>

section \<open>The writing loops are structural maps\<close>

text \<open>
  The reference definition of a writing loop: map a function over every transparency-log field of a
  policy, by its structure and with no references.  The C2SP loop spares the runtime agent.
\<close>

definition root_map ::
  "(tlog_reference_values \<Rightarrow> tlog_reference_values) \<Rightarrow> root_layer_reference_values \<Rightarrow>
     root_layer_reference_values" where
  "root_map f = amd_sev_update (map_option (amd_stage0_update (on_binary f)))"

definition kernel_layer_map ::
  "(tlog_reference_values \<Rightarrow> tlog_reference_values) \<Rightarrow> kernel_layer_reference_values \<Rightarrow>
     kernel_layer_reference_values" where
  "kernel_layer_map f = (\<lambda>k. kernel_update (on_kernel_binary f) (init_ram_fs_update (on_binary f) k))"

definition cbt_map ::
  "bool \<Rightarrow> (tlog_reference_values \<Rightarrow> tlog_reference_values) \<Rightarrow> cbt_reference_values \<Rightarrow>
     cbt_reference_values" where
  "cbt_map agent f c =
     cbt_root_layer_update (map_option (root_map f))
     (cbt_kernel_layer_update (map_option (kernel_layer_map f))
     (layer1_update (map_option (\<lambda>l.
        runtime_agent_update (if agent then on_binary f else id)
        (runtime_agent_binary_update (on_binary f) (userspace_update (on_binary f) l))))
     (layer2_update (map_option (\<lambda>l.
        binary_mpm_update (map_option (on_mpm f)) (binary_mpms_update (map (on_mpm f)) l))) c)))"

definition oc_map ::
  "(tlog_reference_values \<Rightarrow> tlog_reference_values) \<Rightarrow> oak_containers_reference_values \<Rightarrow>
     oak_containers_reference_values" where
  "oc_map f c =
     oc_root_layer_update (map_option (\<lambda>r.
       root_map f (intel_tdx_update (map_option (tdx_stage0_update (on_binary f))) r)))
     (oc_kernel_layer_update (map_option (kernel_layer_map f))
     (system_layer_update (map_option (system_image_update (on_binary f)))
     (container_layer_update (map_option (\<lambda>l.
        container_binary_update (on_binary f) (configuration_update (on_binary f) l))) c)))"

fun type_map ::
  "bool \<Rightarrow> (tlog_reference_values \<Rightarrow> tlog_reference_values) \<Rightarrow> reference_values_type \<Rightarrow>
     reference_values_type" where
  "type_map agent f (Cbt c) = Cbt (cbt_map agent f c)"
| "type_map agent f (OakContainers c) = OakContainers (oc_map f c)"
| "type_map agent f (OtherReferenceValues bs) = OtherReferenceValues bs"

definition policy_map ::
  "bool \<Rightarrow> (tlog_reference_values \<Rightarrow> tlog_reference_values) \<Rightarrow> policy \<Rightarrow> policy" where
  "policy_map agent f p =
     oak_reference_values_update (map_option (rv_type_update (map_option (type_map agent f)))) p"

text \<open>Every place of a policy, in the order the traversals visit them.\<close>

definition cbt_slots :: "bool \<Rightarrow> cbt_reference_values \<Rightarrow> slot list" where
  "cbt_slots agent c =
     [CbtStage0, CbtKernel, CbtInitRamFs] @ (if agent then [CbtRuntimeAgent] else [])
     @ [CbtRuntimeAgentBinary, CbtUserspace, CbtBinaryMpm]
     @ map CbtBinaryMpms [0 ..< (case layer2 c of None \<Rightarrow> 0 | Some l \<Rightarrow> length (binary_mpms l))]"

definition oc_slots :: "slot list" where
  "oc_slots = [OcAmdStage0, OcTdxStage0, OcKernel, OcInitRamFs, OcSystemImage, OcBinary, OcConfiguration]"

lemma refer_filter: "refer s v = filter (\<lambda>_. v \<noteq> None) [s]"
  by (cases v) simp_all

lemma fold_list_update:
  "fold (\<lambda>i xs. xs[i := h (xs ! i)]) [0 ..< length xs] xs = map h xs"
proof -
  have "n \<le> length xs \<Longrightarrow>
      fold (\<lambda>i xs. xs[i := h (xs ! i)]) [0 ..< n] xs = map h (take n xs) @ drop n xs" for n
  proof (induction n)
    case 0
    then show ?case by simp
  next
    case (Suc n)
    then have "drop n xs = xs ! n # drop (Suc n) xs"
      by (simp add: Cons_nth_drop_Suc)
    with Suc show ?case
      by (simp add: take_Suc_conv_app_nth nth_append list_update_append)
  qed
  from this [of "length xs"] show ?thesis by simp
qed

lemma fold_cbt_mpms:
  "layer2 c = Some l \<Longrightarrow>
    fold (\<lambda>s. cbt_modify s f) (map CbtBinaryMpms is) c =
      c\<lparr>layer2 := Some (l\<lparr>binary_mpms := fold (\<lambda>i xs. xs[i := on_mpm f (xs ! i)]) is (binary_mpms l)\<rparr>)\<rparr>"
proof (induction "is" arbitrary: c l)
  case Nil
  then show ?case by (cases c; cases l) simp
next
  case (Cons i "is")
  then show ?case by simp
qed

lemmas structural_maps = cbt_map_def oc_map_def root_map_def kernel_layer_map_def

lemma layer_update_fuse:
  "init_ram_fs_update g (kernel_update h k) = kernel_update h (init_ram_fs_update g k)"
  "intel_tdx_update i (amd_sev_update j r) = amd_sev_update j (intel_tdx_update i r)"
  "userspace_update u (runtime_agent_update a l) = runtime_agent_update a (userspace_update u l)"
  "runtime_agent_binary_update b (runtime_agent_update a l) =
     runtime_agent_update a (runtime_agent_binary_update b l)"
  "userspace_update u (runtime_agent_binary_update b l) =
     runtime_agent_binary_update b (userspace_update u l)"
  "runtime_agent_update id l = l"
  "configuration_update d (container_binary_update e m) =
     container_binary_update e (configuration_update d m)"
  by (cases k; cases r; cases l; cases m; simp)+

lemma fold_cbt_slots: "fold (\<lambda>s. cbt_modify s f) (cbt_slots agent c) c = cbt_map agent f c"
proof (cases "layer2 c")
  case None
  then show ?thesis
    by (cases c) (simp add: cbt_slots_def structural_maps layer_update_fuse option.map_comp comp_def)
next
  case (Some l)
  then show ?thesis
    by (cases c; cases l)
      (simp add: cbt_slots_def structural_maps layer_update_fuse option.map_comp comp_def fold_cbt_mpms
        fold_list_update)
qed

lemma fold_oc_slots: "fold (\<lambda>s. oc_modify s f) oc_slots c = oc_map f c"
  by (cases c) (simp add: oc_slots_def structural_maps layer_update_fuse option.map_comp comp_def)


lemma fold_modify_tlog:
  "fold (\<lambda>s. modify_tlog s f) ss p =
     oak_reference_values_update (map_option (rv_type_update (map_option (fold (\<lambda>s. type_modify s f) ss)))) p"
proof (induction ss arbitrary: p)
  case Nil
  then show ?case
    by (cases p; cases "oak_reference_values p") (simp_all add: option.map_ident [abs_def])
next
  case (Cons s ss)
  then show ?case
    by (cases p) (simp add: modify_tlog_def option.map_comp comp_def)
qed

lemma fold_type_modify:
  "fold (\<lambda>s. type_modify s f) ss (Cbt c) = Cbt (fold (\<lambda>s. cbt_modify s f) ss c)"
  "fold (\<lambda>s. type_modify s f) ss (OakContainers oc) = OakContainers (fold (\<lambda>s. oc_modify s f) ss oc)"
  "fold (\<lambda>s. type_modify s f) ss (OtherReferenceValues bs) = OtherReferenceValues bs"
  by (induction ss arbitrary: c oc) simp_all

fun type_slots :: "bool \<Rightarrow> reference_values_type \<Rightarrow> slot list" where
  "type_slots agent (Cbt c) = cbt_slots agent c"
| "type_slots agent (OakContainers c) = oc_slots"
| "type_slots agent (OtherReferenceValues bs) = []"

definition policy_slots :: "bool \<Rightarrow> policy \<Rightarrow> slot list" where
  "policy_slots agent p =
     (case Option.bind (oak_reference_values p) rv_type of None \<Rightarrow> [] | Some t \<Rightarrow> type_slots agent t)"

lemma fold_type_slots: "fold (\<lambda>s. type_modify s f) (type_slots agent t) t = type_map agent f t"
  by (cases t) (simp_all add: fold_type_modify fold_cbt_slots fold_oc_slots)

lemma fold_policy_slots:
  "fold (\<lambda>s. modify_tlog s f) (policy_slots agent p) p = policy_map agent f p"
  by (cases p rule: policy_type_cases; cases p)
    (simp_all add: policy_slots_def policy_map_def fold_modify_tlog fold_type_slots
      fold_type_slots[of _ _ "Cbt _", simplified] fold_type_slots[of _ _ "OakContainers _", simplified])

text \<open>Writing to a place that has no such field changes nothing.\<close>

lemma on_absent:
  assumes "\<And>t. g t = None \<Longrightarrow> f t = t"
  shows "Option.bind (tlog_of_binary b) g = None \<Longrightarrow> on_binary f b = b"
    and "Option.bind (tlog_of_kernel_binary k) g = None \<Longrightarrow> on_kernel_binary f k = k"
    and "Option.bind (tlog_of_mpm (Some m)) g = None \<Longrightarrow> on_mpm f m = m"
proof -
  have e: "Option.bind (endorsed_tlog t) g = None \<Longrightarrow> on_endorsed f t = t" for t
    using assms by (cases t; cases "case t of Endorsement e \<Rightarrow> tlog e") auto
  have m: "Option.bind (Option.bind x endorsed_tlog) g = None \<Longrightarrow> map_option (on_endorsed f) x = x" for x
    using e by (cases x) auto
  show "Option.bind (tlog_of_binary b) g = None \<Longrightarrow> on_binary f b = b"
    by (cases b) (simp_all add: tlog_of_binary_def on_binary_def m)
  show "Option.bind (tlog_of_kernel_binary k) g = None \<Longrightarrow> on_kernel_binary f k = k"
    by (cases k) (simp_all add: tlog_of_kernel_binary_def on_kernel_binary_def m)
  show "Option.bind (tlog_of_mpm (Some m)) g = None \<Longrightarrow> on_mpm f m = m"
    by (simp add: tlog_of_mpm_def on_mpm_def m)
qed


lemma map_option_fixed: "(\<And>x. v = Some x \<Longrightarrow> h x = x) \<Longrightarrow> map_option h v = v"
  by (cases v) simp_all

lemma update_fixed:
  "h (amd_sev r) = amd_sev r \<Longrightarrow> amd_sev_update h r = r"
  "h2 (intel_tdx r) = intel_tdx r \<Longrightarrow> intel_tdx_update h2 r = r"
  "h3 (amd_stage0 a) = amd_stage0 a \<Longrightarrow> amd_stage0_update h3 a = a"
  "h3 (tdx_stage0 t) = tdx_stage0 t \<Longrightarrow> tdx_stage0_update h3 t = t"
  "h4 (kernel k) = kernel k \<Longrightarrow> kernel_update h4 k = k"
  "h3 (init_ram_fs k) = init_ram_fs k \<Longrightarrow> init_ram_fs_update h3 k = k"
  "h3 (runtime_agent l) = runtime_agent l \<Longrightarrow> runtime_agent_update h3 l = l"
  "h3 (runtime_agent_binary l) = runtime_agent_binary l \<Longrightarrow> runtime_agent_binary_update h3 l = l"
  "h3 (userspace l) = userspace l \<Longrightarrow> userspace_update h3 l = l"
  "h5 (binary_mpm m) = binary_mpm m \<Longrightarrow> binary_mpm_update h5 m = m"
  "h6 (binary_mpms m) = binary_mpms m \<Longrightarrow> binary_mpms_update h6 m = m"
  "h3 (system_image y) = system_image y \<Longrightarrow> system_image_update h3 y = y"
  "h3 (container_binary e) = container_binary e \<Longrightarrow> container_binary_update h3 e = e"
  "h3 (configuration e) = configuration e \<Longrightarrow> configuration_update h3 e = e"
  by (cases r; cases a; cases t; cases k; cases l; cases m; cases y; cases e; simp)+

lemma list_update_fixed: "(i < length xs \<Longrightarrow> h (xs ! i) = xs ! i) \<Longrightarrow> xs[i := h (xs ! i)] = xs"
  by (cases "i < length xs") (simp_all add: list_update_beyond)

lemma modify_absent:
  assumes f: "\<And>t. g t = None \<Longrightarrow> f t = t" and absent: "Option.bind (tlog_at p s) g = None"
  shows "modify_tlog s f p = p"
proof -
  note fixed = map_option_fixed update_fixed list_update_fixed on_absent [where g = g and f = f, OF f]
  have cbt: "Option.bind (cbt_tlog_at c s) g = None \<Longrightarrow> cbt_modify s f c = c" for c
    by (cases s; cases c; simp; intro fixed)
      (auto simp: tlog_of_bind)
  have oc: "Option.bind (oc_tlog_at c s) g = None \<Longrightarrow> oc_modify s f c = c" for c
    by (cases s; cases c; simp; intro fixed)
      (auto simp: tlog_of_bind)
  from absent show ?thesis
    by (cases p rule: policy_type_cases; cases p; cases "oak_reference_values p")
      (auto simp: modify_tlog_def tlog_at_def cbt oc)
qed

lemma fold_present:
  assumes "\<And>r q. deref q r = None \<Longrightarrow> m r q = q"
    and "\<And>r q s. deref (m r q) s = None \<longleftrightarrow> deref q s = None"
    and "\<And>s. deref q s = None \<longleftrightarrow> deref p s = None"
  shows "fold m (filter (\<lambda>s. deref p s \<noteq> None) ss) q = fold m ss q"
  using assms(3)
proof (induction ss arbitrary: q)
  case Nil
  then show ?case by simp
next
  case (Cons s ss)
  have "deref (m s q) t = None \<longleftrightarrow> deref p t = None" for t
    using assms(2) Cons.prems by simp
  with Cons assms(1) [of q s] show ?case by (cases "deref p s = None") simp_all
qed

text \<open>The traversals list the places at which the field is present, in the order of \<open>policy_slots\<close>.\<close>

lemma mpm_refs_filter:
  "concat (map (\<lambda>(i, m). refer (CbtBinaryMpms i) (g m)) (enumerate n ms)) =
     map CbtBinaryMpms (filter (\<lambda>i. g (ms ! (i - n)) \<noteq> None) [n ..< n + length ms])"
proof (induction ms arbitrary: n)
  case Nil
  then show ?case by simp
next
  case (Cons m ms)
  have up: "[n ..< n + length (m # ms)] = n # [Suc n ..< Suc n + length ms]"
    using upt_rec [of n "n + length (m # ms)"] by (simp del: upt_Suc)
  have "filter (\<lambda>i. g ((m # ms) ! (i - n)) \<noteq> None) [Suc n ..< Suc n + length ms] =
      filter (\<lambda>i. g (ms ! (i - Suc n)) \<noteq> None) [Suc n ..< Suc n + length ms]"
    by (rule filter_cong) (auto simp: nth_Cons')
  with Cons.IH [of "Suc n"] show ?case
    unfolding up by (cases "g m") simp_all
qed

lemma filter_mpms:
  "filter P (map CbtBinaryMpms is) = map CbtBinaryMpms (filter (\<lambda>i. P (CbtBinaryMpms i)) is)"
  by (induction "is") simp_all

lemma filter_layer:
  "filter P (case x of None \<Rightarrow> [] | Some y \<Rightarrow> f y) = (case x of None \<Rightarrow> [] | Some y \<Rightarrow> filter P (f y))"
  by (cases x) simp_all

lemma tlog_of_None [simp]:
  "tlog_of_binary None = None" "tlog_of_kernel_binary None = None" "tlog_of_mpm None = None"
  by (simp_all add: tlog_of_binary_def tlog_of_kernel_binary_def tlog_of_mpm_def)

lemma mpm_getters:
  "get_pes_from_mpm_reference_value m = Option.bind (tlog_of_mpm m) pes"
  "get_c2sp_from_mpm_reference_value m = Option.bind (tlog_of_mpm m) c2sp"
  by (cases m; simp add: pes_getters c2sp_getters)+

lemmas getters = get_pes_from_binary_reference_value_def get_pes_from_kernel_binary_reference_value_def
  get_pes_from_single_mpm_reference_value_def get_c2sp_from_binary_reference_value_def
  get_c2sp_from_kernel_binary_reference_value_def get_c2sp_from_single_mpm_reference_value_def
  mpm_getters

lemma mpm_slots_filter:
  assumes "layer2 c = Some l" and "\<And>m. h m = Option.bind (tlog_of_mpm (Some m)) g"
  shows "filter (\<lambda>s. Option.bind (cbt_tlog_at c s) g \<noteq> None)
           (map CbtBinaryMpms [0 ..< length (binary_mpms l)]) =
         concat (map (\<lambda>(i, m). refer (CbtBinaryMpms i) (h m)) (enumerate 0 (binary_mpms l)))"
  unfolding mpm_refs_filter filter_mpms
  by (intro arg_cong [where f = "map CbtBinaryMpms"] filter_cong) (auto simp: assms)

lemma pes_cbt_eq_filter:
  "get_pes_fields_from_cbt c =
     filter (\<lambda>s. Option.bind (cbt_tlog_at c s) pes \<noteq> None) (cbt_slots True c)"
  unfolding get_pes_fields_from_cbt_def cbt_slots_def filter_append
  by (cases "layer2 c"; cases "layer1 c"; cases "cbt_kernel_layer c")
    (simp_all add: mpm_slots_filter [where h = get_pes_from_single_mpm_reference_value]
      refer_filter getters tlog_of_bind del: not_None_eq)

lemma c2sp_cbt_eq_filter:
  "get_c2sp_fields_from_cbt c =
     filter (\<lambda>s. Option.bind (cbt_tlog_at c s) c2sp \<noteq> None) (cbt_slots False c)"
  unfolding get_c2sp_fields_from_cbt_def cbt_slots_def filter_append
  by (cases "layer2 c"; cases "layer1 c"; cases "cbt_kernel_layer c")
    (simp_all add: mpm_slots_filter [where h = get_c2sp_from_single_mpm_reference_value]
      refer_filter getters tlog_of_bind del: not_None_eq)

lemma oc_eq_filter:
  "get_pes_fields_from_oak_containers c =
     filter (\<lambda>s. Option.bind (oc_tlog_at c s) pes \<noteq> None) oc_slots"
  "get_c2sp_fields_from_oak_containers c =
     filter (\<lambda>s. Option.bind (oc_tlog_at c s) c2sp \<noteq> None) oc_slots"
  unfolding get_pes_fields_from_oak_containers_def get_c2sp_fields_from_oak_containers_def
    oc_slots_def
  by (cases "oc_root_layer c"; cases "oc_kernel_layer c"; cases "system_layer c";
      cases "container_layer c"; cases "Option.bind (oc_root_layer c) amd_sev";
      cases "Option.bind (oc_root_layer c) intel_tdx";
      simp add: refer_filter getters tlog_of_bind del: not_None_eq)+

lemma pes_fields_eq_filter:
  "get_pes_fields p = filter (\<lambda>s. pes_at p s \<noteq> None) (policy_slots True p)"
  by (cases p rule: policy_type_cases)
    (simp_all add: get_pes_fields_def policy_slots_def pes_at_def tlog_at_def pes_cbt_eq_filter
      oc_eq_filter del: not_None_eq)

lemma c2sp_fields_eq_filter:
  "get_c2sp_fields p = filter (\<lambda>s. c2sp_at p s \<noteq> None) (policy_slots False p)"
  by (cases p rule: policy_type_cases)
    (simp_all add: get_c2sp_fields_def policy_slots_def c2sp_at_def tlog_at_def c2sp_cbt_eq_filter
      oc_eq_filter del: not_None_eq)

lemma modify_pes_absent: "pes_at p s = None \<Longrightarrow> modify_pes s f p = p"
  unfolding modify_pes_def pes_at_def by (rule modify_absent) simp_all

lemma modify_c2sp_absent: "c2sp_at p s = None \<Longrightarrow> modify_c2sp s f p = p"
  unfolding modify_c2sp_def c2sp_at_def by (rule modify_absent) simp_all

lemma write_pes_fields:
  "fold (\<lambda>s. modify_pes s f) (get_pes_fields p) p = policy_map True (pes_update (map_option f)) p"
proof -
  have "fold (\<lambda>s. modify_pes s f) (get_pes_fields p) p =
      fold (\<lambda>s. modify_pes s f) (policy_slots True p) p"
    unfolding pes_fields_eq_filter
    by (rule fold_present) (simp_all add: modify_pes_absent pes_refs.deref_modify)
  then show ?thesis
    by (simp add: modify_pes_def fold_policy_slots)
qed

lemma write_c2sp_fields:
  "fold (\<lambda>s. modify_c2sp s f) (get_c2sp_fields p) p = policy_map False (c2sp_update (map_option f)) p"
proof -
  have "fold (\<lambda>s. modify_c2sp s f) (get_c2sp_fields p) p =
      fold (\<lambda>s. modify_c2sp s f) (policy_slots False p) p"
    unfolding c2sp_fields_eq_filter
    by (rule fold_present) (simp_all add: modify_c2sp_absent c2sp_refs.deref_modify)
  then show ?thesis
    by (simp add: modify_c2sp_def fold_policy_slots)
qed

section \<open>The result of the loops\<close>

text \<open>C24: writing the PES key set through the collected references is the same as mapping the
  write over the structure of the policy: every PES field there is gets the key set, nothing else
  of the policy changes, and no field is missed or written twice.\<close>

theorem write_pes_key_set_is_map:
  "write_pes_key_set ks p =
     policy_map True (pes_update (map_option (key_set_update (\<lambda>_. Some ks)))) p"
  unfolding write_pes_key_set_def by (rule write_pes_fields)

text \<open>\<open>inject_c2sp_policy\<close> never fails, and is the structural map that writes the policy text
  into every C2SP field but that of the layer-1 runtime agent.\<close>

lemma inject_c2sp_policy_is_map:
  "inject_c2sp_policy p text =
     Ok (policy_map False (c2sp_update (map_option (c2sp_policy_update (\<lambda>_. text)))) p)"
  unfolding inject_c2sp_policy_def by (simp only: write_c2sp_fields)

text \<open>C37: read field by field: after \<open>inject_c2sp_policy\<close> every C2SP field of the policy holds the
  text, except that of \<open>layer1.runtime_agent\<close>, which the traversal does not visit and which keeps
  whatever it held.\<close>

theorem inject_c2sp_policy_skips_runtime_agent:
  "\<exists>q. inject_c2sp_policy p text = Ok q \<and>
     (\<forall>s. c2sp_at q s =
        (if s = CbtRuntimeAgent then c2sp_at p s
         else map_option (c2sp_policy_update (\<lambda>_. text)) (c2sp_at p s)))"
  by (auto simp: inject_c2sp_policy_def c2sp_refs.deref_write_refs in_c2sp_fields)

text \<open>Read field by field: after the PES keys are written, every PES field the policy has
  holds the key set, the runtime agent's included, and a field that was absent stays absent.\<close>

lemma write_pes_key_set_complete:
  "pes_at (write_pes_key_set ks p) s = map_option (key_set_update (\<lambda>_. Some ks)) (pes_at p s)"
  by (auto simp: write_pes_key_set_def pes_refs.deref_write_refs in_pes_fields)

end
