(* ===== verification/Policy_Store.thy ===== *)
theory Policy_Store
  imports Policy_Map Ffi_World
begin

text \<open>
  Loading of policies: \<open>avs_server/policies/policy.rs\<close>, the certificate files of \<open>certs.rs\<close>, the
  key set of \<open>pes.rs\<close>, and the tool \<open>bundle_policies.rs\<close> that builds the embedded bundle.  The
  bundle is a generated file and its protobuf decoder a library, so both are parameters: a
  \<open>build\<close> holds them with the verifier policy text.
\<close>

section \<open>Certificate files\<close>

definition extract_spki_from_pem :: "world \<Rightarrow> string \<Rightarrow> (anyhow, bytes) outcome ffi" where
  "extract_spki_from_pem w pem = do {
     bio \<leftarrow> call_ptr w (BIO_new_mem_buf (as_bytes pem));
     if bio = Null then fail ''failed to create BIO''
     else do {
     x509 \<leftarrow> call_ptr w (PEM_read_bio_X509 bio);
     _ \<leftarrow> free BIO bio;
     if x509 = Null then fail ''failed to parse PEM certificate''
     else do {
     pkey \<leftarrow> call_ptr w (X509_get_pubkey x509);
     _ \<leftarrow> free X509 x509;
     if pkey = Null then fail ''failed to get public key from certificate''
     else do {
     len \<leftarrow> call_int w (I2d_len EVP_PKEY pkey);
     if len \<le> 0 then do {
       _ \<leftarrow> free EVP_PKEY pkey;
       fail ''failed to determine public key DER length''
     } else do {
     len2 \<leftarrow> call_bytes w (I2d EVP_PKEY pkey);
     _ \<leftarrow> free EVP_PKEY pkey;
     case len2 of
       None \<Rightarrow> fail ''failed to serialize public key to DER''
     | Some bs \<Rightarrow> ret (Ok (filled len bs)) }}}}
   }"

text \<open>
  The loop over the entries of a glob: each is a path, or the error met while reading it.  The
  directory is listed once, at the start of the loop.
\<close>

fun read_entries :: "world \<Rightarrow> string option list \<Rightarrow> (anyhow, string list) outcome ffi" where
  "read_entries w [] = ret (Ok [])"
| "read_entries w (entry # entries) =
     (case entry of
        None \<Rightarrow> ret (Err (Context ''Failed to resolve glob entry'' (Msg ''GlobError'')))
      | Some path \<Rightarrow> do {
          file \<leftarrow> ask (\<lambda>tr. path_is_file w tr path);
          if file then do {
            content \<leftarrow> ask (\<lambda>tr. read_to_string w tr path);
            (case content of
               None \<Rightarrow> ret (Err (Context ''Failed to read certificate file {:?}'' (Msg ''io::Error'')))
             | Some text \<Rightarrow> bindE (read_entries w entries) (\<lambda>certs. ret (Ok (text # certs))))
          } else read_entries w entries })"

definition load_certificates :: "world \<Rightarrow> string \<Rightarrow> (anyhow, string list) outcome ffi" where
  "load_certificates w glob_pattern = do {
     entries \<leftarrow> ask (\<lambda>tr. glob_paths w tr glob_pattern);
     case entries of
       None \<Rightarrow> ret (Err (Context ''Failed to parse certificate glob pattern'' (Msg ''PatternError'')))
     | Some es \<Rightarrow> read_entries w es
   }"

section \<open>The key set\<close>

definition mk_verifying_key :: "nat \<Rightarrow> bytes \<Rightarrow> verifying_key" where
  "mk_verifying_key index raw_key =
     \<lparr>vk_type = RsaSha2256, key_id = index mod 2 ^ 32, raw = raw_key\<rparr>"

fun load_keys :: "world \<Rightarrow> nat \<Rightarrow> string list \<Rightarrow> (anyhow, verifying_key list) outcome ffi" where
  "load_keys w index [] = ret (Ok [])"
| "load_keys w index (pem_content # certs) =
     bindE (extract_spki_from_pem w pem_content) (\<lambda>raw_key.
     bindE (load_keys w (Suc index) certs) (\<lambda>ks.
     ret (Ok (mk_verifying_key index raw_key # ks))))"

definition load_rsa_sha2_256_keyset ::
  "world \<Rightarrow> string list \<Rightarrow> (anyhow, verifying_key_set option) outcome ffi" where
  "load_rsa_sha2_256_keyset w certs =
     (if certs = [] then ret (Ok None)
      else bindE (load_keys w 0 certs)
        (\<lambda>ks. ret (Ok (Some \<lparr>keys = ks, signed_timestamp = None\<rparr>))))"

definition inject_pes_keys :: "world \<Rightarrow> policy \<Rightarrow> (anyhow, policy) outcome ffi" where
  "inject_pes_keys w policy =
     bindE (load_certificates w ''etc/pes-certs/**/*.pem'') (\<lambda>certs.
     bindE (load_rsa_sha2_256_keyset w certs) (\<lambda>key_set.
     ret (Ok (case key_set of
         None \<Rightarrow> policy
       | Some ks \<Rightarrow> write_pes_key_set ks policy))))"

section \<open>The registry\<close>

type_synonym registry = "string \<rightharpoonup> policy"

definition registry_of :: "policy list \<Rightarrow> registry" where
  "registry_of ps = fold (\<lambda>p m. m(policy_name p \<mapsto> p)) (filter (\<lambda>p. policy_name p \<noteq> []) ps) Map.empty"

definition build_policy_registry ::
  "(bytes \<Rightarrow> policy_bundle option) \<Rightarrow> bytes \<Rightarrow> (anyhow, registry) outcome" where
  "build_policy_registry decode bundle_bytes =
     (case decode bundle_bytes of
        None \<Rightarrow> Panicked ''failed to decode policy bundle''
      | Some bundle \<Rightarrow> Ok (registry_of (policies bundle)))"

record build =
  policy_bundle_decode :: "bytes \<Rightarrow> policy_bundle option"
  POLICY_BUNDLE :: bytes
  PROD_VERIFIER_POLICY :: string

definition policy_registry :: "build \<Rightarrow> (anyhow, registry) outcome" where
  "policy_registry b = build_policy_registry (policy_bundle_decode b) (POLICY_BUNDLE b)"

record policies_config =
  include_development_policy :: bool
  enable_c2sp_tlog :: bool

definition policies_config_default :: policies_config where
  "policies_config_default = \<lparr>include_development_policy = False, enable_c2sp_tlog = False\<rparr>"

definition get_policy_with_config_and_c2sp_policy ::
  "world \<Rightarrow> build \<Rightarrow> string \<Rightarrow> policies_config \<Rightarrow> string \<Rightarrow> (anyhow, policy) outcome ffi" where
  "get_policy_with_config_and_c2sp_policy w b name config text =
     (if name = ''development'' \<and> \<not> include_development_policy config
      then fail (''policy not supported: '' @ name)
      else bindE (liftE (bind_outcome (policy_registry b)
                    (\<lambda>m. ok_or (Msg (''unrecognized policy name: '' @ name)) (m name)))) (\<lambda>policy.
        bindE (inject_pes_keys w policy) (\<lambda>policy.
        if enable_c2sp_tlog config then liftE (inject_c2sp_policy policy text)
        else ret (Ok policy))))"

definition get_policy_with_config ::
  "world \<Rightarrow> build \<Rightarrow> string \<Rightarrow> policies_config \<Rightarrow> (anyhow, policy) outcome ffi" where
  "get_policy_with_config w b name config =
     get_policy_with_config_and_c2sp_policy w b name config (PROD_VERIFIER_POLICY b)"

definition get_policy :: "world \<Rightarrow> build \<Rightarrow> string \<Rightarrow> (anyhow, policy) outcome ffi" where
  "get_policy w b name = get_policy_with_config w b name policies_config_default"

section \<open>The bundling tool\<close>

text \<open>
  \<open>main\<close> of \<open>bundle_policies.rs\<close>: the arguments after the program name; the file read, the two
  codecs and the success of the write are parameters.  The result is the exit status (0 for a normal return) and the
  file written, if any.
\<close>

datatype tool_exit = Exit int | Wrote string bytes

record bundle_tool =
  fs_read :: "string \<Rightarrow> bytes option"
  fs_write_ok :: "string \<Rightarrow> bool"
  policy_decode :: "bytes \<Rightarrow> policy option"
  policy_bundle_encode :: "policy_bundle \<Rightarrow> bytes"

fun read_policies :: "bundle_tool \<Rightarrow> string list \<Rightarrow> (anyhow, policy list) outcome" where
  "read_policies t [] = Ok []"
| "read_policies t (path # paths) =
     (case fs_read t path of
        None \<Rightarrow> Panicked ''failed to read {path}: {e}''
      | Some bs \<Rightarrow>
          (case policy_decode t bs of
             None \<Rightarrow> Panicked ''failed to decode policy from {path}: {e}''
           | Some p \<Rightarrow> map_ok (\<lambda>ps. p # ps) (read_policies t paths)))"

definition bundle_policies_main :: "bundle_tool \<Rightarrow> string list \<Rightarrow> (anyhow, tool_exit) outcome" where
  "bundle_policies_main t args =
     (if args = [] then Panicked ''index out of bounds''
      else if length args < 2 then Ok (Exit 1)
      else
        let output_path = args ! 1; input_paths = drop 2 args in
        bind_outcome (read_policies t input_paths) (\<lambda>ps.
          let encoded = policy_bundle_encode t \<lparr>policies = ps\<rparr> in
          if fs_write_ok t output_path then Ok (Wrote output_path encoded)
          else Panicked ''failed to write {output_path}: {e}''))"


section \<open>Ownership\<close>

lemma tidy_extract_spki_from_pem: "tidy S (extract_spki_from_pem w pem)"
  unfolding tidy_def extract_spki_from_pem_def
  by (intro ffi_wp) (auto simp: call_contracts)

lemma tidy_ret: "\<not> panics r \<Longrightarrow> tidy S (ret r)"
  by (simp add: tidy_def owns_return)

lemma tidy_bindE': "tidy S m \<Longrightarrow> (\<And>a. tidy S (f a)) \<Longrightarrow> tidy S (bindE m f)"
  unfolding tidy_def [of S "bindE m f"] by (rule tidy_bindE) (simp_all add: tidy_def)

lemma tidy_ask: "(\<And>a. tidy S (f a)) \<Longrightarrow> tidy S (State_Monad.bind (ask g) f)"
  unfolding tidy_def by (rule owns_ask)

lemma tidy_read_entries: "tidy S (read_entries w es)"
proof (induction es)
  case Nil
  then show ?case by (simp add: tidy_ret)
next
  case (Cons e es)
  then show ?case
    by (cases e)
      (auto intro!: tidy_ask tidy_bindE' simp: tidy_ret split: option.split)
qed

lemma tidy_load_keys: "tidy S (load_keys w i certs)"
  by (induction certs arbitrary: i)
    (auto intro!: tidy_bindE' tidy_extract_spki_from_pem simp: tidy_ret)

lemma tidy_inject_pes_keys: "tidy S (inject_pes_keys w p)"
  unfolding inject_pes_keys_def load_certificates_def load_rsa_sha2_256_keyset_def
  by (auto intro!: tidy_bindE' tidy_ask tidy_load_keys simp: tidy_ret tidy_read_entries split: option.split)

lemma tidy_get_policy:
  assumes "policy_bundle_decode b (POLICY_BUNDLE b) \<noteq> None"
  shows "tidy S (get_policy_with_config_and_c2sp_policy w b name config text)"
proof -
  from assms have "\<not> panics (bind_outcome (policy_registry b)
      (\<lambda>m. ok_or (Msg (''unrecognized policy name: '' @ name)) (m name)))"
    by (cases "registry_of (policies (the (policy_bundle_decode b (POLICY_BUNDLE b)))) name")
      (auto simp: policy_registry_def build_policy_registry_def)
  then show ?thesis
    unfolding get_policy_with_config_and_c2sp_policy_def
    by (auto intro!: tidy_bindE' tidy_inject_pes_keys tidy_ret simp: inject_c2sp_policy_def)
qed

section \<open>What the registry and the loaded policy hold\<close>

lemma registry_of_lookup:
  "registry_of ps name =
     (if name = [] then None else find (\<lambda>p. policy_name p = name) (rev ps))"
proof -
  have "fold (\<lambda>p m. m(policy_name p \<mapsto> p)) (filter (\<lambda>p. policy_name p \<noteq> []) ps) m name =
      (if name = [] then m name
       else case find (\<lambda>p. policy_name p = name) (rev ps) of None \<Rightarrow> m name | Some p \<Rightarrow> Some p)" for m
  proof (induction ps rule: rev_induct)
    case Nil
    then show ?case by simp
  next
    case (snoc p ps)
    then show ?case by auto
  qed
  from this [of Map.empty] show ?thesis
    by (simp add: registry_of_def split: option.split)
qed

lemma read_policies_Ok:
  "read_policies t paths = Ok ps \<longleftrightarrow>
     list_all2 (\<lambda>path p. \<exists>bs. fs_read t path = Some bs \<and> policy_decode t bs = Some p) paths ps"
proof (induction paths arbitrary: ps)
  case Nil
  then show ?case by auto
next
  case (Cons path paths)
  show ?case
    by (cases ps) (auto simp: outcome_simps Cons.IH list_all2_Cons2 split: option.split)
qed

text \<open>A policy as it is served: the key set, if any, in its PES fields, the text in its C2SP fields.\<close>

definition loaded_policy :: "policies_config \<Rightarrow> string \<Rightarrow> verifying_key_set option \<Rightarrow> policy \<Rightarrow> policy" where
  "loaded_policy config text kset p =
     (if enable_c2sp_tlog config
      then policy_map False (c2sp_update (map_option (c2sp_policy_update (\<lambda>_. text)))) else id)
     ((case kset of
         None \<Rightarrow> id
       | Some ks \<Rightarrow> policy_map True (pes_update (map_option (key_set_update (\<lambda>_. Some ks))))) p)"

lemma get_policy_run_Ok:
  assumes "run_state (get_policy_with_config_and_c2sp_policy w b name config text) tr = (Ok q, tr')"
  shows "\<exists>m p certs kset tr1. policy_registry b = Ok m \<and> m name = Some p
    \<and> (name = ''development'' \<longrightarrow> include_development_policy config)
    \<and> run_state (load_certificates w ''etc/pes-certs/**/*.pem'') tr = (Ok certs, tr1)
    \<and> run_state (load_rsa_sha2_256_keyset w certs) tr1 = (Ok kset, tr')
    \<and> q = loaded_policy config text kset p"
proof -
  let ?lookup = "bind_outcome (policy_registry b)
    (\<lambda>m. ok_or (Msg (''unrecognized policy name: '' @ name)) (m name))"
  from assms have dev: "\<not> (name = ''development'' \<and> \<not> include_development_policy config)"
    by (auto simp: get_policy_with_config_and_c2sp_policy_def split: if_splits)
  with assms obtain p r tr2 where p: "?lookup = Ok p"
    and inject: "run_state (inject_pes_keys w p) tr = (Ok r, tr2)"
    and rest: "run_state (if enable_c2sp_tlog config then liftE (inject_c2sp_policy r text)
        else ret (Ok r)) tr2 = (Ok q, tr')"
    by (auto simp: get_policy_with_config_and_c2sp_policy_def bindE_run_Ok simp del: bind_outcome.simps)
  from rest have q: "tr' = tr2 \<and> q = (if enable_c2sp_tlog config
      then policy_map False (c2sp_update (map_option (c2sp_policy_update (\<lambda>_. text)))) r else r)"
    by (auto simp: inject_c2sp_policy_def write_c2sp_fields split: if_splits)
  from inject obtain certs kset tr1 where certs:
    "run_state (load_certificates w ''etc/pes-certs/**/*.pem'') tr = (Ok certs, tr1)"
    "run_state (load_rsa_sha2_256_keyset w certs) tr1 = (Ok kset, tr2)"
    "r = (case kset of None \<Rightarrow> p | Some ks \<Rightarrow> write_pes_key_set ks p)"
    by (auto simp: inject_pes_keys_def bindE_run_Ok)
  have "q = loaded_policy config text kset p"
    unfolding q [THEN conjunct2] certs(3) loaded_policy_def
    by (cases kset) (simp_all add: write_pes_key_set_def write_pes_fields)
  with p dev certs q show ?thesis
    by (auto simp: outcome_simps)
qed

lemma load_keys_Ok:
  "run_state (load_keys w i certs) tr = (Ok ks, tr') \<Longrightarrow>
     length ks = length certs \<and> (\<forall>j < length ks. vk_type (ks ! j) = RsaSha2256 \<and> key_id (ks ! j) = (i + j) mod 2 ^ 32)"
proof (induction certs arbitrary: i tr ks)
  case Nil
  then show ?case by simp
next
  case (Cons c certs)
  then show ?case
    by (auto simp: bindE_run_Ok nth_Cons mk_verifying_key_def split: nat.split)
qed


section \<open>Properties\<close>

text \<open>C21: a policy that \<open>get_policy_with_config_and_c2sp_policy\<close> returns is the last policy of the
  bundle with that (non-empty) name, with the key set loaded from the certificate files written
  into its PES fields and, when enabled, the verifier text into its C2SP fields; the development
  policy is returned only when the configuration includes it.\<close>

theorem get_policy_returns_bundled:
  assumes "run_state (get_policy_with_config_and_c2sp_policy w b name config text) tr = (Ok q, tr')"
  shows "\<exists>bundle p certs kset tr1.
      policy_bundle_decode b (POLICY_BUNDLE b) = Some bundle
    \<and> name \<noteq> [] \<and> find (\<lambda>p. policy_name p = name) (rev (policies bundle)) = Some p
    \<and> (name = ''development'' \<longrightarrow> include_development_policy config)
    \<and> run_state (load_certificates w ''etc/pes-certs/**/*.pem'') tr = (Ok certs, tr1)
    \<and> run_state (load_rsa_sha2_256_keyset w certs) tr1 = (Ok kset, tr')
    \<and> q = loaded_policy config text kset p"
proof -
  from get_policy_run_Ok [OF assms] obtain m p certs kset tr1 where m: "policy_registry b = Ok m"
    "m name = Some p" and rest: "name = ''development'' \<longrightarrow> include_development_policy config"
    "run_state (load_certificates w ''etc/pes-certs/**/*.pem'') tr = (Ok certs, tr1)"
    "run_state (load_rsa_sha2_256_keyset w certs) tr1 = (Ok kset, tr')"
    "q = loaded_policy config text kset p"
    by blast
  from m obtain pb where "policy_bundle_decode b (POLICY_BUNDLE b) = Some pb"
    "m = registry_of (policies pb)"
    by (auto simp: policy_registry_def build_policy_registry_def split: option.splits)
  with m rest show ?thesis
    by (auto simp: registry_of_lookup split: if_splits)
qed

definition sample_policy :: policy where
  "sample_policy = \<lparr>publisher_domain = ''google.com'', publisher_role = ''pcit-release-bot'',
     workload_name = ''w'', oak_reference_values = None, policy_operator_policy =
       Some \<lparr>rules = [\<lparr>rule_domain = ''prod.google.com'', rule_role = ''prober''\<rparr>]\<rparr>,
     policy_name = ''prober''\<rparr>"

definition sample_build :: build where
  "sample_build = \<lparr>policy_bundle_decode = (\<lambda>_. Some \<lparr>policies = [sample_policy]\<rparr>),
     POLICY_BUNDLE = [], PROD_VERIFIER_POLICY = ''v''\<rparr>"

lemma sample_get_policy:
  "run_state (get_policy_with_config_and_c2sp_policy (obliging_world 0) sample_build ''prober''
     policies_config_default ''v'') tr = (Ok sample_policy, tr)"
  by (simp add: get_policy_with_config_and_c2sp_policy_def sample_build_def sample_policy_def
      policy_registry_def build_policy_registry_def registry_of_def inject_pes_keys_def
      load_certificates_def load_rsa_sha2_256_keyset_def obliging_world_def bindE_def ask_def
      policies_config_default_def)

lemma get_policy_returns_bundled_witness:
  "\<exists>bundle p certs kset tr1.
      policy_bundle_decode sample_build (POLICY_BUNDLE sample_build) = Some bundle
    \<and> find (\<lambda>p. policy_name p = ''prober'') (rev (policies bundle)) = Some p
    \<and> run_state (load_certificates (obliging_world 0) ''etc/pes-certs/**/*.pem'') [] = (Ok certs, tr1)
    \<and> run_state (load_rsa_sha2_256_keyset (obliging_world 0) certs) tr1 = (Ok kset, [])
    \<and> sample_policy = loaded_policy policies_config_default ''v'' kset p"
  using get_policy_returns_bundled [OF sample_get_policy [of "[]"]] by blast

text \<open>With the default configuration the development policy is refused, whatever the bundle
  holds, before any file is read.\<close>

lemma get_policy_refuses_development:
  "run_state (get_policy w b ''development'') tr = (Err (Msg ''policy not supported: development''), tr)"
  by (simp add: get_policy_def get_policy_with_config_def get_policy_with_config_and_c2sp_policy_def
      policies_config_default_def bail_def)

text \<open>C38: the bundling tool and the registry fit together: when the protobuf codec round-trips on the
  bundle of the input files and the tool writes a bundle from the given policy files, the registry built from the written bytes holds,
  under each non-empty name, the last of those files' policies that has the name.\<close>

theorem bundled_policies_are_registered:
  assumes codec: "\<And>ps. read_policies t inputs = Ok ps \<Longrightarrow>
      decode (policy_bundle_encode t \<lparr>policies = ps\<rparr>) = Some \<lparr>policies = ps\<rparr>"
    and tool: "bundle_policies_main t (prog # out # inputs) = Ok (Wrote out bs)"
  shows "\<exists>ps m. list_all2 (\<lambda>path p. \<exists>c. fs_read t path = Some c \<and> policy_decode t c = Some p) inputs ps
    \<and> build_policy_registry decode bs = Ok m
    \<and> (\<forall>name. m name = (if name = [] then None else find (\<lambda>p. policy_name p = name) (rev ps)))"
proof -
  from tool obtain ps where ps: "read_policies t inputs = Ok ps"
    and bs: "bs = policy_bundle_encode t \<lparr>policies = ps\<rparr>"
    by (auto simp: bundle_policies_main_def outcome_simps Let_def split: if_splits)
  then have "build_policy_registry decode bs = Ok (registry_of ps)"
    by (simp add: build_policy_registry_def codec)
  with ps show ?thesis
    by (auto simp: read_policies_Ok registry_of_lookup)
qed

definition sample_tool :: bundle_tool where
  "sample_tool = \<lparr>fs_read = (\<lambda>_. Some []), fs_write_ok = (\<lambda>_. True),
     policy_decode = (\<lambda>_. Some sample_policy), policy_bundle_encode = (\<lambda>_. [7])\<rparr>"

lemma bundled_policies_are_registered_witness:
  "\<exists>ps m. build_policy_registry (\<lambda>_. Some \<lparr>policies = [sample_policy]\<rparr>) [7] = Ok m
    \<and> (\<forall>name. m name = (if name = [] then None else find (\<lambda>p. policy_name p = name) (rev ps)))"
proof -
  have "bundle_policies_main sample_tool (''bundle'' # ''out'' # [''in'']) = Ok (Wrote ''out'' [7])"
    by (simp add: bundle_policies_main_def sample_tool_def)
  moreover have "read_policies sample_tool [''in''] = Ok ps \<Longrightarrow>
      (\<lambda>_. Some \<lparr>policies = [sample_policy]\<rparr>) (policy_bundle_encode sample_tool \<lparr>policies = ps\<rparr>) =
        Some \<lparr>policies = ps\<rparr>" for ps
    by (simp add: sample_tool_def)
  ultimately show ?thesis
    using bundled_policies_are_registered
      [of sample_tool "[''in'']" "\<lambda>_. Some \<lparr>policies = [sample_policy]\<rparr>" "''bundle''" "''out''" "[7]"]
    by blast
qed

text \<open>When every certificate file yields a key, the key set has one key for each file in
  order, each of type RSA-SHA2-256 and numbered by its position.\<close>

lemma load_rsa_sha2_256_keyset_numbers_keys:
  assumes "run_state (load_rsa_sha2_256_keyset w certs) tr = (Ok (Some ks), tr')"
  shows "length (keys ks) = length certs \<and> certs \<noteq> [] \<and> signed_timestamp ks = None
    \<and> (\<forall>j < length certs. vk_type (keys ks ! j) = RsaSha2256 \<and> key_id (keys ks ! j) = j mod 2 ^ 32)"
  using assms load_keys_Ok [of w 0 certs tr]
  by (auto simp: load_rsa_sha2_256_keyset_def bindE_run_Ok split: if_splits)

end
