(* ===== verification/Csr_Validation.thy ===== *)
theory Csr_Validation
  imports Cert_Authority Policy_Store
begin

text \<open>
  Validation of a certificate signing request, \<open>avs_server/src/csr.rs\<close>: the signature of the
  request, the operator's authorisation, attestation of the evidence against the policy's reference
  values, the binding of the attested user data to the request's key and to the nonce, and the
  validity window of the certificate.

  The Oak attestation library and the P-256 implementation are not part of the repository; they are
  the fields of \<open>oak_library\<close>.  A verifier may read the clock, so it is given the trace.
\<close>

section \<open>The attestation library\<close>

type_synonym attestation_verifier =
  "trace \<Rightarrow> evidence \<Rightarrow> endorsements \<Rightarrow> (anyhow, attestation_results) outcome"

datatype event_policy =
    TransparentStage0Policy kernel_layer_reference_values
  | TransparentLayer1Policy cb_layer1_reference_values
  | TransparentLayer2Policy cb_layer2_reference_values

record oak_library =
  amd_transparent_verifier ::
    "amd_sev_reference_values \<Rightarrow> binary_reference_value \<Rightarrow> event_policy list \<Rightarrow> attestation_verifier"
  create_amd_verifier :: "reference_values \<Rightarrow> (anyhow, attestation_verifier) outcome"
  create_intel_tdx_verifier :: "reference_values \<Rightarrow> (anyhow, attestation_verifier) outcome"
  create_insecure_verifier :: "reference_values \<Rightarrow> (anyhow, attestation_verifier) outcome"
  status_success :: int
  get_validity :: "event_attestation_results \<Rightarrow> validity option"
  get_user_data_payload :: "event_attestation_results \<Rightarrow> bytes option"
  unique_signing_public_key :: "attestation_results \<Rightarrow> bytes option"
  extract_evidence_signing_key :: "evidence \<Rightarrow> (anyhow, bytes) outcome"
  from_sec1_bytes :: "bytes \<Rightarrow> bytes option"
  verify_user_data_certificate :: "bytes \<Rightarrow> bytes \<Rightarrow> (anyhow, event_attestation_results) outcome"

section \<open>Verifiers\<close>

definition create_transparent_verifier ::
  "oak_library \<Rightarrow> amd_sev_reference_values \<Rightarrow> binary_reference_value \<Rightarrow>
     kernel_layer_reference_values \<Rightarrow> cb_layer1_reference_values \<Rightarrow> cb_layer2_reference_values \<Rightarrow>
     attestation_verifier" where
  "create_transparent_verifier oak amd_sev_rvs firmware_rvs kernel_layer_rvs layer1_rvs layer2_rvs =
     amd_transparent_verifier oak amd_sev_rvs firmware_rvs
       [TransparentStage0Policy kernel_layer_rvs, TransparentLayer1Policy layer1_rvs,
        TransparentLayer2Policy layer2_rvs]"

definition create_cbt_verifier ::
  "oak_library \<Rightarrow> cbt_reference_values \<Rightarrow> (anyhow, attestation_verifier) outcome" where
  "create_cbt_verifier oak c =
     bind_outcome (ok_or (Msg ''cbt reference values missing root_layer'') (cbt_root_layer c)) (\<lambda>root_layer_rvs.
     bind_outcome (ok_or (Msg ''root_layer reference values missing amd_sev'') (amd_sev root_layer_rvs)) (\<lambda>amd_sev_rvs.
     bind_outcome (ok_or (Msg ''amd_sev reference values missing stage0'') (amd_stage0 amd_sev_rvs)) (\<lambda>firmware_rvs.
     bind_outcome (ok_or (Msg ''cbt reference values missing kernel_layer'') (cbt_kernel_layer c)) (\<lambda>kernel_layer_rvs.
     bind_outcome (ok_or (Msg ''cbt reference values missing layer1'') (layer1 c)) (\<lambda>layer1_rvs.
     bind_outcome (ok_or (Msg ''cbt reference values missing layer2'') (layer2 c)) (\<lambda>layer2_rvs.
     Ok (create_transparent_verifier oak amd_sev_rvs firmware_rvs kernel_layer_rvs layer1_rvs layer2_rvs)))))))"

definition verify_oak_containers_user_data ::
  "oak_library \<Rightarrow> evidence \<Rightarrow> attestation_results \<Rightarrow> (anyhow, attestation_results) outcome" where
  "verify_oak_containers_user_data oak ev results =
     (if signed_user_data_certificate ev = []
      then bail ''missing signed_user_data_certificate in Oak Containers evidence''
      else
        bind_outcome
          (case unique_signing_public_key oak results of
             Some bs \<Rightarrow> Ok bs
           | None \<Rightarrow>
               with_context ''extracting signing public key from Oak Containers evidence''
                 (extract_evidence_signing_key oak ev)) (\<lambda>signing_public_key_bytes.
        bind_outcome
          (ok_or (Msg ''failed to parse Oak Containers signing public key: {err}'')
             (from_sec1_bytes oak signing_public_key_bytes)) (\<lambda>signing_verifying_key.
        bind_outcome
          (with_context ''verifying signed user data certificate for Oak Containers''
             (verify_user_data_certificate oak (signed_user_data_certificate ev) signing_verifying_key))
          (\<lambda>user_data_result.
        Ok (results\<lparr>event_attestation_results :=
              event_attestation_results results @ [user_data_result]\<rparr>)))))"

definition attestation_failure :: "attestation_results \<Rightarrow> string" where
  "attestation_failure results =
     ''attestation verification failed with status ''
       @ (if results_status results < 0 then ''-'' else []) @ digits (nat \<bar>results_status results\<bar>)
       @ '': '' @ reason results"

definition oak_containers_attestation_verifier ::
  "oak_library \<Rightarrow> attestation_verifier \<Rightarrow> attestation_verifier" where
  "oak_containers_attestation_verifier oak inner = (\<lambda>tr ev en.
     bind_outcome (inner tr ev en) (\<lambda>results.
     if results_status results \<noteq> status_success oak
     then bail (attestation_failure results)
     else verify_oak_containers_user_data oak ev results))"

definition create_verifier ::
  "oak_library \<Rightarrow> reference_values \<Rightarrow> tee_platform option \<Rightarrow> (anyhow, attestation_verifier) outcome" where
  "create_verifier oak oak_ref_values platform =
     (case rv_type oak_ref_values of
        Some (Cbt c) \<Rightarrow> create_cbt_verifier oak c
      | Some (OakContainers _) \<Rightarrow>
          bind_outcome (ok_or (Msg ''missing TEE platform for Oak Containers'') platform) (\<lambda>platform.
          bind_outcome
            (case platform of
               AmdSevSnp \<Rightarrow> create_amd_verifier oak oak_ref_values
             | IntelTdx \<Rightarrow> create_intel_tdx_verifier oak oak_ref_values
             | PlatformNone \<Rightarrow> create_insecure_verifier oak oak_ref_values
             | _ \<Rightarrow> bail ''unsupported TEE platform for Oak Containers: {:?}'') (\<lambda>platform_verifier.
          Ok (oak_containers_attestation_verifier oak platform_verifier)))
      | _ \<Rightarrow> bail ''policy oak_reference_values must be either Cbt or OakContainers'')"

section \<open>Validity\<close>

definition FALLBACK_VALIDITY :: int where
  "FALLBACK_VALIDITY = 90 * 24 * 60 * 60"

fun intersect_validity :: "int \<times> int \<Rightarrow> validity option \<Rightarrow> int \<times> int" where
  "intersect_validity (nb, na) None = (nb, na)"
| "intersect_validity (nb, na) (Some v) =
     ((case not_before v of None \<Rightarrow> nb | Some s \<Rightarrow> max nb s),
      (case not_after v of None \<Rightarrow> na | Some s \<Rightarrow> min na s))"

definition extract_validity_with_fallback ::
  "oak_library \<Rightarrow> attestation_results \<Rightarrow> int \<Rightarrow> int \<Rightarrow> (anyhow, int \<times> int) outcome" where
  "extract_validity_with_fallback oak results current_time_sec fallback =
     (let (nb, na) = foldl (\<lambda>win e. intersect_validity win (get_validity oak e))
        (current_time_sec, wrap_i64 (current_time_sec + fallback)) (event_attestation_results results)
      in if \<not> na > nb
         then bail ''invalid validity window: not_after ({not_after_sec}) must be greater than not_before ({not_before_sec})''
         else if \<not> na > current_time_sec
         then bail ''endorsement validity has expired: not_after ({not_after_sec}) is in the past (now is {current_time_sec})''
         else Ok (nb, na))"

definition collect_tlog_verification_results ::
  "attestation_results \<Rightarrow> tlog_verification_results list" where
  "collect_tlog_verification_results results =
     concat (map tlog_verifications (event_attestation_results results))"

section \<open>Data binding\<close>

definition take_chunk :: "bytes \<Rightarrow> (anyhow, bytes \<times> bytes) outcome" where
  "take_chunk bs =
     (if length bs < 4 then bail ''Buffer too short for length header''
      else
        let len = from_be_bytes (take 4 bs); rest = drop 4 bs in
        if length rest < len then bail ''Buffer too short for payload body''
        else Ok (take len rest, drop len rest))"

definition extract_payload :: "bytes \<Rightarrow> (anyhow, bytes \<times> bytes) outcome" where
  "extract_payload data =
     bind_outcome (take_chunk data) (\<lambda>(nonce, data).
     bind_outcome (take_chunk data) (\<lambda>(public_key, data).
     if data \<noteq> [] then bail ''Trailing data detected in buffer''
     else Ok (nonce, public_key)))"

fun first_payload :: "oak_library \<Rightarrow> event_attestation_results list \<Rightarrow> bytes" where
  "first_payload oak [] = []"
| "first_payload oak (e # es) =
     (case get_user_data_payload oak e of Some payload \<Rightarrow> payload | None \<Rightarrow> first_payload oak es)"

definition parse_quoted_key :: "world \<Rightarrow> bytes \<Rightarrow> (anyhow, ptr) outcome ffi" where
  "parse_quoted_key w bs = do {
     r \<leftarrow> key_pair_from_bytes w bs;
     ret (with_context ''failed to parse public key from attestation results'' r)
   }"

abbreviation key_mismatch :: "(anyhow, unit) outcome" where
  "key_mismatch \<equiv> bail ''quoted key does not match the key in the certificate signing request''"

definition verify_data_binding ::
  "world \<Rightarrow> oak_library \<Rightarrow> attestation_results \<Rightarrow> ptr \<Rightarrow> bytes option \<Rightarrow> (anyhow, unit) outcome ffi" where
  "verify_data_binding w oak results csr_public_key nonce =
     (let payload = first_payload oak (event_attestation_results results) in
      if payload = [] then fail ''no user data payload found in attestation results''
      else case nonce of
        None \<Rightarrow>
          bindE (parse_quoted_key w payload) (\<lambda>quoted_public_key. do {
            same \<leftarrow> key_pair_eq w quoted_public_key csr_public_key;
            _ \<leftarrow> key_pair_drop quoted_public_key;
            ret (if \<not> same then key_mismatch else Ok ()) })
      | Some expected_nonce \<Rightarrow>
          bindE (liftE (extract_payload payload)) (\<lambda>(actual_nonce, actual_csr_public_key).
          if actual_nonce \<noteq> expected_nonce then fail ''nonce mismatch: expected {:?}, got {:?}''
          else
            bindE (parse_quoted_key w actual_csr_public_key) (\<lambda>actual_public_key. do {
              same \<leftarrow> key_pair_eq w csr_public_key actual_public_key;
              _ \<leftarrow> key_pair_drop actual_public_key;
              ret (if \<not> same then key_mismatch else Ok ()) })))"

section \<open>The request\<close>

definition verify_csr_and_get_public_key :: "world \<Rightarrow> bytes \<Rightarrow> (anyhow, ptr) outcome ffi" where
  "verify_csr_and_get_public_key w csr_der = do {
     csr \<leftarrow> call_ptr w (D2i X509_REQ csr_der);
     if csr = Null then do {
       err \<leftarrow> call_int w ERR_get_error;
       if err \<noteq> 0 then do {
         err_str \<leftarrow> call_bool w (ERR_reason_error_string err);
         if err_str then fail ''failed to parse CSR: {}'' else fail ''failed to parse CSR.''
       } else fail ''failed to parse CSR.''
     } else do {
     pkey \<leftarrow> call_ptr w (X509_REQ_get_pubkey csr);
     if pkey = Null then do {
       _ \<leftarrow> free X509_REQ csr;
       fail ''failed to get public key form CSR.''
     } else do {
     verified \<leftarrow> call_int w (X509_REQ_verify csr pkey);
     if verified \<noteq> 1 then do {
       _ \<leftarrow> free EVP_PKEY pkey;
       _ \<leftarrow> free X509_REQ csr;
       fail ''CSR signature is invalid.''
     } else do {
     _ \<leftarrow> free X509_REQ csr;
     ret (Ok pkey) }}}
   }"

text \<open>
  A local that is dropped unless the rest of the function succeeds and moves it into its result:
  the destructor runs on an early return and when a panic unwinds.
\<close>

definition unless_ok :: "('e, 'a) outcome ffi \<Rightarrow> unit ffi \<Rightarrow> ('e, 'a) outcome ffi" where
  "unless_ok m destructor = do {
     r \<leftarrow> m;
     if is_ok r then ret r else do { _ \<leftarrow> destructor; ret r }
   }"

definition is_operator_authorized :: "operator_policy \<Rightarrow> operator_info \<Rightarrow> bool" where
  "is_operator_authorized pol info \<longleftrightarrow>
     list_ex (\<lambda>rule. rule_domain rule = oi_domain info \<and> rule_role rule = oi_role info)
       (rules pol)"

definition current_time :: "world \<Rightarrow> (anyhow, int) outcome ffi" where
  "current_time w = do {
     now \<leftarrow> ask (unix_time w);
     ret (case now of
         None \<Rightarrow> Err (Context ''getting current system time'' (Msg ''SystemTimeError''))
       | Some secs \<Rightarrow> Ok (wrap_i64 (int secs)))
   }"

definition validate_csr_request ::
  "world \<Rightarrow> oak_library \<Rightarrow> build \<Rightarrow> bytes \<Rightarrow> evidence \<Rightarrow> endorsements \<Rightarrow> bytes option \<Rightarrow> string \<Rightarrow>
     certificate_profile \<Rightarrow> operator_info \<Rightarrow> policies_config \<Rightarrow>
     (anyhow, provisioned_identity \<times> tlog_verification_results list) outcome ffi" where
  "validate_csr_request w oak b csr_der ev en nonce name profile info config =
     bindE (verify_csr_and_get_public_key w csr_der) (\<lambda>csr_public_key.
     unless_ok (
       bindE (do {
         r \<leftarrow> get_policy_with_config w b name config;
         ret (with_context ''looking up policy for the given policy_name'' r) }) (\<lambda>policy.
       bindE (liftE (ok_or (Msg ''retrieving operator_policy from policy'')
         (policy_operator_policy policy))) (\<lambda>operator_policy.
       if \<not> is_operator_authorized operator_policy info
       then fail ''operator '{}/{}' is not authorized by operator_policy: {:?}''
       else
       bindE (liftE (ok_or (Msg ''policy is missing oak_reference_values'')
         (oak_reference_values policy))) (\<lambda>oak_ref_values.
       let platform = map_option root_platform (root_layer ev) in
       bindE (liftE (create_verifier oak oak_ref_values platform)) (\<lambda>verifier.
       bindE (ask (\<lambda>tr. verifier tr ev en)) (\<lambda>results.
       if results_status results \<noteq> status_success oak
       then fail (attestation_failure results)
       else
       bindE (verify_data_binding w oak results csr_public_key nonce) (\<lambda>_.
       bindE (current_time w) (\<lambda>current_time_sec.
       bindE (liftE (extract_validity_with_fallback oak results current_time_sec FALLBACK_VALIDITY))
         (\<lambda>(nb, na).
       ret (Ok
         (\<lparr>public_key = csr_public_key,
           certificate_profile = profile,
           operator_domain_of = oi_domain info,
           operator_role_of = oi_role info,
           publisher_domain_of = publisher_domain policy,
           publisher_role_of = publisher_role policy,
           workload_name_of = workload_name policy,
           not_before_sec = nb,
           not_after_sec = na\<rparr>,
          collect_tlog_verification_results results)))))))))))
     (key_pair_drop csr_public_key))"

section \<open>Length-prefixed data\<close>

text \<open>
  The interface of a self-delimiting encoding: what the encoder wrote, followed by anything, is
  read back with the rest left over, and the decoder accepts nothing else.
\<close>

locale self_delimiting =
  fixes encodable :: "'a \<Rightarrow> bool"
    and enc :: "'a \<Rightarrow> bytes"
    and dec :: "bytes \<Rightarrow> ('e, 'a \<times> bytes) outcome"
  assumes dec_enc: "encodable x \<Longrightarrow> dec (enc x @ rest) = Ok (x, rest)"
    and dec_only: "dec bs = Ok (x, rest) \<Longrightarrow> encodable x \<and> bs = enc x @ rest"
begin

lemma dec_iff: "dec bs = Ok (x, rest) \<longleftrightarrow> encodable x \<and> bs = enc x @ rest"
  using dec_enc dec_only by blast

lemma dec_two_iff:
  "(\<exists>mid. dec bs = Ok (x, mid) \<and> dec mid = Ok (y, rest)) \<longleftrightarrow>
     encodable x \<and> encodable y \<and> bs = enc x @ enc y @ rest"
  by (auto simp: dec_iff)

lemma enc_two_inj:
  assumes "encodable x" "encodable y" "encodable x'" "encodable y'"
    and "enc x @ enc y = enc x' @ enc y'"
  shows "x = x' \<and> y = y'"
proof -
  have "Ok (x, enc y) = dec (enc x @ enc y)" using assms(1) by (rule dec_enc [symmetric])
  also have "\<dots> = dec (enc x' @ enc y')" by (simp only: assms(5))
  also have "\<dots> = Ok (x', enc y')" using assms(3) by (rule dec_enc)
  finally have eq: "x = x'" "enc y = enc y'" by (simp_all only: outcome.inject prod.inject)
  have "Ok (y, []) = dec (enc y @ [])" using assms(2) by (rule dec_enc [symmetric])
  also have "\<dots> = dec (enc y' @ [])" by (simp only: eq)
  also have "\<dots> = Ok (y', [])" using assms(4) by (rule dec_enc)
  finally show ?thesis using eq by (simp only: outcome.inject prod.inject)
qed

end

definition chunk :: "bytes \<Rightarrow> bytes" where
  "chunk bs = to_be_bytes (length bs) @ bs"

lemma to_be_bytes_from:
  assumes "length bs = 4"
  shows "to_be_bytes (from_be_bytes bs) = bs"
proof -
  obtain a b c d where bs: "bs = [a, b, c, d]"
    using assms by (auto simp: length_Suc_conv numeral_eq_Suc)
  have u: "unat (x :: u8) < 256" for x
    using unsigned_less [of x] by simp
  have digit: "(q * 256 + r) mod 256 = r \<and> (q * 256 + r) div 256 = q" if "r < 256" for q r :: nat
    using that by simp
  define n where "n = from_be_bytes bs"
  have n: "n = ((unat a * 256 + unat b) * 256 + unat c) * 256 + unat d"
    by (simp add: n_def bs algebra_simps)
  have "n mod 256 = unat d" and n1: "n div 256 = (unat a * 256 + unat b) * 256 + unat c"
    using digit [OF u [of d]] unfolding n by blast+
  moreover have "n div 256 mod 256 = unat c" and n2: "n div 256 div 256 = unat a * 256 + unat b"
    using digit [OF u [of c]] unfolding n1 by blast+
  moreover have "n div 256 div 256 mod 256 = unat b" and n3: "n div 256 div 256 div 256 = unat a"
    using digit [OF u [of b]] unfolding n2 by blast+
  moreover have "unat a mod 256 = unat a"
    using u [of a] by simp
  moreover have "n div 2 ^ 8 = n div 256" "n div 2 ^ 16 = n div 256 div 256"
    "n div 2 ^ 24 = n div 256 div 256 div 256"
    by (simp_all add: div_mult2_eq [symmetric])
  ultimately have "to_be_bytes n = [of_nat (unat a), of_nat (unat b), of_nat (unat c), of_nat (unat d)]"
    unfolding to_be_bytes_def by (simp only:)
  then show ?thesis
    unfolding n_def bs by simp
qed

interpretation chunks: self_delimiting "\<lambda>bs. length bs < 2 ^ 32" chunk take_chunk
proof
  show "take_chunk (chunk x @ rest) = Ok (x, rest)" if "length x < 2 ^ 32" for x rest
    using that from_to_be_bytes [OF that] by (simp add: take_chunk_def chunk_def Let_def)
  show "length x < 2 ^ 32 \<and> bs = chunk x @ rest" if "take_chunk bs = Ok (x, rest)" for bs x rest
  proof -
    from that have len: "\<not> length bs < 4" "\<not> length (drop 4 bs) < from_be_bytes (take 4 bs)"
      and x: "x = take (from_be_bytes (take 4 bs)) (drop 4 bs)"
      and rest: "rest = drop (from_be_bytes (take 4 bs)) (drop 4 bs)"
      by (auto simp: take_chunk_def Let_def split: if_splits)
    have 4: "length (take 4 bs) = 4" using len(1) by simp
    have lx: "length x = from_be_bytes (take 4 bs)"
      using len(2) by (simp add: x del: from_be_bytes.simps)
    then have "chunk x @ rest = take 4 bs @ x @ rest"
      by (simp only: chunk_def to_be_bytes_from [OF 4] append_assoc)
    also have "\<dots> = bs" unfolding x rest by (simp del: from_be_bytes.simps drop_drop)
    finally show ?thesis
      using from_be_bytes_4_bound [OF 4] lx by simp
  qed
qed

lemma extract_payload_iff:
  "extract_payload data = Ok (n, k) \<longleftrightarrow>
     length n < 2 ^ 32 \<and> length k < 2 ^ 32 \<and> data = chunk n @ chunk k"
proof -
  have "extract_payload data = Ok (n, k) \<longleftrightarrow>
      (\<exists>mid. take_chunk data = Ok (n, mid) \<and> take_chunk mid = Ok (k, []))"
    by (auto simp: extract_payload_def outcome_simps split: prod.splits if_splits)
  then show ?thesis
    by (simp add: chunks.dec_two_iff)
qed

section \<open>Accepted requests\<close>

lemma unless_ok_run_Ok [simp]:
  "run_state (unless_ok m d) tr = (Ok a, tr') \<longleftrightarrow> run_state m tr = (Ok a, tr')"
proof (cases "run_state m tr")
  case (Pair r tr1)
  then show ?thesis by (cases r) (auto simp: unless_ok_def split: prod.splits)
qed

lemma verify_csr_Ok:
  assumes "run_state (verify_csr_and_get_public_key w csr_der) tr = (Ok key, tr')"
  shows "key = Obj (length tr + 2) \<and>
    tr' = tr @ [(D2i X509_REQ csr_der, RPtr True),
                (X509_REQ_get_pubkey (Obj (length tr + 1)), RPtr True),
                (X509_REQ_verify (Obj (length tr + 1)) key, RInt 1),
                (Free X509_REQ (Obj (length tr + 1)), RUnit)]"
  using assms
  by (auto simp: verify_csr_and_get_public_key_def run_calls bail_def split: if_splits)

lemma parse_quoted_key_Ok:
  "run_state (parse_quoted_key w bs) tr = (Ok key, tr') \<longleftrightarrow>
     says_ptr w tr (D2i EVP_PKEY bs) \<and> key = Obj (Suc (length tr)) \<and>
     tr' = tr @ [(D2i EVP_PKEY bs, RPtr True)]"
  by (auto simp: parse_quoted_key_def key_pair_from_bytes_def call_ptr_def Let_def bail_def
      with_context_def split: if_splits)

text \<open>
  The trace of a comparison with the attested key: it is parsed from the attested bytes, found equal
  to the key of the request, and freed.
\<close>

definition key_matched :: "bytes \<Rightarrow> (ptr \<Rightarrow> bssl_call) \<Rightarrow> trace \<Rightarrow> trace" where
  "key_matched der cmp tr =
     tr @ [(D2i EVP_PKEY der, RPtr True), (cmp (Obj (Suc (length tr))), RInt 1),
           (Free EVP_PKEY (Obj (Suc (length tr))), RUnit)]"

lemma verify_data_binding_nonce_Ok:
  assumes "run_state (verify_data_binding w oak results key (Some nonce)) tr = (Ok (), tr')"
  shows "\<exists>der. first_payload oak (event_attestation_results results) = chunk nonce @ chunk der
    \<and> length nonce < 2 ^ 32 \<and> length der < 2 ^ 32 \<and> tr' = key_matched der (EVP_PKEY_cmp key) tr"
  using assms
  by (auto simp: verify_data_binding_def Let_def run_Ok parse_quoted_key_Ok extract_payload_iff
      key_pair_eq_def key_pair_drop_def key_matched_def bail_def split: if_splits)

lemma verify_data_binding_no_nonce_Ok:
  assumes "run_state (verify_data_binding w oak results key None) tr = (Ok (), tr')"
  shows "first_payload oak (event_attestation_results results) \<noteq> [] \<and>
    tr' = key_matched (first_payload oak (event_attestation_results results))
      (\<lambda>quoted. EVP_PKEY_cmp quoted key) tr"
  using assms
  by (auto simp: verify_data_binding_def Let_def run_Ok parse_quoted_key_Ok
      key_pair_eq_def key_pair_drop_def key_matched_def bail_def split: if_splits)

lemma current_time_Ok:
  "run_state (current_time w) tr = (Ok t, tr') \<longleftrightarrow>
     tr' = tr \<and> (\<exists>secs. unix_time w tr = Some secs \<and> t = wrap_i64 (int secs))"
  by (auto simp: current_time_def run_calls split: option.splits)

lemma lookup_policy_Ok:
  "run_state (do { r \<leftarrow> get_policy_with_config w b name config; ret (with_context s r) }) tr = (Ok p, tr') \<longleftrightarrow>
     run_state (get_policy_with_config w b name config) tr = (Ok p, tr')"
  by (auto simp: outcome_simps split: prod.splits)

lemma validate_csr_request_Ok:
  assumes "run_state (validate_csr_request w oak b csr_der ev en nonce name profile info config) tr =
    (Ok (identity, tlogs), tr')"
  shows "\<exists>key policy opol rvs verifier results tr1 tr2 secs.
      run_state (verify_csr_and_get_public_key w csr_der) tr = (Ok key, tr1)
    \<and> run_state (get_policy_with_config w b name config) tr1 = (Ok policy, tr2)
    \<and> policy_operator_policy policy = Some opol \<and> is_operator_authorized opol info
    \<and> oak_reference_values policy = Some rvs
    \<and> create_verifier oak rvs (map_option root_platform (root_layer ev)) = Ok verifier
    \<and> verifier tr2 ev en = Ok results \<and> results_status results = status_success oak
    \<and> run_state (verify_data_binding w oak results key nonce) tr2 = (Ok (), tr')
    \<and> unix_time w tr' = Some secs
    \<and> extract_validity_with_fallback oak results (wrap_i64 (int secs)) FALLBACK_VALIDITY =
        Ok (not_before_sec identity, not_after_sec identity)
    \<and> public_key identity = key \<and> certificate_profile identity = profile
    \<and> operator_domain_of identity = oi_domain info \<and> operator_role_of identity = oi_role info
    \<and> publisher_domain_of identity = publisher_domain policy
    \<and> publisher_role_of identity = publisher_role policy
    \<and> workload_name_of identity = workload_name policy
    \<and> tlogs = collect_tlog_verification_results results"
  using assms
  unfolding validate_csr_request_def Let_def bindE_run_Ok unless_ok_run_Ok lookup_policy_Ok
    run_ret_Ok run_calls run_fail_if_Ok current_time_Ok ok_or_eq_Ok
  by (clarsimp split: prod.splits)

section \<open>The validity window\<close>

definition starts :: "oak_library \<Rightarrow> attestation_results \<Rightarrow> int list" where
  "starts oak results =
     List.map_filter (\<lambda>e. Option.bind (get_validity oak e) not_before) (event_attestation_results results)"

definition ends :: "oak_library \<Rightarrow> attestation_results \<Rightarrow> int list" where
  "ends oak results =
     List.map_filter (\<lambda>e. Option.bind (get_validity oak e) not_after) (event_attestation_results results)"

lemma foldl_intersect_validity:
  "foldl (\<lambda>win e. intersect_validity win (get_validity oak e)) (nb, na) es =
     (Max (set (nb # List.map_filter (\<lambda>e. Option.bind (get_validity oak e) not_before) es)),
      Min (set (na # List.map_filter (\<lambda>e. Option.bind (get_validity oak e) not_after) es)))"
  unfolding Max.set_eq_fold Min.set_eq_fold
proof (induction es arbitrary: nb na)
  case Nil
  then show ?case by (simp add: List.map_filter_def)
next
  case (Cons e es)
  then show ?case
    by (cases "get_validity oak e")
      (auto simp: map_filter_simps max.commute min.commute split: option.split)
qed

lemma extract_validity_eq:
  "extract_validity_with_fallback oak results now fb =
     (let nb = Max (set (now # starts oak results));
          na = Min (set (wrap_i64 (now + fb) # ends oak results))
      in if nb < na then Ok (nb, na)
         else bail ''invalid validity window: not_after ({not_after_sec}) must be greater than not_before ({not_before_sec})'')"
proof -
  have "now \<le> Max (set (now # starts oak results))"
    by (rule Max_ge) simp_all
  then show ?thesis
    unfolding extract_validity_with_fallback_def foldl_intersect_validity starts_def [symmetric]
      ends_def [symmetric] Let_def case_prod_conv
    by auto
qed

section \<open>Ownership\<close>

text \<open>The attestation library returns a result or an error; it does not panic.\<close>

definition answers :: "attestation_verifier \<Rightarrow> bool" where
  "answers v \<longleftrightarrow> (\<forall>tr ev en. \<not> panics (v tr ev en))"

definition creates :: "(anyhow, attestation_verifier) outcome \<Rightarrow> bool" where
  "creates r \<longleftrightarrow> \<not> panics r \<and> (\<forall>v. r = Ok v \<longrightarrow> answers v)"

definition oak_answers :: "oak_library \<Rightarrow> bool" where
  "oak_answers oak \<longleftrightarrow>
     (\<forall>a f ps. answers (amd_transparent_verifier oak a f ps)) \<and>
     (\<forall>rv. creates (create_amd_verifier oak rv) \<and> creates (create_intel_tdx_verifier oak rv) \<and>
        creates (create_insecure_verifier oak rv)) \<and>
     (\<forall>ev. \<not> panics (extract_evidence_signing_key oak ev)) \<and>
     (\<forall>c k. \<not> panics (verify_user_data_certificate oak c k))"

lemma answers_decorated:
  assumes "oak_answers oak" and "answers inner"
  shows "answers (oak_containers_attestation_verifier oak inner)"
  using assms
  by (auto simp: answers_def oak_answers_def oak_containers_attestation_verifier_def
      verify_oak_containers_user_data_def panics_bind split: option.splits)

lemma creates_verifier:
  assumes "oak_answers oak"
  shows "creates (create_verifier oak rv p)"
proof (cases "rv_type rv")
  case None
  then show ?thesis by (simp add: create_verifier_def creates_def)
next
  case (Some t)
  show ?thesis
  proof (cases t)
    case (Cbt c)
    with Some assms show ?thesis
      by (auto simp: create_verifier_def creates_def create_cbt_verifier_def panics_bind outcome_simps
          create_transparent_verifier_def oak_answers_def)
  next
    case (OakContainers c)
    show ?thesis
    proof (cases p)
      case None
      with Some OakContainers show ?thesis by (simp add: create_verifier_def creates_def)
    next
      case (Some q)
      with \<open>rv_type rv = Some t\<close> OakContainers assms answers_decorated [OF assms] show ?thesis
        by (cases q) (auto simp: create_verifier_def creates_def panics_bind outcome_simps oak_answers_def)
    qed
  next
    case (OtherReferenceValues bs)
    with Some show ?thesis by (simp add: create_verifier_def creates_def)
  qed
qed

lemma gives_verify_csr: "gives S (verify_csr_and_get_public_key w csr_der) (\<lambda>k. k)"
  unfolding gives_def verify_csr_and_get_public_key_def
  by (intro ffi_wp) (auto simp: call_contracts)

lemma take_chunk_no_panic: "\<not> panics (take_chunk bs)"
  by (simp add: take_chunk_def Let_def)

lemma extract_payload_no_panic: "\<not> panics (extract_payload bs)"
  by (auto simp: extract_payload_def panics_bind take_chunk_no_panic split: prod.splits)

lemma gives_parse_quoted_key: "gives S (parse_quoted_key w bs) (\<lambda>k. k)"
  unfolding gives_def parse_quoted_key_def
  by (rule owns_bind [OF gives_key_pair_from_bytes [unfolded gives_def]])
    (auto intro!: owns_return simp: with_context_def split: outcome.splits)

lemma tidy_verify_data_binding:
  assumes "root key \<in> S"
  shows "tidy S (verify_data_binding w oak results key nonce)"
  unfolding tidy_def verify_data_binding_def Let_def key_pair_eq_def key_pair_drop_def
  using assms
  by (intro ffi_wp gives_bindE [OF gives_parse_quoted_key] tidy_bindE [OF tidy_liftE])
    (auto simp: call_contracts extract_payload_no_panic split: prod.splits if_splits
      intro!: ffi_wp gives_bindE [OF gives_parse_quoted_key])

lemma owns_unless_ok:
  assumes "owns (insert k S) m (\<lambda>r S'. S' = insert k S \<and> \<not> panics r \<and> (\<forall>a. r = Ok a \<longrightarrow> p a = k))"
    and "k \<noteq> Null" "root k = k" "k \<notin> S"
  shows "owns (insert k S) (unless_ok m (key_pair_drop k)) (\<lambda>r S'. case r of
      Ok a \<Rightarrow> p a \<noteq> Null \<and> root (p a) = p a \<and> p a \<notin> S \<and> S' = insert (p a) S
    | Err e \<Rightarrow> S' = S
    | Panicked s \<Rightarrow> False)"
  unfolding unless_ok_def key_pair_drop_def
proof (rule owns_bind [OF assms(1)])
  fix r S'
  assume post: "S' = insert k S \<and> \<not> panics r \<and> (\<forall>a. r = Ok a \<longrightarrow> p a = k)"
  show "owns S' (if is_ok r then ret r else State_Monad.bind (free EVP_PKEY k) (\<lambda>_. ret r))
     (\<lambda>r S'. case r of
        Ok a \<Rightarrow> p a \<noteq> Null \<and> root (p a) = p a \<and> p a \<notin> S \<and> S' = insert (p a) S
      | Err e \<Rightarrow> S' = S
      | Panicked s \<Rightarrow> False)"
    using post assms(2-4) by (cases r) (auto intro!: ffi_wp simp: call_contracts)
qed

lemma tidy_get_policy_with_config:
  "policy_bundle_decode b (POLICY_BUNDLE b) \<noteq> None \<Longrightarrow>
     tidy S (do { r \<leftarrow> get_policy_with_config w b name config; ret (with_context s r) })"
  unfolding get_policy_with_config_def tidy_def
  by (rule owns_bind [OF tidy_get_policy [unfolded tidy_def]]) (auto intro!: owns_return)

lemma tidy_current_time: "tidy S (current_time w)"
  unfolding current_time_def by (rule tidy_ask) (simp add: tidy_ret split: option.split)

lemma extract_validity_no_panic: "\<not> panics (extract_validity_with_fallback oak results now fb)"
  by (simp add: extract_validity_eq Let_def)

lemma owns_bindE_liftE:
  assumes "\<not> panics r" and "\<And>a. r = Ok a \<Longrightarrow> owns S (f a) Q" and "\<And>e. Q (Err e) S"
  shows "owns S (bindE (liftE r) f) Q"
  using assms by (cases r) (auto simp: bindE_def owns_def)

lemma tidy_ask_verifier:
  assumes "oak_answers oak" and "create_verifier oak rv p = Ok verifier"
  shows "tidy S (ask (\<lambda>tr. verifier tr ev en))"
  using creates_verifier [OF assms(1), of rv p] assms(2)
  by (auto simp: tidy_def owns_def run_calls creates_def answers_def)

lemma gives_validate_csr_request:
  assumes oak: "oak_answers oak" and b: "policy_bundle_decode b (POLICY_BUNDLE b) \<noteq> None"
  shows "gives S (validate_csr_request w oak b csr_der ev en nonce name profile info config)
    (\<lambda>r. public_key (fst r))"
  unfolding gives_def validate_csr_request_def Let_def
proof (rule gives_bindE [OF gives_verify_csr], rule owns_unless_ok, goal_cases)
  case (1 k)
  have v: "\<not> panics (create_verifier oak rv p)" for rv p
    using creates_verifier [OF oak] by (simp add: creates_def)
  note steps = tidy_bindE [OF tidy_get_policy_with_config [OF b]] owns_bindE_liftE
    tidy_bindE [OF tidy_ask_verifier [OF oak]] tidy_bindE [OF tidy_verify_data_binding]
    tidy_bindE [OF tidy_current_time] owns_if
  from 1 show ?case
    by (intro steps)
      (auto simp: v extract_validity_no_panic bail_def intro!: owns_return split: prod.split)
qed simp_all

section \<open>Sample inputs\<close>

definition sample_event :: "bytes \<Rightarrow> event_attestation_results" where
  "sample_event bs = \<lparr>tlog_verifications = [], event_rest = bs\<rparr>"

definition sample_binary :: binary_reference_value where
  "sample_binary = \<lparr>brv_type = Some (OtherReference [])\<rparr>"

definition sample_cbt :: cbt_reference_values where
  "sample_cbt =
     \<lparr>cbt_root_layer = Some \<lparr>amd_sev = Some \<lparr>amd_stage0 = Some sample_binary, amd_rest = []\<rparr>,
        intel_tdx = None, root_rest = []\<rparr>,
      cbt_kernel_layer = Some \<lparr>kernel = None, init_ram_fs = None, kernel_rest = []\<rparr>,
      layer1 = Some \<lparr>runtime_agent = None, runtime_agent_binary = None, userspace = None\<rparr>,
      layer2 = Some \<lparr>binary_mpm = None, binary_mpms = []\<rparr>\<rparr>"

definition cbt_policy :: policy where
  "cbt_policy = sample_policy\<lparr>oak_reference_values := Some \<lparr>rv_type = Some (Cbt sample_cbt)\<rparr>\<rparr>"

definition cbt_build :: build where
  "cbt_build = sample_build\<lparr>policy_bundle_decode := (\<lambda>_. Some \<lparr>policies = [cbt_policy]\<rparr>)\<rparr>"

text \<open>A library whose verifier accepts everything and reports the given user data.\<close>

definition sample_oak :: "bytes \<Rightarrow> oak_library" where
  "sample_oak payload =
     \<lparr>amd_transparent_verifier = (\<lambda>_ _ _ _ _ _. Ok \<lparr>results_status = 1, reason = [],
        event_attestation_results = [sample_event payload]\<rparr>),
      create_amd_verifier = (\<lambda>_. bail ''no''), create_intel_tdx_verifier = (\<lambda>_. bail ''no''),
      create_insecure_verifier = (\<lambda>_. bail ''no''), status_success = 1,
      get_validity = (\<lambda>_. Some \<lparr>not_before = Some 100, not_after = Some 5000\<rparr>),
      get_user_data_payload = (\<lambda>e. Some (event_rest e)),
      unique_signing_public_key = (\<lambda>_. None), extract_evidence_signing_key = (\<lambda>_. bail ''no''),
      from_sec1_bytes = (\<lambda>_. None), verify_user_data_certificate = (\<lambda>_ _. bail ''no'')\<rparr>"

definition sample_evidence :: evidence where
  "sample_evidence = \<lparr>root_layer = None, signed_user_data_certificate = [], evidence_rest = []\<rparr>"

definition sample_endorsements :: endorsements where
  "sample_endorsements = \<lparr>endorsements_rest = []\<rparr>"

definition sample_operator :: operator_info where
  "sample_operator = \<lparr>oi_domain = ''prod.google.com'', oi_role = ''prober''\<rparr>"

definition sample_identity :: provisioned_identity where
  "sample_identity = \<lparr>public_key = Obj 2, certificate_profile = Mtls,
     operator_domain_of = ''prod.google.com'', operator_role_of = ''prober'',
     publisher_domain_of = ''google.com'', publisher_role_of = ''pcit-release-bot'',
     workload_name_of = ''w'', not_before_sec = 1000, not_after_sec = 5000\<rparr>"

definition sample_validation ::
  "bytes option \<Rightarrow> bytes \<Rightarrow> (anyhow, provisioned_identity \<times> tlog_verification_results list) outcome ffi" where
  "sample_validation nonce payload =
     validate_csr_request (obliging_world 1000) (sample_oak payload) cbt_build [] sample_evidence
       sample_endorsements nonce ''prober'' Mtls sample_operator policies_config_default"

lemma sample_get_cbt_policy:
  "run_state (get_policy_with_config (obliging_world n) cbt_build ''prober'' policies_config_default) tr =
     (Ok cbt_policy, tr)"
  by (simp add: get_policy_with_config_def get_policy_with_config_and_c2sp_policy_def cbt_build_def
      sample_build_def cbt_policy_def sample_policy_def policy_registry_def build_policy_registry_def
      registry_of_def inject_pes_keys_def load_certificates_def load_rsa_sha2_256_keyset_def
      obliging_world_def bindE_def run_calls policies_config_default_def)

lemma sample_verifier:
  "create_verifier (sample_oak payload) \<lparr>rv_type = Some (Cbt sample_cbt)\<rparr> p =
     Ok (\<lambda>_ _ _. Ok \<lparr>results_status = 1, reason = [], event_attestation_results = [sample_event payload]\<rparr>)"
  by (simp add: create_verifier_def create_cbt_verifier_def sample_cbt_def create_transparent_verifier_def
      sample_oak_def fun_eq_iff)

lemma sample_validity:
  "extract_validity_with_fallback (sample_oak payload)
     \<lparr>results_status = 1, reason = [], event_attestation_results = [sample_event payload]\<rparr> 1000
     FALLBACK_VALIDITY = Ok (1000, 5000)"
  by (simp add: extract_validity_with_fallback_def sample_oak_def FALLBACK_VALIDITY_def wrap_i64_def)

lemma sample_authorized: "is_operator_authorized (the (policy_operator_policy cbt_policy)) sample_operator"
  by (simp add: is_operator_authorized_def cbt_policy_def sample_policy_def sample_operator_def)

lemma sample_policy_fields:
  "policy_operator_policy cbt_policy = Some (the (policy_operator_policy cbt_policy))"
  "oak_reference_values cbt_policy = Some \<lparr>rv_type = Some (Cbt sample_cbt)\<rparr>"
  "publisher_domain cbt_policy = ''google.com''" "publisher_role cbt_policy = ''pcit-release-bot''"
  "workload_name cbt_policy = ''w''"
  by (simp_all add: cbt_policy_def sample_policy_def)

lemma sample_oak_simps:
  "status_success (sample_oak p) = 1"
  "get_user_data_payload (sample_oak p) (sample_event q) = Some q"
  "tlog_verifications (sample_event p) = []" "wrap_i64 1000 = 1000"
  "oi_domain sample_operator = ''prod.google.com''" "oi_role sample_operator = ''prober''"
  by (simp_all add: sample_oak_def sample_event_def sample_operator_def wrap_i64_def)

lemma sample_validation_Ok:
  assumes "run_state (verify_data_binding (obliging_world 1000) (sample_oak payload)
      \<lparr>results_status = 1, reason = [], event_attestation_results = [sample_event payload]\<rparr> (Obj 2) nonce)
      [(D2i X509_REQ [], RPtr True), (X509_REQ_get_pubkey (Obj 1), RPtr True),
       (X509_REQ_verify (Obj 1) (Obj 2), RInt 1), (Free X509_REQ (Obj 1), RUnit)] = (Ok (), tr')"
  shows "run_state (sample_validation nonce payload) [] = (Ok (sample_identity, []), tr')"
  using assms
  by (simp add: sample_validation_def validate_csr_request_def bindE_def unless_ok_def
      verify_csr_and_get_public_key_def run_calls sample_get_cbt_policy with_context_def
      sample_policy_fields(1)[THEN arg_cong, of "ok_or _"] sample_policy_fields(2-)
      sample_authorized sample_verifier sample_oak_simps current_time_def sample_validity
      collect_tlog_verification_results_def sample_identity_def
      numeral_2_eq_2)

lemma sample_nonce_binding:
  "run_state (verify_data_binding (obliging_world 1000) (sample_oak (chunk [1, 2] @ chunk [7]))
      \<lparr>results_status = 1, reason = [],
       event_attestation_results = [sample_event (chunk [1, 2] @ chunk [7])]\<rparr> (Obj 2) (Some [1, 2])) tr =
     (Ok (), key_matched [7] (EVP_PKEY_cmp (Obj 2)) tr)"
proof -
  have "extract_payload (chunk [1, 2] @ chunk [7]) = Ok ([1, 2], [7])"
    by (simp add: extract_payload_iff)
  moreover have "chunk [1, 2] @ chunk [7] \<noteq> []"
    by (simp add: chunk_def)
  ultimately show ?thesis
    by (simp add: verify_data_binding_def sample_oak_simps Let_def bindE_def parse_quoted_key_def
        key_pair_from_bytes_def with_context_def key_pair_eq_def key_pair_drop_def run_calls
        key_matched_def)
qed

lemmas sample_validation_nonce = sample_validation_Ok [OF sample_nonce_binding]

section \<open>Properties\<close>

lemma policy_map_identity_fields:
  "policy_operator_policy (policy_map agent f p) = policy_operator_policy p"
  "publisher_domain (policy_map agent f p) = publisher_domain p"
  "publisher_role (policy_map agent f p) = publisher_role p"
  "workload_name (policy_map agent f p) = workload_name p"
  by (simp_all add: policy_map_def)

lemma loaded_policy_identity_fields:
  "policy_operator_policy (loaded_policy config text kset p) = policy_operator_policy p"
  "publisher_domain (loaded_policy config text kset p) = publisher_domain p"
  "publisher_role (loaded_policy config text kset p) = publisher_role p"
  "workload_name (loaded_policy config text kset p) = workload_name p"
  by (simp_all add: loaded_policy_def policy_map_identity_fields split: option.split)

lemma validated_policy_is_bundled:
  assumes "run_state (get_policy_with_config w b name config) tr = (Ok q, tr')"
  shows "\<exists>pb p kset. policy_bundle_decode b (POLICY_BUNDLE b) = Some pb \<and> name \<noteq> []
    \<and> find (\<lambda>p. policy_name p = name) (rev (policies pb)) = Some p
    \<and> (name = ''development'' \<longrightarrow> include_development_policy config)
    \<and> q = loaded_policy config (PROD_VERIFIER_POLICY b) kset p"
proof -
  from get_policy_run_Ok [OF assms [unfolded get_policy_with_config_def]]
  obtain m p kset where m: "policy_registry b = Ok m" "m name = Some p"
    and rest: "name = ''development'' \<longrightarrow> include_development_policy config"
    "q = loaded_policy config (PROD_VERIFIER_POLICY b) kset p"
    by blast
  from m obtain pb where "policy_bundle_decode b (POLICY_BUNDLE b) = Some pb"
    "m = registry_of (policies pb)"
    by (auto simp: policy_registry_def build_policy_registry_def split: option.splits)
  with m rest show ?thesis
    by (auto simp: registry_of_lookup split: if_splits)
qed

text \<open>
  That a policy of the bundle authorises an operator, and that an identity carries this operator and
  the publisher and workload of that policy.
\<close>

definition authorised_by_bundle ::
  "build \<Rightarrow> policies_config \<Rightarrow> string \<Rightarrow> certificate_profile \<Rightarrow> operator_info \<Rightarrow> provisioned_identity \<Rightarrow> bool" where
  "authorised_by_bundle b config name profile info identity \<longleftrightarrow>
     (\<exists>pb p opol. policy_bundle_decode b (POLICY_BUNDLE b) = Some pb
     \<and> find (\<lambda>p. policy_name p = name) (rev (policies pb)) = Some p
     \<and> (name = ''development'' \<longrightarrow> include_development_policy config)
     \<and> policy_operator_policy p = Some opol
     \<and> \<lparr>rule_domain = oi_domain info, rule_role = oi_role info\<rparr> \<in> set (rules opol)
     \<and> operator_domain_of identity = oi_domain info \<and> operator_role_of identity = oi_role info
     \<and> publisher_domain_of identity = publisher_domain p
     \<and> publisher_role_of identity = publisher_role p
     \<and> workload_name_of identity = workload_name p
     \<and> certificate_profile identity = profile)"

lemma validated_operator:
  assumes "run_state (validate_csr_request w oak b csr_der ev en nonce name profile info config) tr =
    (Ok (identity, tlogs), tr')"
  shows "authorised_by_bundle b config name profile info identity"
proof -
  from validate_csr_request_Ok [OF assms] obtain q opol tr1 tr2 where
    q: "run_state (get_policy_with_config w b name config) tr1 = (Ok q, tr2)"
    and opol: "policy_operator_policy q = Some opol" "is_operator_authorized opol info"
    and identity: "certificate_profile identity = profile"
      "operator_domain_of identity = oi_domain info" "operator_role_of identity = oi_role info"
      "publisher_domain_of identity = publisher_domain q"
      "publisher_role_of identity = publisher_role q" "workload_name_of identity = workload_name q"
    by blast
  from opol(2) obtain r where r: "r \<in> set (rules opol)"
    and fields: "rule_domain r = oi_domain info \<and> rule_role r = oi_role info"
    by (auto simp: is_operator_authorized_def list_ex_iff)
  have "r = \<lparr>rule_domain = rule_domain r, rule_role = rule_role r\<rparr>"
    by simp
  with r fields have rule: "\<lparr>rule_domain = oi_domain info, rule_role = oi_role info\<rparr> \<in> set (rules opol)"
    by metis
  from validated_policy_is_bundled [OF q] opol(1) identity rule show ?thesis
    unfolding authorised_by_bundle_def by (auto simp: loaded_policy_identity_fields)
qed

text \<open>C2: a request is validated only for an operator that the named policy of the bundle
  authorises, by a rule with exactly this domain and role; the identity that is certified carries
  this operator and the publisher and workload of that same policy.\<close>

theorem validated_operator_is_authorised:
  assumes "run_state (validate_csr_request w oak b csr_der ev en nonce name profile info config) tr =
    (Ok (identity, tlogs), tr')"
  shows "\<exists>pb p opol. policy_bundle_decode b (POLICY_BUNDLE b) = Some pb
    \<and> find (\<lambda>p. policy_name p = name) (rev (policies pb)) = Some p
    \<and> (name = ''development'' \<longrightarrow> include_development_policy config)
    \<and> policy_operator_policy p = Some opol
    \<and> \<lparr>rule_domain = oi_domain info, rule_role = oi_role info\<rparr> \<in> set (rules opol)
    \<and> operator_domain_of identity = oi_domain info \<and> operator_role_of identity = oi_role info
    \<and> publisher_domain_of identity = publisher_domain p
    \<and> publisher_role_of identity = publisher_role p
    \<and> workload_name_of identity = workload_name p
    \<and> certificate_profile identity = profile"
  using validated_operator [OF assms] unfolding authorised_by_bundle_def .

lemma validated_operator_is_authorised_witness:
  "\<exists>pb p opol. policy_bundle_decode cbt_build (POLICY_BUNDLE cbt_build) = Some pb
    \<and> find (\<lambda>p. policy_name p = ''prober'') (rev (policies pb)) = Some p
    \<and> policy_operator_policy p = Some opol
    \<and> \<lparr>rule_domain = ''prod.google.com'', rule_role = ''prober''\<rparr> \<in> set (rules opol)"
  using validated_operator_is_authorised [OF sample_validation_nonce [unfolded sample_validation_def]]
  by (auto simp: sample_oak_simps)

text \<open>
  That evidence was accepted under the named policy and attests the nonce and the key of an identity,
  for a run of the validation from one trace to another.
\<close>

definition attested_for_challenge ::
  "world \<Rightarrow> oak_library \<Rightarrow> build \<Rightarrow> policies_config \<Rightarrow> bytes \<Rightarrow> evidence \<Rightarrow> endorsements \<Rightarrow> bytes \<Rightarrow> string \<Rightarrow>
     provisioned_identity \<Rightarrow> tlog_verification_results list \<Rightarrow> trace \<Rightarrow> trace \<Rightarrow> bool" where
  "attested_for_challenge w oak b config csr_der ev en nonce name identity tlogs tr tr' \<longleftrightarrow>
     (\<exists>q rvs verifier results der tr2.
      run_state (get_policy_with_config w b name config)
        (tr @ [(D2i X509_REQ csr_der, RPtr True),
               (X509_REQ_get_pubkey (Obj (length tr + 1)), RPtr True),
               (X509_REQ_verify (Obj (length tr + 1)) (public_key identity), RInt 1),
               (Free X509_REQ (Obj (length tr + 1)), RUnit)]) = (Ok q, tr2)
    \<and> oak_reference_values q = Some rvs
    \<and> create_verifier oak rvs (map_option root_platform (root_layer ev)) = Ok verifier
    \<and> verifier tr2 ev en = Ok results \<and> results_status results = status_success oak
    \<and> first_payload oak (event_attestation_results results) = chunk nonce @ chunk der
    \<and> tr' = key_matched der (EVP_PKEY_cmp (public_key identity)) tr2
    \<and> tlogs = collect_tlog_verification_results results)"

lemma validated_attestation:
  assumes "run_state (validate_csr_request w oak b csr_der ev en (Some nonce) name profile info config) tr =
    (Ok (identity, tlogs), tr')"
  shows "attested_for_challenge w oak b config csr_der ev en nonce name identity tlogs tr tr'"
proof -
  from validate_csr_request_Ok [OF assms] obtain key q rvs verifier results tr1 tr2 where
    key: "run_state (verify_csr_and_get_public_key w csr_der) tr = (Ok key, tr1)"
    and q: "run_state (get_policy_with_config w b name config) tr1 = (Ok q, tr2)"
      "oak_reference_values q = Some rvs"
      "create_verifier oak rvs (map_option root_platform (root_layer ev)) = Ok verifier"
      "verifier tr2 ev en = Ok results" "results_status results = status_success oak"
    and bind: "run_state (verify_data_binding w oak results key (Some nonce)) tr2 = (Ok (), tr')"
    and id: "public_key identity = key" "tlogs = collect_tlog_verification_results results"
    by blast
  from verify_csr_Ok [OF key] have tr1:
    "tr1 = tr @ [(D2i X509_REQ csr_der, RPtr True),
               (X509_REQ_get_pubkey (Obj (length tr + 1)), RPtr True),
               (X509_REQ_verify (Obj (length tr + 1)) (public_key identity), RInt 1),
               (Free X509_REQ (Obj (length tr + 1)), RUnit)]"
    by (simp only: id(1))
  from verify_data_binding_nonce_Ok [OF bind] obtain der where
    "first_payload oak (event_attestation_results results) = chunk nonce @ chunk der"
    "tr' = key_matched der (EVP_PKEY_cmp (public_key identity)) tr2"
    unfolding id(1) by blast
  with q [unfolded tr1] id(2) show ?thesis
    unfolding attested_for_challenge_def by blast
qed

text \<open>C3: on the streaming path (a nonce is expected) a request is validated only when its CSR
  carries a valid signature by its own key, the attestation verifier built from the policy accepts
  the evidence with status success, and the attested user data is exactly the length-prefixed
  nonce followed by a length-prefixed public key that the library finds equal to the key of the
  CSR, which is the key that is certified.\<close>

theorem validated_key_is_attested_and_fresh:
  assumes "run_state (validate_csr_request w oak b csr_der ev en (Some nonce) name profile info config) tr =
    (Ok (identity, tlogs), tr')"
  shows "\<exists>q rvs verifier results der tr2.
      run_state (get_policy_with_config w b name config)
        (tr @ [(D2i X509_REQ csr_der, RPtr True),
               (X509_REQ_get_pubkey (Obj (length tr + 1)), RPtr True),
               (X509_REQ_verify (Obj (length tr + 1)) (public_key identity), RInt 1),
               (Free X509_REQ (Obj (length tr + 1)), RUnit)]) = (Ok q, tr2)
    \<and> oak_reference_values q = Some rvs
    \<and> create_verifier oak rvs (map_option root_platform (root_layer ev)) = Ok verifier
    \<and> verifier tr2 ev en = Ok results \<and> results_status results = status_success oak
    \<and> first_payload oak (event_attestation_results results) = chunk nonce @ chunk der
    \<and> tr' = key_matched der (EVP_PKEY_cmp (public_key identity)) tr2
    \<and> tlogs = collect_tlog_verification_results results"
  using validated_attestation [OF assms] unfolding attested_for_challenge_def .

lemma validated_key_is_attested_and_fresh_witness:
  "\<exists>(results :: attestation_results) der. first_payload (sample_oak (chunk [1, 2] @ chunk [7])) (event_attestation_results results) =
     chunk [1, 2] @ chunk der"
  using validated_key_is_attested_and_fresh [OF sample_validation_nonce [unfolded sample_validation_def]]
  by blast

text \<open>C20: the validity of a certified identity, when the clock at the end of the validation is below
  \<open>2 ^ 62\<close> seconds: it begins no earlier than now and ends within ninety days, it is not empty, and it
  lies inside every validity window that the attestation results report, which are those that the
  verifier built from the policy of the request returned for its evidence and that were accepted with
  status success.\<close>

theorem validated_window_is_within_endorsements:
  assumes "run_state (validate_csr_request w oak b csr_der ev en nonce name profile info config) tr =
      (Ok (identity, tlogs), tr')"
    and clock: "\<And>secs. unix_time w tr' = Some secs \<Longrightarrow> secs < 2 ^ 62"
  shows "\<exists>q rvs verifier tr1 tr2 results secs.
      run_state (verify_csr_and_get_public_key w csr_der) tr = (Ok (public_key identity), tr1)
    \<and> run_state (get_policy_with_config w b name config) tr1 = (Ok q, tr2)
    \<and> oak_reference_values q = Some rvs
    \<and> create_verifier oak rvs (map_option root_platform (root_layer ev)) = Ok verifier
    \<and> verifier tr2 ev en = Ok results \<and> results_status results = status_success oak
    \<and> tlogs = collect_tlog_verification_results results
    \<and> unix_time w tr' = Some secs
    \<and> int secs \<le> not_before_sec identity \<and> not_before_sec identity < not_after_sec identity
    \<and> not_after_sec identity \<le> int secs + 90 * 24 * 60 * 60
    \<and> (\<forall>e \<in> set (event_attestation_results results). \<forall>v. get_validity oak e = Some v \<longrightarrow>
         (\<forall>s. not_before v = Some s \<longrightarrow> s \<le> not_before_sec identity)
       \<and> (\<forall>s. not_after v = Some s \<longrightarrow> not_after_sec identity \<le> s))"
proof -
  from validate_csr_request_Ok [OF assms(1)] obtain q rvs verifier results tr1 tr2 secs where
    v: "run_state (verify_csr_and_get_public_key w csr_der) tr = (Ok (public_key identity), tr1)"
      "run_state (get_policy_with_config w b name config) tr1 = (Ok q, tr2)" "oak_reference_values q = Some rvs"
      "create_verifier oak rvs (map_option root_platform (root_layer ev)) = Ok verifier"
      "verifier tr2 ev en = Ok results" "results_status results = status_success oak"
      "tlogs = collect_tlog_verification_results results"
    and secs: "unix_time w tr' = Some secs"
    and win: "extract_validity_with_fallback oak results (wrap_i64 (int secs)) FALLBACK_VALIDITY =
        Ok (not_before_sec identity, not_after_sec identity)"
    by blast
  from clock [OF secs] have "int secs < 2 ^ 62" by simp
  then have wraps: "wrap_i64 (int secs) = int secs"
    "wrap_i64 (int secs + FALLBACK_VALIDITY) = int secs + 90 * 24 * 60 * 60"
    by (simp_all add: wrap_i64_id FALLBACK_VALIDITY_def)
  have lt: "not_before_sec identity < not_after_sec identity"
    using win unfolding extract_validity_eq Let_def by (metis bail_neq_Ok outcome.inject(1) prod.inject)
  from win have nb: "not_before_sec identity = Max (set (int secs # starts oak results))"
    and na: "not_after_sec identity = Min (set ((int secs + 90 * 24 * 60 * 60) # ends oak results))"
    by (auto simp only: wraps extract_validity_eq Let_def bail_neq_Ok outcome.inject prod.inject
        split: if_splits)
  have "int secs \<le> not_before_sec identity" "not_after_sec identity \<le> int secs + 90 * 24 * 60 * 60"
    unfolding nb na by (rule Max_ge Min_le; simp)+
  moreover have "s \<le> not_before_sec identity" if "s \<in> set (starts oak results)" for s
    unfolding nb using that by (intro Max_ge) simp_all
  moreover have "not_after_sec identity \<le> s" if "s \<in> set (ends oak results)" for s
    unfolding na using that by (intro Min_le) simp_all
  ultimately have "(\<forall>s. not_before v = Some s \<longrightarrow> s \<le> not_before_sec identity)
       \<and> (\<forall>s. not_after v = Some s \<longrightarrow> not_after_sec identity \<le> s)"
    if "e \<in> set (event_attestation_results results)" "get_validity oak e = Some v" for e v
    using that by (force simp: starts_def ends_def List.map_filter_def)
  with v secs lt \<open>int secs \<le> _\<close> \<open>not_after_sec identity \<le> int secs + _\<close> show ?thesis
    by blast
qed

lemma validated_window_is_within_endorsements_witness:
  "\<exists>(results :: attestation_results) tr1 tr2 q.
      run_state (verify_csr_and_get_public_key (obliging_world 1000) []) [] =
        (Ok (public_key sample_identity), tr1)
    \<and> run_state (get_policy_with_config (obliging_world 1000) cbt_build ''prober'' policies_config_default) tr1 =
        (Ok q, tr2)
    \<and> 1000 \<le> not_before_sec sample_identity \<and> not_before_sec sample_identity < not_after_sec sample_identity
    \<and> not_after_sec sample_identity \<le> 1000 + 90 * 24 * 60 * 60
    \<and> (\<forall>e \<in> set (event_attestation_results results).
         100 \<le> not_before_sec sample_identity \<and> not_after_sec sample_identity \<le> 5000)"
proof -
  have window: "get_validity (sample_oak p) e = Some \<lparr>not_before = Some 100, not_after = Some 5000\<rparr>" for p e
    by (simp add: sample_oak_def)
  show ?thesis
    using validated_window_is_within_endorsements
      [OF sample_validation_nonce [unfolded sample_validation_def], unfolded window]
    by (simp add: obliging_world_def) blast
qed

text \<open>C25: \<open>extract_payload\<close> accepts exactly the concatenation of two length-prefixed chunks, each
  shorter than 4 GiB, with nothing after them, and returns the two chunks.\<close>

theorem extract_payload_roundtrip:
  "extract_payload data = Ok (nonce, key) \<longleftrightarrow>
     length nonce < 2 ^ 32 \<and> length key < 2 ^ 32 \<and>
     data = to_be_bytes (length nonce) @ nonce @ to_be_bytes (length key) @ key"
  by (simp add: extract_payload_iff chunk_def)

text \<open>C17: evidence cannot be replayed under another challenge: attestation results that are bound to
  one nonce are refused for every other nonce, with a nonce-mismatch error and before any key is
  parsed.\<close>

theorem replayed_evidence_is_refused:
  assumes "run_state (verify_data_binding w oak results key (Some nonce)) tr = (Ok (), tr')"
    and "nonce' \<noteq> nonce"
  shows "run_state (verify_data_binding w' oak results key' (Some nonce')) tr0 =
    (Err (Msg ''nonce mismatch: expected {:?}, got {:?}''), tr0)"
proof -
  from verify_data_binding_nonce_Ok [OF assms(1)] obtain der where
    p: "first_payload oak (event_attestation_results results) = chunk nonce @ chunk der"
    and len: "length nonce < 2 ^ 32" "length der < 2 ^ 32"
    by blast
  then have "extract_payload (chunk nonce @ chunk der) = Ok (nonce, der)"
    by (simp add: extract_payload_iff)
  moreover have "chunk nonce @ chunk der \<noteq> []"
    by (simp add: chunk_def to_be_bytes_def)
  ultimately show ?thesis
    using assms(2) by (simp add: verify_data_binding_def p Let_def bindE_def bail_def)
qed

lemma replayed_evidence_is_refused_witness:
  "run_state (verify_data_binding (obliging_world 1000) (sample_oak (chunk [1, 2] @ chunk [7]))
      \<lparr>results_status = 1, reason = [],
       event_attestation_results = [sample_event (chunk [1, 2] @ chunk [7])]\<rparr> (Obj 2) (Some [3])) [] =
     (Err (Msg ''nonce mismatch: expected {:?}, got {:?}''), [])"
  by (rule replayed_evidence_is_refused [OF sample_nonce_binding [of "[]"]]) simp

text \<open>C35: the validity window is the intersection of the windows the attestation reports with the
  ninety days from now (or any other fallback), and is refused when that intersection is empty;
  the second check of the function, that the window has not expired, never fails, since the first
  has already refused such a window.\<close>

theorem extract_validity_is_intersection:
  "extract_validity_with_fallback oak results now fb =
     (let nb = Max (set (now # starts oak results));
          na = Min (set (wrap_i64 (now + fb) # ends oak results))
      in if nb < na then Ok (nb, na)
         else Err (Msg ''invalid validity window: not_after ({not_after_sec}) must be greater than not_before ({not_before_sec})''))"
  by (simp only: extract_validity_eq bail_def)

lemma sample_oak_answers: "oak_answers (sample_oak p)"
  by (simp add: oak_answers_def sample_oak_def answers_def creates_def)

lemma signing_key_source:
  "(case found of Some bs \<Rightarrow> Ok bs | None \<Rightarrow> with_context s r) = Ok k \<longleftrightarrow>
     found = Some k \<or> found = None \<and> r = Ok k"
  by (cases found) (simp_all add: outcome_simps)

text \<open>C36: the Oak Containers verifier accepts evidence only when the platform verifier accepts it with
  status success and the user data certificate of the evidence is present and verifies under the
  container's signing key, taken from the attestation results or, when they have none, from the
  evidence; its results are those of the platform verifier with the user data appended.\<close>

theorem oak_containers_verifier_checks_user_data:
  "oak_containers_attestation_verifier oak inner tr ev en = Ok results \<longleftrightarrow>
     (\<exists>platform_results key_bytes key user_data.
        inner tr ev en = Ok platform_results
      \<and> results_status platform_results = status_success oak
      \<and> signed_user_data_certificate ev \<noteq> []
      \<and> (unique_signing_public_key oak platform_results = Some key_bytes
          \<or> unique_signing_public_key oak platform_results = None
            \<and> extract_evidence_signing_key oak ev = Ok key_bytes)
      \<and> from_sec1_bytes oak key_bytes = Some key
      \<and> verify_user_data_certificate oak (signed_user_data_certificate ev) key = Ok user_data
      \<and> results = platform_results\<lparr>event_attestation_results :=
          event_attestation_results platform_results @ [user_data]\<rparr>)"
  unfolding oak_containers_attestation_verifier_def verify_oak_containers_user_data_def
  by (auto simp: outcome_simps signing_key_source)

end
