(* ===== verification/Tca_Client.thy ===== *)
theory Tca_Client
  imports Cert_Authority
begin

text \<open>
  The client of the trusted certificate authority, \<open>third_party/tca-sdk/rust\<close>: the standard client
  over an attestation provider and a transport, the Oak provider, and the gRPC transport.  The
  traits \<open>AttestationProvider\<close>, \<open>TcaTransport\<close> and \<open>TcaClient\<close> are function types; what lies
  behind them (the enclave's signer and orchestrator, the \<open>x509_cert\<close> and protobuf codecs, the
  network) are the fields of \<open>tca_environment\<close>.  The text that an error message takes from a
  library error is left out of the message.
\<close>

section \<open>Types and traits\<close>

datatype attestation_evidence =
  OakAttestationEvidence (tca_evidence: "evidence option") (tca_endorsements: "endorsements option")
    (signed_public_key: bytes)

record issue_certificate_request =
  certificate_signing_request :: bytes
  attestation_evidence_of :: "attestation_evidence option"

record issue_certificate_response =
  signed_certificates :: "bytes list"

record endorsed_evidence =
  ee_evidence :: "evidence option"
  ee_endorsements :: "endorsements option"

type_synonym attestation_provider =
  "trace \<Rightarrow> bytes \<Rightarrow> (certificate_error, attestation_evidence) outcome"

type_synonym tca_transport =
  "trace \<Rightarrow> issue_certificate_request \<Rightarrow> (certificate_error, issue_certificate_response) outcome"

record tca_environment =
  cert_req_from_der :: "bytes \<Rightarrow> bytes option"
  spki_to_der :: "bytes \<Rightarrow> bytes option"
  orchestrator_channel :: bool
  signer_sign :: "trace \<Rightarrow> bytes \<Rightarrow> bytes option"
  orchestrator_evidence :: "trace \<Rightarrow> endorsed_evidence option"
  encode_evidence :: "evidence \<Rightarrow> bytes"
  decode_evidence :: "bytes \<Rightarrow> evidence option"
  encode_endorsements :: "endorsements \<Rightarrow> bytes"
  decode_endorsements :: "bytes \<Rightarrow> endorsements option"
  tca_connect :: "trace \<Rightarrow> string \<Rightarrow> bool"
  tca_issue :: "trace \<Rightarrow> string \<Rightarrow> issue_certificate_request \<Rightarrow> issue_certificate_response option"

section \<open>The standard client\<close>

definition csr_public_key_of :: "tca_environment \<Rightarrow> bytes \<Rightarrow> (certificate_error, bytes) outcome" where
  "csr_public_key_of env csr =
     bind_outcome (ok_or (Protocol ''Failed to parse CSR: {}'') (cert_req_from_der env csr)) (\<lambda>spki.
     ok_or (Protocol ''Failed to encode SPKI: {}'') (spki_to_der env spki))"

definition standard_issue_certificate ::
  "tca_environment \<Rightarrow> attestation_provider \<Rightarrow> tca_transport \<Rightarrow> tca_client" where
  "standard_issue_certificate env provider transport = (\<lambda>tr csr.
     bind_outcome (csr_public_key_of env csr) (\<lambda>public_key_bytes.
     bind_outcome (provider tr public_key_bytes) (\<lambda>evidence.
     bind_outcome (transport tr
       \<lparr>certificate_signing_request = csr, attestation_evidence_of = Some evidence\<rparr>) (\<lambda>response.
     Ok (signed_certificates response)))))"

section \<open>The gRPC transport\<close>

definition tonic_issue_certificate :: "tca_environment \<Rightarrow> string \<Rightarrow> tca_transport" where
  "tonic_issue_certificate env endpoint = (\<lambda>tr request.
     if \<not> tca_connect env tr endpoint then Err (Network ''Failed to connect to TCA: {}'')
     else ok_or (Network ''TCA issuance failed: {}'') (tca_issue env tr endpoint request))"

section \<open>The Oak provider\<close>

definition get_endorsed_evidence :: "tca_environment \<Rightarrow> trace \<Rightarrow> (certificate_error, endorsed_evidence) outcome" where
  "get_endorsed_evidence env tr =
     ok_or (Platform ''Failed to get evidence: {}'') (orchestrator_evidence env tr)"

definition convert_to_proto ::
  "tca_environment \<Rightarrow> endorsed_evidence \<Rightarrow> bytes \<Rightarrow> (certificate_error, attestation_evidence) outcome" where
  "convert_to_proto env e signature =
     bind_outcome (map_ok (encode_evidence env)
       (ok_or (Platform ''Missing evidence'') (ee_evidence e))) (\<lambda>evidence_bytes.
     bind_outcome (map_ok (encode_endorsements env)
       (ok_or (Platform ''Missing endorsements'') (ee_endorsements e))) (\<lambda>endorsements_bytes.
     bind_outcome (ok_or (Platform ''Failed to decode evidence: {}'')
       (decode_evidence env evidence_bytes)) (\<lambda>ev.
     bind_outcome (ok_or (Platform ''Failed to decode endorsements: {}'')
       (decode_endorsements env endorsements_bytes)) (\<lambda>en.
     Ok (OakAttestationEvidence (Some ev) (Some en) signature)))))"

definition oak_get_evidence :: "tca_environment \<Rightarrow> attestation_provider" where
  "oak_get_evidence env = (\<lambda>tr binding_data.
     bind_outcome (ok_or (Platform ''Failed to sign data: {:?}'') (signer_sign env tr binding_data)) (\<lambda>signature.
     bind_outcome (get_endorsed_evidence env tr) (\<lambda>evidence.
     convert_to_proto env evidence signature)))"

definition oak_provider_create_default ::
  "tca_environment \<Rightarrow> (certificate_error, attestation_provider) outcome" where
  "oak_provider_create_default env =
     (if orchestrator_channel env then Ok (oak_get_evidence env)
      else Err (Platform ''Failed to create orchestrator channel: {}''))"

definition oak_tca_client_create ::
  "tca_environment \<Rightarrow> string \<Rightarrow> (certificate_error, tca_client) outcome" where
  "oak_tca_client_create env endpoint =
     bind_outcome (oak_provider_create_default env) (\<lambda>provider.
     Ok (standard_issue_certificate env provider (tonic_issue_certificate env endpoint)))"

section \<open>The contract of a client\<close>

text \<open>
  A provider and a transport that return, each with a value or with errors of its own kind only.
  What the standard client over them promises is proved once.
\<close>

fun kind :: "certificate_error \<Rightarrow> nat" where
  "kind (Platform _) = 0"
| "kind (Network _) = 1"
| "kind (Protocol _) = 2"
| "kind (Unknown _) = 3"

locale tca_parts =
  fixes env :: tca_environment
    and provider :: attestation_provider
    and transport :: tca_transport
  assumes provider_returns: "\<not> panics (provider tr bs)"
    and transport_returns: "\<not> panics (transport tr request)"
    and provider_errors: "provider tr bs = Err e \<Longrightarrow> kind e = 0"
    and transport_errors: "transport tr request = Err e \<Longrightarrow> kind e = 1"
begin

lemma client_answers: "tca_answers (standard_issue_certificate env provider transport)"
  using provider_returns transport_returns
  by (simp add: tca_answers_def standard_issue_certificate_def csr_public_key_of_def panics_bind)

lemma client_Ok:
  "standard_issue_certificate env provider transport tr csr = Ok chain \<longleftrightarrow>
     (\<exists>key evidence response. csr_public_key_of env csr = Ok key \<and> provider tr key = Ok evidence
      \<and> transport tr \<lparr>certificate_signing_request = csr, attestation_evidence_of = Some evidence\<rparr> = Ok response
      \<and> chain = signed_certificates response)"
  by (auto simp: standard_issue_certificate_def outcome_simps)

lemma network_error_is_transport:
  "standard_issue_certificate env provider transport tr csr = Err (Network s) \<longleftrightarrow>
     (\<exists>key evidence. csr_public_key_of env csr = Ok key \<and> provider tr key = Ok evidence
      \<and> transport tr \<lparr>certificate_signing_request = csr, attestation_evidence_of = Some evidence\<rparr> =
          Err (Network s))"
  using provider_errors
  by (fastforce simp: standard_issue_certificate_def outcome_simps csr_public_key_of_def)

end

interpretation oak_tca: tca_parts env "oak_get_evidence env" "tonic_issue_certificate env endpoint"
  for env endpoint
  by unfold_locales
    (auto simp: oak_get_evidence_def tonic_issue_certificate_def get_endorsed_evidence_def
      convert_to_proto_def panics_bind outcome_simps split: if_splits)

section \<open>Properties\<close>

lemma oak_tca_client_create_Ok:
  "oak_tca_client_create env endpoint = Ok client \<longleftrightarrow>
     orchestrator_channel env \<and>
     client = standard_issue_certificate env (oak_get_evidence env) (tonic_issue_certificate env endpoint)"
  by (auto simp: oak_tca_client_create_def oak_provider_create_default_def)

text \<open>C32: a chain that the Oak client obtains was issued for a request that carries the CSR, the
  enclave's signature over the public key extracted from that CSR, and the evidence and endorsements
  that the orchestrator of the enclave reported for this call, as they are after encoding and decoding;
  the chain is returned unchanged.\<close>

theorem oak_client_binds_csr_key:
  assumes "oak_tca_client_create env endpoint = Ok client" and "client tr csr = Ok chain"
  shows "\<exists>spki key signature enclave ev0 en0 ev en response.
      cert_req_from_der env csr = Some spki \<and> spki_to_der env spki = Some key
    \<and> signer_sign env tr key = Some signature
    \<and> orchestrator_evidence env tr = Some enclave
    \<and> ee_evidence enclave = Some ev0 \<and> decode_evidence env (encode_evidence env ev0) = Some ev
    \<and> ee_endorsements enclave = Some en0 \<and> decode_endorsements env (encode_endorsements env en0) = Some en
    \<and> tca_issue env tr endpoint
        \<lparr>certificate_signing_request = csr,
         attestation_evidence_of = Some (OakAttestationEvidence (Some ev) (Some en) signature)\<rparr> = Some response
    \<and> chain = signed_certificates response"
proof -
  from assms have "standard_issue_certificate env (oak_get_evidence env)
      (tonic_issue_certificate env endpoint) tr csr = Ok chain"
    by (simp add: oak_tca_client_create_Ok)
  then obtain key evidence response where parts: "csr_public_key_of env csr = Ok key"
    "oak_get_evidence env tr key = Ok evidence" "chain = signed_certificates response"
    "tonic_issue_certificate env endpoint tr
       \<lparr>certificate_signing_request = csr, attestation_evidence_of = Some evidence\<rparr> = Ok response"
    by (auto simp: oak_tca.client_Ok)
  have spki: "\<exists>spki. cert_req_from_der env csr = Some spki \<and> spki_to_der env spki = Some key"
    using parts(1) by (auto simp: csr_public_key_of_def outcome_simps)
  have issued: "tca_issue env tr endpoint
       \<lparr>certificate_signing_request = csr, attestation_evidence_of = Some evidence\<rparr> = Some response"
    using parts(4) by (auto simp: outcome_simps tonic_issue_certificate_def split: if_splits)
  have "\<exists>signature enclave ev0 en0 ev en. signer_sign env tr key = Some signature
      \<and> orchestrator_evidence env tr = Some enclave
      \<and> ee_evidence enclave = Some ev0 \<and> decode_evidence env (encode_evidence env ev0) = Some ev
      \<and> ee_endorsements enclave = Some en0 \<and> decode_endorsements env (encode_endorsements env en0) = Some en
      \<and> evidence = OakAttestationEvidence (Some ev) (Some en) signature"
    using parts(2)
    by (auto simp: outcome_simps oak_get_evidence_def get_endorsed_evidence_def convert_to_proto_def)
  with spki issued parts(3) show ?thesis by blast
qed

definition sample_tca :: tca_environment where
  "sample_tca = \<lparr>cert_req_from_der = Some, spki_to_der = Some, orchestrator_channel = True,
     signer_sign = (\<lambda>_ bs. Some (rev bs)),
     orchestrator_evidence = (\<lambda>_. Some \<lparr>ee_evidence = Some \<lparr>root_layer = None,
        signed_user_data_certificate = [], evidence_rest = []\<rparr>,
        ee_endorsements = Some \<lparr>endorsements_rest = []\<rparr>\<rparr>),
     encode_evidence = evidence_rest,
     decode_evidence = (\<lambda>bs. Some \<lparr>root_layer = None, signed_user_data_certificate = [], evidence_rest = bs\<rparr>),
     encode_endorsements = endorsements_rest,
     decode_endorsements = (\<lambda>bs. Some \<lparr>endorsements_rest = bs\<rparr>),
     tca_connect = (\<lambda>_ _. True),
     tca_issue = (\<lambda>_ _ req. Some \<lparr>signed_certificates = [certificate_signing_request req]\<rparr>)\<rparr>"

lemma sample_tca_create:
  "oak_tca_client_create sample_tca ''http://tca'' =
     Ok (standard_issue_certificate sample_tca (oak_get_evidence sample_tca)
       (tonic_issue_certificate sample_tca ''http://tca''))"
  by (simp add: oak_tca_client_create_Ok) (simp add: sample_tca_def)

lemma sample_tca_issue:
  "standard_issue_certificate sample_tca (oak_get_evidence sample_tca)
     (tonic_issue_certificate sample_tca ''http://tca'') tr csr = Ok [csr]"
  by (simp add: sample_tca_def standard_issue_certificate_def csr_public_key_of_def oak_get_evidence_def
      get_endorsed_evidence_def convert_to_proto_def tonic_issue_certificate_def)

lemma oak_client_binds_csr_key_witness:
  "\<exists>key signature enclave ev0 ev. spki_to_der sample_tca [1, 2] = Some key
    \<and> signer_sign sample_tca [] key = Some signature \<and> orchestrator_evidence sample_tca [] = Some enclave
    \<and> ee_evidence enclave = Some ev0
    \<and> decode_evidence sample_tca (encode_evidence sample_tca ev0) = Some ev"
proof -
  have "cert_req_from_der sample_tca [1, 2] = Some [1, 2]"
    by (simp add: sample_tca_def)
  with oak_client_binds_csr_key [OF sample_tca_create sample_tca_issue [of "[]" "[1, 2]"]] show ?thesis
    by fastforce
qed

lemma tonic_network_error:
  "(\<exists>s. tonic_issue_certificate env endpoint tr request = Err (Network s)) \<longleftrightarrow>
     \<not> tca_connect env tr endpoint \<or> tca_issue env tr endpoint request = None"
  by (simp add: tonic_issue_certificate_def outcome_simps)

text \<open>C33: the Oak client reports a network error exactly when the CSR was readable and the evidence
  was obtained, and then the connection to the TCA or the TCA's issuance failed.\<close>

theorem oak_client_network_error:
  assumes "oak_tca_client_create env endpoint = Ok client"
  shows "(\<exists>s. client tr csr = Err (Network s)) \<longleftrightarrow>
    (\<exists>key evidence. csr_public_key_of env csr = Ok key \<and> oak_get_evidence env tr key = Ok evidence
      \<and> (\<not> tca_connect env tr endpoint
         \<or> tca_issue env tr endpoint
            \<lparr>certificate_signing_request = csr, attestation_evidence_of = Some evidence\<rparr> = None))"
proof -
  from assms have "client = standard_issue_certificate env (oak_get_evidence env)
      (tonic_issue_certificate env endpoint)"
    by (simp add: oak_tca_client_create_Ok)
  then show ?thesis
    unfolding tonic_network_error [symmetric] by (auto simp: oak_tca.network_error_is_transport)
qed

lemma oak_client_network_error_witness:
  "\<not> (\<exists>s. standard_issue_certificate sample_tca (oak_get_evidence sample_tca)
     (tonic_issue_certificate sample_tca ''http://tca'') [] [1] = Err (Network s))"
  using oak_client_network_error [OF sample_tca_create, of "[]" "[1]"]
  by (auto simp: sample_tca_def)

end
