(* ===== verification/Cert_Content.thy ===== *)
theory Cert_Content
  imports Cert_Authority
begin

text \<open>
  What an issued certificate holds.  A successful run of \<open>generate_certificate\<close> or \<open>new_root\<close> is
  shown to make exactly the calls written out here, in this order, each answered with success:
  these are the fields and extensions the signed certificate has, since nothing touches the
  certificate between the last of them and its signature.

  The second part is about the names in the certificates: which identities can share one.
\<close>

section \<open>The calls of a successful run\<close>

text \<open>The object that the next call of a trace would allocate.\<close>

abbreviation next_obj :: "trace \<Rightarrow> ptr" where
  "next_obj tr \<equiv> Obj (Suc (length tr))"

definition with_call :: "bssl_call \<Rightarrow> answer \<Rightarrow> trace \<Rightarrow> trace" where
  "with_call c r tr = tr @ [(c, r)]"

text \<open>An extension is created by \<open>c\<close>, added to the certificate and freed.\<close>

definition added :: "ptr \<Rightarrow> ptr \<Rightarrow> trace \<Rightarrow> trace" where
  "added x ext tr = tr @ [(X509_add_ext x ext, RInt 1), (Free X509_EXTENSION ext, RUnit)]"

definition with_ext :: "ptr \<Rightarrow> bssl_call \<Rightarrow> trace \<Rightarrow> trace" where
  "with_ext x c tr = added x (next_obj tr) (tr @ [(c, RPtr True)])"

definition with_random_serial :: "ptr \<Rightarrow> trace \<Rightarrow> trace" where
  "with_random_serial x tr =
     (let serial = Obj (length tr + 1); num = Obj (length tr + 2) in
      tr @ [(New ASN1_INTEGER, RPtr True), (New BIGNUM, RPtr True), (BN_rand num 152, RInt 1),
            (BN_to_ASN1_INTEGER num serial, RPtr True), (Free BIGNUM num, RUnit),
            (X509_set_serialNumber x serial, RInt 1), (Free ASN1_INTEGER serial, RUnit)])"

text \<open>The alternative name: one general name of the given kind, in a critical extension.\<close>

definition with_alt_name :: "ptr \<Rightarrow> gen_type \<Rightarrow> string \<Rightarrow> int \<Rightarrow> trace \<Rightarrow> trace" where
  "with_alt_name x kind v pushed tr =
     (let str = Obj (length tr + 1); gname = Obj (length tr + 3); names = Obj (length tr + 5);
          ext = Obj (length tr + 7) in
      added x ext
        (tr @ [(New ASN1_IA5STRING, RPtr True), (ASN1_STRING_set str (as_bytes v), RInt 1),
               (New GENERAL_NAME, RPtr True), (GENERAL_NAME_set0_value gname kind str, RUnit),
               (New GENERAL_NAMES, RPtr True), (Sk_GENERAL_NAME_push names gname, RInt pushed),
               (X509V3_EXT_i2d NID_subject_alt_name 1 names, RPtr True),
               (Free GENERAL_NAMES names, RUnit)]))"

definition with_extended_key_usage :: "ptr \<Rightarrow> certificate_profile \<Rightarrow> trace \<Rightarrow> trace" where
  "with_extended_key_usage x profile =
     (case profile of
        Mtls \<Rightarrow> with_ext x (X509V3_EXT_nconf_nid None NID_ext_key_usage ''serverAuth,clientAuth'')
      | Tls \<Rightarrow> with_ext x (X509V3_EXT_nconf_nid None NID_ext_key_usage ''serverAuth'')
      | _ \<Rightarrow> id)"

definition with_authority_key_identifier :: "ptr \<Rightarrow> bytes \<Rightarrow> trace \<Rightarrow> trace" where
  "with_authority_key_identifier x issuer_der tr =
     (let issuer = Obj (length tr + 1); ext = Obj (length tr + 2) in
      added x ext
        (tr @ [(D2i X509 issuer_der, RPtr True),
               (X509V3_EXT_nconf_nid (Some (issuer, x)) NID_authority_key_identifier ''keyid:always'',
                RPtr True),
               (Free X509 issuer, RUnit)]))"

definition alt_name :: "certificate_authority \<Rightarrow> provisioned_identity \<Rightarrow> gen_type \<times> string" where
  "alt_name ca i =
     (if certificate_profile i = Tls then (GEN_DNS, dns_name (trust_domain ca) i)
      else (GEN_URI, spiffe_id (trust_domain ca) i))"

definition leaf_fields :: "certificate_authority \<Rightarrow> provisioned_identity \<Rightarrow> int \<Rightarrow> ptr \<Rightarrow> trace \<Rightarrow> trace" where
  "leaf_fields ca i pushed x tr =
     with_call (ASN1_TIME_set_posix (Into x NotAfter) (not_after_sec i)) (RPtr True)
     (with_call (ASN1_TIME_set_posix (Into x NotBefore) (not_before_sec i)) (RPtr True)
     (with_authority_key_identifier x (hd (ca_cert_chain_der ca))
     (with_ext x (X509V3_EXT_nconf_nid None NID_key_usage ''critical,digitalSignature'')
     (with_ext x (X509V3_EXT_nconf_nid None NID_basic_constraints ''critical,CA:FALSE'')
     (with_extended_key_usage x (certificate_profile i)
     (with_alt_name x (fst (alt_name ca i)) (snd (alt_name ca i)) pushed
     (with_call (X509_set_pubkey x (public_key i)) (RInt 1)
     (with_call (X509_set_issuer_name x (guarded (issuer_name ca))) (RInt 1)
     (with_random_serial x
     (with_call (X509_set_version x 2) (RInt 1)
     (with_call (New X509) (RPtr True) tr)))))))))))"

definition signed_and_encoded :: "ptr \<Rightarrow> ptr \<Rightarrow> int \<Rightarrow> int \<Rightarrow> bytes \<Rightarrow> trace \<Rightarrow> trace" where
  "signed_and_encoded x key sig len bs tr =
     tr @ [(X509_sign x key, RInt sig), (I2d_len X509 x, RInt len), (I2d X509 x, RBytes (Some bs)),
           (Free X509 x, RUnit)]"

lemma add_ext_and_free_Ok:
  "run_state (add_ext_and_free w x ext m1 m2) tr = (Ok (), tr') \<Longrightarrow> ext \<noteq> Null \<and> tr' = added x ext tr"
  by (auto simp: add_ext_and_free_def added_def run_calls bail_def split: if_splits)

lemma nconf_ext_Ok:
  "run_state (do { ext \<leftarrow> call_ptr w c; add_ext_and_free w x ext m1 m2 }) tr = (Ok (), tr') \<Longrightarrow>
     tr' = with_ext x c tr"
  by (auto simp: run_calls with_ext_def dest!: add_ext_and_free_Ok split: if_splits)

lemma set_x509_version_Ok:
  "run_state (set_x509_version w x) tr = (Ok u, tr') \<Longrightarrow> tr' = with_call (X509_set_version x 2) (RInt 1) tr"
  by (auto simp: set_x509_version_def with_call_def run_calls bail_def split: if_splits)

lemma set_x509_serial_random_Ok:
  "run_state (set_x509_serial_random w x) tr = (Ok u, tr') \<Longrightarrow> tr' = with_random_serial x tr"
  by (auto simp: set_x509_serial_random_def with_random_serial_def run_calls bail_def Let_def
      split: if_splits)

lemma set_x509_basic_Ok:
  "run_state (set_x509_leaf_basic_constraints w x) tr = (Ok u, tr') \<Longrightarrow>
     tr' = with_ext x (X509V3_EXT_nconf_nid None NID_basic_constraints ''critical,CA:FALSE'') tr"
  "run_state (set_x509_ca_basic_constraints w x) tr = (Ok u, tr') \<Longrightarrow>
     tr' = with_ext x (X509V3_EXT_nconf_nid None NID_basic_constraints ''critical,CA:TRUE'') tr"
  "run_state (set_x509_key_usage w x) tr = (Ok u, tr') \<Longrightarrow>
     tr' = with_ext x (X509V3_EXT_nconf_nid None NID_key_usage ''critical,digitalSignature'') tr"
  "run_state (set_x509_subject_key_identifier w x) tr = (Ok u, tr') \<Longrightarrow>
     tr' = with_ext x (X509V3_EXT_nconf_nid (Some (x, x)) NID_subject_key_identifier ''hash'') tr"
  unfolding set_x509_leaf_basic_constraints_def set_x509_ca_basic_constraints_def set_x509_key_usage_def
    set_x509_subject_key_identifier_def
  by (auto dest!: nconf_ext_Ok simp del: run_state_bind)

lemma set_x509_extended_key_usage_Ok:
  assumes "run_state (set_x509_extended_key_usage w x profile) tr = (Ok u, tr')"
  shows "profile \<noteq> ProfileUnspecified \<and> tr' = with_extended_key_usage x profile tr"
  using assms unfolding set_x509_extended_key_usage_def bindE_run_Ok run_ret_Ok
  by (cases profile)
    (auto dest!: nconf_ext_Ok simp: with_extended_key_usage_def bail_def simp del: run_state_bind)

lemma set_x509_authority_key_identifier_Ok:
  "run_state (set_x509_authority_key_identifier w x der) tr = (Ok u, tr') \<Longrightarrow>
     tr' = with_authority_key_identifier x der tr"
  by (auto simp: set_x509_authority_key_identifier_def with_authority_key_identifier_def run_calls bail_def
      Let_def dest!: add_ext_and_free_Ok split: if_splits)

lemma set_x509_validity_timestamps_Ok:
  "run_state (set_x509_validity_timestamps w x nb na) tr = (Ok u, tr') \<Longrightarrow>
     tr' = with_call (ASN1_TIME_set_posix (Into x NotAfter) na) (RPtr True)
       (with_call (ASN1_TIME_set_posix (Into x NotBefore) nb) (RPtr True) tr)"
  by (auto simp: set_x509_validity_timestamps_def with_call_def run_calls bail_def split: if_splits)

lemma create_san_extension_from_str_Ok:
  assumes "run_state (create_san_extension_from_str w v kind) tr = (Ok ext, tr')"
  shows "\<exists>pushed. pushed \<noteq> 0 \<and> ext = Obj (length tr + 7) \<and> ext \<noteq> Null
    \<and> added x ext tr' = with_alt_name x kind v pushed tr"
  using assms
  by (auto simp: create_san_extension_from_str_def with_alt_name_def added_def run_calls bail_def Let_def
      eval_nat_numeral split: if_splits)

lemma create_san_extension_Ok:
  assumes "run_state (create_san_extension w ca i) tr = (Ok ext, tr')"
  shows "\<exists>pushed. pushed \<noteq> 0 \<and> ext \<noteq> Null
    \<and> added x ext tr' = with_alt_name x (fst (alt_name ca i)) (snd (alt_name ca i)) pushed tr"
  using assms create_san_extension_from_str_Ok [of w _ _ tr ext tr' x]
  by (fastforce simp: create_san_extension_def create_spiffe_extension_def create_dns_extension_def
      alt_name_def split: certificate_profile.splits)

lemma sign_x509_Ok:
  "run_state (sign_x509 w x k) tr = (Ok u, tr') \<Longrightarrow> \<exists>sig > 0. tr' = tr @ [(X509_sign x k, RInt sig)]"
  by (auto simp: sign_x509_def run_calls bail_def split: if_splits)

lemma x509_to_der_Ok:
  "run_state (x509_to_der w x) tr = (Ok der, tr') \<Longrightarrow>
     \<exists>len bs. 0 \<le> len \<and> der = filled len bs
       \<and> tr' = tr @ [(I2d_len X509 x, RInt len), (I2d X509 x, RBytes (Some bs))]"
  by (auto simp: x509_to_der_def run_calls bail_def split: if_splits option.splits)

section \<open>Issued certificates\<close>

text \<open>A call that is checked, with the clean-up of its failure.\<close>

lemma run_abort_Ok:
  "run_state (if b then do { _ \<leftarrow> m; fail s } else n) tr = (Ok a, tr') \<longleftrightarrow>
     \<not> b \<and> run_state n tr = (Ok a, tr')"
  "run_state (if b then do { _ \<leftarrow> m; _ \<leftarrow> m'; fail s } else n) tr = (Ok a, tr') \<longleftrightarrow>
     \<not> b \<and> run_state n tr = (Ok a, tr')"
  by (auto split: prod.splits)

lemma run_checked_Ok:
  "run_state (do { r \<leftarrow> call_int w c; if r \<noteq> 1 then do { _ \<leftarrow> m; fail s } else n }) tr = (Ok a, tr') \<longleftrightarrow>
     says_int w tr c = 1 \<and> run_state n (with_call c (RInt 1) tr) = (Ok a, tr')"
  "run_state (do { r \<leftarrow> call_int w c; if r \<noteq> 1 then do { _ \<leftarrow> m; _ \<leftarrow> m'; fail s } else n }) tr = (Ok a, tr') \<longleftrightarrow>
     says_int w tr c = 1 \<and> run_state n (with_call c (RInt 1) tr) = (Ok a, tr')"
  "run_state (do { p \<leftarrow> call_ptr w c; if p = Null then fail s else f p }) tr = (Ok a, tr') \<longleftrightarrow>
     says_ptr w tr c \<and> run_state (f (next_obj tr)) (with_call c (RPtr True) tr) = (Ok a, tr')"
  "run_state (do { p \<leftarrow> call_ptr w c; if p = Null then do { _ \<leftarrow> m; fail s } else f p }) tr = (Ok a, tr') \<longleftrightarrow>
     says_ptr w tr c \<and> run_state (f (next_obj tr)) (with_call c (RPtr True) tr) = (Ok a, tr')"
  "run_state (do { _ \<leftarrow> call_unit c; n }) tr = run_state n (with_call c RUnit tr)"
  by (auto simp: run_calls with_call_def split: prod.splits if_splits)

lemma run_case_chain_Ok:
  "run_state (case ds of [] \<Rightarrow> ret (Panicked s) | d # es \<Rightarrow> f d) tr = (Ok a, tr') \<longleftrightarrow>
     ds \<noteq> [] \<and> run_state (f (hd ds)) tr = (Ok a, tr')"
  by (cases ds) auto

lemma added_calls:
  "with_call (Free X509_EXTENSION e) RUnit (with_call (X509_add_ext x e) (RInt 1) tr) = added x e tr"
  by (simp add: with_call_def added_def)

lemma encoded_calls:
  "with_call (Free X509 x) RUnit
     ((tr @ [(X509_sign x k, RInt sig)]) @ [(I2d_len X509 x, RInt len), (I2d X509 x, RBytes (Some bs))]) =
   signed_and_encoded x k sig len bs tr"
  by (simp add: with_call_def signed_and_encoded_def)

lemma generate_certificate_Ok:
  assumes "run_state (generate_certificate w ca i) tr = (Ok der, tr')"
  shows "\<exists>pushed sig len bs. pushed \<noteq> 0 \<and> sig > 0 \<and> der = filled len bs
    \<and> certificate_profile i \<noteq> ProfileUnspecified
    \<and> tr' = signed_and_encoded (next_obj tr) (guarded (ca_key ca)) sig len bs
        (leaf_fields ca i pushed (next_obj tr) tr)"
proof -
  let ?x = "next_obj tr"
  obtain t1 t2 ext t3 t4 t5 t6 t7 t8 t9 t10 where
    "run_state (set_x509_version w ?x) (with_call (New X509) (RPtr True) tr) = (Ok (), t1)"
    "run_state (set_x509_serial_random w ?x) t1 = (Ok (), t2)"
    and san: "run_state (create_san_extension w ca i)
      (with_call (X509_set_pubkey ?x (public_key i)) (RInt 1)
      (with_call (X509_set_issuer_name ?x (guarded (issuer_name ca))) (RInt 1) t2)) = (Ok ext, t3)"
    and "run_state (set_x509_extended_key_usage w ?x (certificate_profile i))
      (with_call (Free X509_EXTENSION ext) RUnit (with_call (X509_add_ext ?x ext) (RInt 1) t3)) = (Ok (), t4)"
    "run_state (set_x509_leaf_basic_constraints w ?x) t4 = (Ok (), t5)"
    "run_state (set_x509_key_usage w ?x) t5 = (Ok (), t6)"
    "run_state (set_x509_authority_key_identifier w ?x (hd (ca_cert_chain_der ca))) t6 = (Ok (), t7)"
    "run_state (set_x509_validity_timestamps w ?x (not_before_sec i) (not_after_sec i)) t7 = (Ok (), t8)"
    "run_state (sign_x509 w ?x (guarded (ca_key ca))) t8 = (Ok (), t9)"
    "run_state (x509_to_der w ?x) t9 = (Ok der, t10)"
    "tr' = with_call (Free X509 ?x) RUnit t10"
    using assms
    unfolding generate_certificate_def or_cleanup_run_Ok run_case_chain_Ok run_ret_Ok run_checked_Ok
      run_abort_Ok
    by auto
  note steps = this
  from create_san_extension_Ok [OF san, of ?x] obtain pushed where
    pushed: "pushed \<noteq> 0" "added ?x ext t3 = with_alt_name ?x (fst (alt_name ca i)) (snd (alt_name ca i)) pushed
      (with_call (X509_set_pubkey ?x (public_key i)) (RInt 1)
      (with_call (X509_set_issuer_name ?x (guarded (issuer_name ca))) (RInt 1) t2))"
    by blast
  from sign_x509_Ok [OF steps(9)] obtain sig where sig: "sig > 0" "t9 = t8 @ [(X509_sign ?x (guarded (ca_key ca)), RInt sig)]"
    by blast
  from x509_to_der_Ok [OF steps(10)] obtain len bs where der: "der = filled len bs"
    "t10 = t9 @ [(I2d_len X509 ?x, RInt len), (I2d X509 ?x, RBytes (Some bs))]"
    by blast
  have t8: "t8 = leaf_fields ca i pushed ?x tr"
    using set_x509_version_Ok [OF steps(1)] set_x509_serial_random_Ok [OF steps(2)] pushed(2)
      set_x509_extended_key_usage_Ok [OF steps(4)] set_x509_basic_Ok(1) [OF steps(5)]
      set_x509_basic_Ok(3) [OF steps(6)] set_x509_authority_key_identifier_Ok [OF steps(7)]
      set_x509_validity_timestamps_Ok [OF steps(8)]
    by (simp add: leaf_fields_def added_calls)
  have "tr' = signed_and_encoded ?x (guarded (ca_key ca)) sig len bs t8"
    unfolding steps(11) der(2) sig(2) by (rule encoded_calls)
  with pushed(1) sig(1) der(1) set_x509_extended_key_usage_Ok [OF steps(4)] t8 show ?thesis
    by blast
qed

section \<open>The self-signed authority\<close>

definition root_fields :: "ptr \<Rightarrow> ptr \<Rightarrow> int \<Rightarrow> ptr \<Rightarrow> trace \<Rightarrow> trace" where
  "root_fields key name st x tr =
     with_ext x (X509V3_EXT_nconf_nid (Some (x, x)) NID_subject_key_identifier ''hash'')
     (with_ext x (X509V3_EXT_nconf_nid None NID_basic_constraints ''critical,CA:TRUE'')
     (with_call (X509_gmtime_adj (Into x NotAfter) (365 * 24 * 60 * 60)) (RPtr True)
     (with_call (X509_gmtime_adj (Into x NotBefore) 0) (RPtr True)
     (with_call (X509_set_pubkey x key) (RInt 1)
     (with_call (X509_set_issuer_name x name) (RInt 1)
     (with_call (X509_set_subject_name x name) (RInt 1)
     (with_call (Free ASN1_INTEGER (Obj (length tr + 3))) RUnit
     (with_call (X509_set_serialNumber x (Obj (length tr + 3))) (RInt 1)
     (with_call (ASN1_INTEGER_set (Obj (length tr + 3)) 1) (RInt st)
     (with_call (New ASN1_INTEGER) (RPtr True)
     (with_call (X509_set_version x 2) (RInt 1)
     (with_call (New X509) (RPtr True) tr))))))))))))"

lemma set_x509_validity_Ok:
  "run_state (set_x509_validity w x CERT_VALIDITY) tr = (Ok u, tr') \<Longrightarrow>
     tr' = with_call (X509_gmtime_adj (Into x NotAfter) (365 * 24 * 60 * 60)) (RPtr True)
       (with_call (X509_gmtime_adj (Into x NotBefore) 0) (RPtr True) tr)"
  by (auto simp: set_x509_validity_def with_call_def run_calls bail_def CERT_VALIDITY_def SEC_DAYS_def
      wrap_i64_def split: if_splits)

lemma run_unchecked:
  "run_state (do { _ \<leftarrow> call_int w c; n }) tr = run_state n (with_call c (RInt (says_int w tr c)) tr)"
  by (simp add: run_calls with_call_def)

lemma create_ca_x509_Ok:
  assumes "run_state (create_ca_x509 w key name) tr = (Ok x, tr')"
  shows "\<exists>st sig. sig > 0 \<and> x = next_obj tr \<and> tr' = root_fields key name st x tr @ [(X509_sign x key, RInt sig)]"
proof -
  let ?x = "next_obj tr" and ?n = "Obj (length tr + 3)"
  obtain t1 st t2 t3 t4 t5 where
    "run_state (set_x509_version w ?x) (with_call (New X509) (RPtr True) tr) = (Ok (), t1)"
    "run_state (set_x509_validity w ?x CERT_VALIDITY)
      (with_call (X509_set_pubkey ?x key) (RInt 1)
      (with_call (X509_set_issuer_name ?x name) (RInt 1)
      (with_call (X509_set_subject_name ?x name) (RInt 1)
      (with_call (Free ASN1_INTEGER (next_obj t1)) RUnit
      (with_call (X509_set_serialNumber ?x (next_obj t1)) (RInt 1)
      (with_call (ASN1_INTEGER_set (next_obj t1) 1) (RInt st)
      (with_call (New ASN1_INTEGER) (RPtr True) t1))))))) = (Ok (), t2)"
    "run_state (set_x509_ca_basic_constraints w ?x) t2 = (Ok (), t3)"
    "run_state (set_x509_subject_key_identifier w ?x) t3 = (Ok (), t4)"
    "run_state (sign_x509 w ?x key) t4 = (Ok (), t5)" "x = ?x" "tr' = t5"
    using assms
    unfolding create_ca_x509_def or_cleanup_run_Ok run_ret_Ok run_checked_Ok run_unchecked run_abort_Ok
    by auto
  note steps = this
  have t1: "t1 = with_call (X509_set_version ?x 2) (RInt 1) (with_call (New X509) (RPtr True) tr)"
    using steps(1) by (rule set_x509_version_Ok)
  then have "next_obj t1 = ?n"
    by (simp add: with_call_def)
  then have "t4 = root_fields key name st ?x tr"
    using set_x509_validity_Ok [OF steps(2)] set_x509_basic_Ok(2) [OF steps(3)]
      set_x509_basic_Ok(4) [OF steps(4)]
    by (simp add: root_fields_def t1 eval_nat_numeral)
  with sign_x509_Ok [OF steps(5)] steps(6,7) show ?thesis by blast
qed

lemma new_root_Ok:
  assumes "run_state (new_root w) tr = (Ok ca, tr')"
  shows "\<exists>key name tr1 st sig len bs. sig > 0 \<and> ca = mk_ca key name [filled len bs] SELF_SIGNED_TRUST_DOMAIN
    \<and> tr' = signed_and_encoded (next_obj tr1) key sig len bs (root_fields key name st (next_obj tr1) tr1)"
proof -
  obtain key name x t0 t1 t2 t3 der where
    "run_state (create_ca_keypair w) tr = (Ok key, t0)"
    "run_state (create_issuer_x509_name w ISSUER_NAME) t0 = (Ok name, t1)"
    "run_state (create_ca_x509 w key name) t1 = (Ok x, t2)"
    "run_state (x509_to_der w x) t2 = (Ok der, t3)"
    "tr' = with_call (Free X509 x) RUnit t3" "ca = mk_ca key name [der] SELF_SIGNED_TRUST_DOMAIN"
    using assms
    unfolding new_root_def or_cleanup_run_Ok bindE_run_Ok run_ret_Ok run_checked_Ok
    by auto
  note steps = this
  from create_ca_x509_Ok [OF steps(3)] obtain st sig where c: "sig > 0" "x = next_obj t1"
    "t2 = root_fields key name st x t1 @ [(X509_sign x key, RInt sig)]"
    by blast
  from x509_to_der_Ok [OF steps(4)] obtain len bs where der: "der = filled len bs"
    "t3 = t2 @ [(I2d_len X509 x, RInt len), (I2d X509 x, RBytes (Some bs))]"
    by blast
  have "tr' = signed_and_encoded x key sig len bs (root_fields key name st x t1)"
    unfolding steps(5) der(2) c(3) by (rule encoded_calls)
  with c(1,2) der(1) steps(6) show ?thesis by blast
qed

section \<open>Names\<close>

text \<open>
  A list is cut at its first separator; two lists built from separator-free parts agree part by part.
\<close>

lemma spiffe_prefix_inj:
  assumes "spiffe_id td i = spiffe_id td' i'"
    and "CHR ''/'' \<notin> set td" "CHR ''/'' \<notin> set td'"
    and "CHR ''/'' \<notin> set (operator_domain_of i)" "CHR ''/'' \<notin> set (operator_domain_of i')"
    and "CHR ''/'' \<notin> set (operator_role_of i)" "CHR ''/'' \<notin> set (operator_role_of i')"
  shows "td = td' \<and> operator_domain_of i = operator_domain_of i' \<and> operator_role_of i = operator_role_of i'
    \<and> publisher_domain_of i @ ''/'' @ publisher_role_of i @ ''/workload/'' @ workload_name_of i =
      publisher_domain_of i' @ ''/'' @ publisher_role_of i' @ ''/workload/'' @ workload_name_of i'"
proof -
  from assms(1) have "td @ CHR ''/'' # (''operator/'' @ operator_domain_of i @ ''/'' @ operator_role_of i
       @ ''/publisher/'' @ publisher_domain_of i @ ''/'' @ publisher_role_of i
       @ ''/workload/'' @ workload_name_of i) =
     td' @ CHR ''/'' # (''operator/'' @ operator_domain_of i' @ ''/'' @ operator_role_of i'
       @ ''/publisher/'' @ publisher_domain_of i' @ ''/'' @ publisher_role_of i'
       @ ''/workload/'' @ workload_name_of i')"
    by (simp add: spiffe_id_def)
  from append_sep_inj [OF assms(2,3) this] have td: "td = td'"
    and "operator_domain_of i @ CHR ''/'' # (operator_role_of i
       @ ''/publisher/'' @ publisher_domain_of i @ ''/'' @ publisher_role_of i
       @ ''/workload/'' @ workload_name_of i) =
     operator_domain_of i' @ CHR ''/'' # (operator_role_of i'
       @ ''/publisher/'' @ publisher_domain_of i' @ ''/'' @ publisher_role_of i'
       @ ''/workload/'' @ workload_name_of i')"
    by simp_all
  from append_sep_inj [OF assms(4,5) this(2)] have d: "operator_domain_of i = operator_domain_of i'"
    and "operator_role_of i @ CHR ''/'' # (''publisher/'' @ publisher_domain_of i @ ''/'' @ publisher_role_of i
       @ ''/workload/'' @ workload_name_of i) =
     operator_role_of i' @ CHR ''/'' # (''publisher/'' @ publisher_domain_of i' @ ''/'' @ publisher_role_of i'
       @ ''/workload/'' @ workload_name_of i')"
    by simp_all
  from append_sep_inj [OF assms(6,7) this(2)] td d show ?thesis
    by simp
qed

section \<open>Properties\<close>

text \<open>C4: a certificate that \<open>generate_certificate\<close> returns is the DER encoding of a fresh X.509
  object that was given, in this order and with every call reporting success: version 3, a random
  152-bit serial number, the authority's issuer name, the public key of the identity, one critical
  alternative name (the DNS name for a TLS profile, the SPIFFE ID otherwise), the extended key usage
  of the profile, CA:FALSE, the digital-signature key usage, the key identifier of the first
  certificate of the authority's chain and the validity of the identity, and was then signed with
  the authority's key; nothing else was added, and nothing after the signature.\<close>

theorem issued_certificate_content:
  assumes "run_state (generate_certificate w ca i) tr = (Ok der, tr')"
  shows "\<exists>pushed sig len bs. pushed \<noteq> 0 \<and> sig > 0 \<and> der = filled len bs
    \<and> certificate_profile i \<noteq> ProfileUnspecified
    \<and> tr' = signed_and_encoded (next_obj tr) (guarded (ca_key ca)) sig len bs
        (leaf_fields ca i pushed (next_obj tr) tr)"
  using assms by (rule generate_certificate_Ok)

definition sample_ca :: certificate_authority where
  "sample_ca = mk_ca (Obj 1) (Obj 2) [[1]] ''td.example''"

definition tls_identity :: provisioned_identity where
  "tls_identity = \<lparr>public_key = Obj 3, certificate_profile = Tls,
     operator_domain_of = ''prod.google.com'', operator_role_of = ''prober'',
     publisher_domain_of = ''google.com'', publisher_role_of = ''pcit-release-bot'',
     workload_name_of = ''w'', not_before_sec = 1000, not_after_sec = 5000\<rparr>"

lemma sample_issue:
  "\<exists>tr'. run_state (generate_certificate (obliging_world n) sample_ca tls_identity) tr = (Ok [1], tr')"
  by (simp add: generate_certificate_def sample_ca_def mk_ca_def tls_identity_def or_cleanup_def bindE_def
      run_calls set_x509_version_def set_x509_serial_random_def create_san_extension_def
      create_dns_extension_def create_san_extension_from_str_def set_x509_extended_key_usage_def
      add_ext_and_free_def set_x509_leaf_basic_constraints_def set_x509_key_usage_def
      set_x509_authority_key_identifier_def set_x509_validity_timestamps_def sign_x509_def
      x509_to_der_def filled_def)

lemma issued_certificate_content_witness:
  "\<exists>tr' pushed sig len bs. run_state (generate_certificate (obliging_world 0) sample_ca tls_identity) [] = (Ok [1], tr')
    \<and> tr' = signed_and_encoded (Obj 1) (Obj 1) sig len bs
        (leaf_fields sample_ca tls_identity pushed (Obj 1) [])"
proof -
  obtain tr' where "run_state (generate_certificate (obliging_world 0) sample_ca tls_identity) [] = (Ok [1], tr')"
    using sample_issue by blast
  moreover from issued_certificate_content [OF this] have "\<exists>pushed sig len bs.
      tr' = signed_and_encoded (Obj 1) (Obj 1) sig len bs (leaf_fields sample_ca tls_identity pushed (Obj 1) [])"
    by (auto simp: sample_ca_def mk_ca_def)
  ultimately show ?thesis by blast
qed

lemmas new_root_programs = new_root_def create_ca_keypair_def create_issuer_x509_name_def create_ca_x509_def
  set_x509_version_def set_x509_validity_def set_x509_ca_basic_constraints_def
  set_x509_subject_key_identifier_def sign_x509_def x509_to_der_def add_ext_and_free_def key_pair_drop_def

lemma sample_new_root:
  "\<exists>ca tr'. run_state (new_root (obliging_world n)) tr = (Ok ca, tr') \<and> ca_cert_chain_der ca = [[1]]"
  by (simp add: new_root_programs bindE_def or_cleanup_def run_calls mk_ca_def filled_def ISSUER_NAME_def)

text \<open>C28: no two operators share a SPIFFE ID.  Two identities with validated operators, certified under
  trust domains without a slash, have the same SPIFFE ID only if the trust domain, the operator
  domain and the operator role are the same; if moreover no publisher domain or role holds a slash,
  only if publisher and workload are the same too.\<close>

theorem spiffe_id_identifies:
  assumes "spiffe_id td i = spiffe_id td' i'"
    and "valid_operator_info \<lparr>oi_domain = operator_domain_of i, oi_role = operator_role_of i\<rparr>"
    and "valid_operator_info \<lparr>oi_domain = operator_domain_of i', oi_role = operator_role_of i'\<rparr>"
    and "valid_trust_domain td" and "valid_trust_domain td'"
  shows "td = td' \<and> operator_domain_of i = operator_domain_of i' \<and> operator_role_of i = operator_role_of i'
    \<and> (CHR ''/'' \<notin> set (publisher_domain_of i @ publisher_role_of i @ publisher_domain_of i' @ publisher_role_of i')
       \<longrightarrow> publisher_domain_of i = publisher_domain_of i' \<and> publisher_role_of i = publisher_role_of i'
         \<and> workload_name_of i = workload_name_of i')"
proof -
  have op: "CHR ''/'' \<notin> set (operator_domain_of i)" "CHR ''/'' \<notin> set (operator_domain_of i')"
    "CHR ''/'' \<notin> set (operator_role_of i)" "CHR ''/'' \<notin> set (operator_role_of i')"
    using assms(2,3) valid_domain_no_slash valid_label_chars
    by (auto simp: valid_operator_info_def)
  have td: "CHR ''/'' \<notin> set td" "CHR ''/'' \<notin> set td'"
    using assms(4,5) by (auto simp: valid_trust_domain_def)
  note parts = spiffe_prefix_inj [OF assms(1) td op]
  have "publisher_domain_of i = publisher_domain_of i' \<and> publisher_role_of i = publisher_role_of i'
         \<and> workload_name_of i = workload_name_of i'"
    if slash: "CHR ''/'' \<notin> set (publisher_domain_of i @ publisher_role_of i @ publisher_domain_of i' @ publisher_role_of i')"
  proof -
    have 1: "publisher_domain_of i @ CHR ''/'' # (publisher_role_of i @ ''/workload/'' @ workload_name_of i) =
        publisher_domain_of i' @ CHR ''/'' # (publisher_role_of i' @ ''/workload/'' @ workload_name_of i')"
      using parts by simp
    have d: "publisher_domain_of i = publisher_domain_of i'" and
      "publisher_role_of i @ CHR ''/'' # (''workload/'' @ workload_name_of i) =
        publisher_role_of i' @ CHR ''/'' # (''workload/'' @ workload_name_of i')"
      using append_sep_inj [OF _ _ 1] slash by auto
    from append_sep_inj [OF _ _ this(2)] slash d show ?thesis by auto
  qed
  with parts show ?thesis by blast
qed

lemma sample_operator_valid:
  "valid_operator_info \<lparr>oi_domain = ''prod.google.com'', oi_role = ''prober''\<rparr>"
  by (simp add: valid_operator_info_def valid_domain_def valid_label_def ident_char_def)

lemma spiffe_id_identifies_witness:
  "spiffe_id ''td.example'' tls_identity = spiffe_id ''td.example'' tls_identity
    \<and> operator_role_of tls_identity = ''prober''"
  using spiffe_id_identifies [of "''td.example''" tls_identity "''td.example''" tls_identity]
    sample_operator_valid
  by (simp add: tls_identity_def valid_trust_domain_def is_ascii_graphic_def)

text \<open>No two operators share a DNS name under one authority: with the trust domain fixed, the DNS
  name of a validated operator determines its role and its domain.\<close>

lemma dns_name_identifies:
  assumes "dns_name td i = dns_name td i'"
    and "valid_operator_info \<lparr>oi_domain = operator_domain_of i, oi_role = operator_role_of i\<rparr>"
    and "valid_operator_info \<lparr>oi_domain = operator_domain_of i', oi_role = operator_role_of i'\<rparr>"
  shows "operator_domain_of i = operator_domain_of i' \<and> operator_role_of i = operator_role_of i'"
proof -
  have dot: "CHR ''.'' \<notin> set (operator_role_of i)" "CHR ''.'' \<notin> set (operator_role_of i')"
    using assms(2,3) valid_label_chars by (auto simp: valid_operator_info_def)
  have "operator_role_of i @ CHR ''.'' # (operator_domain_of i @ ''.'' @ td) =
      operator_role_of i' @ CHR ''.'' # (operator_domain_of i' @ ''.'' @ td)"
    using assms(1) by (simp add: dns_name_def)
  from append_sep_inj [OF dot this] show ?thesis by simp
qed

text \<open>Issuing leaves nothing behind: with a well-formed authority and a live key,
  \<open>generate_certificate\<close> frees every object it creates exactly once on every path, uses none after it
  is freed, leaves the authority and the key alive, and does not panic, whatever the library
  answers.\<close>

lemma generate_certificate_tidy:
  assumes "ca_wf ca" and "ca_objects ca \<subseteq> S" and "root (public_key i) \<in> S"
  shows "tidy S (generate_certificate w ca i)"
proof -
  from assms(1) obtain d ds where "ca_cert_chain_der ca = d # ds"
    by (cases "ca_cert_chain_der ca") (auto simp: ca_wf_def)
  with assms show ?thesis
    by (intro tidy_generate_certificate) (auto simp: ca_wf_def ca_objects_def)
qed

lemma create_ca_keypair_runs:
  assumes "run_state (create_ca_keypair w) tr = (r, tr')"
  shows "let R = Obj (Suc (length tr)); B = Obj (Suc (Suc (length tr)));
       K = Obj (Suc (Suc (Suc (Suc (Suc (Suc (length tr)))))));
       begun = [(New RSA, RPtr True), (New BIGNUM, RPtr True)];
       generated = begun @ [(BN_set_word B 65537, RInt 1), (RSA_generate_key_ex R 2048 B, RInt 1),
         (Free BIGNUM B, RUnit)]
     in (\<exists>e. r = Err e \<and> tr' = tr @ [(New RSA, RPtr False)])
      \<or> (\<exists>e. r = Err e \<and> tr' = tr @ [(New RSA, RPtr True), (New BIGNUM, RPtr False), (Free RSA R, RUnit)])
      \<or> (\<exists>e i. r = Err e \<and> tr' = tr @ begun @
           [(BN_set_word B 65537, RInt i), (Free BIGNUM B, RUnit), (Free RSA R, RUnit)])
      \<or> (\<exists>e i. r = Err e \<and> tr' = tr @ begun @
           [(BN_set_word B 65537, RInt 1), (RSA_generate_key_ex R 2048 B, RInt i),
            (Free BIGNUM B, RUnit), (Free RSA R, RUnit)])
      \<or> (\<exists>e. r = Err e \<and> tr' = tr @ generated @ [(New EVP_PKEY, RPtr False), (Free RSA R, RUnit)])
      \<or> (\<exists>e i. r = Err e \<and> i \<noteq> 1 \<and> tr' = tr @ generated @
           [(New EVP_PKEY, RPtr True), (EVP_PKEY_assign_RSA K R, RInt i), (Free EVP_PKEY K, RUnit)])
      \<or> (r = Ok K \<and> tr' = tr @ generated @
           [(New EVP_PKEY, RPtr True), (EVP_PKEY_assign_RSA K R, RInt 1)])"
  using assms unfolding create_ca_keypair_def Let_def
  by (simp add: run_calls bail_def split: if_splits) ((elim conjE)?, hypsubst, simp)+

text \<open>C39: what \<open>create_ca_keypair\<close> leaves behind, whatever the library answers.  When its call to
  \<open>EVP_PKEY_assign_RSA\<close> fails, it returns an error and the RSA object, which it made itself and which the
  call takes over only on success, stays allocated with nobody left to free it.  In every other run
  nothing is left but the key that is returned.\<close>

theorem create_ca_keypair_leaks_rsa:
  assumes "run_state (create_ca_keypair w) tr = (r, tr')"
  shows "(\<forall>key rsa i. (EVP_PKEY_assign_RSA key rsa, RInt i) \<in> set (drop (length tr) tr') \<and> i \<noteq> 1 \<longrightarrow>
      (\<exists>e. r = Err e) \<and> rsa \<notin> owned (ownership tr)
      \<and> owned (ownership tr') = insert rsa (owned (ownership tr)))
    \<and> ((\<forall>key rsa i. (EVP_PKEY_assign_RSA key rsa, RInt i) \<in> set (drop (length tr) tr') \<longrightarrow> i = 1) \<longrightarrow>
      owned (ownership tr') = owned (ownership tr) \<union> (case r of Ok key \<Rightarrow> {key} | _ \<Rightarrow> {}))"
proof -
  have fresh: "Obj n \<notin> owned (ownership tr)" if "length tr < n" for n
    using owned_old [of "Obj n" tr] that by auto
  note ledger = ownership_append ticks_ownership allocates_def consumes_def fresh insert_Diff_if
  from create_ca_keypair_runs [OF assms] show ?thesis
    unfolding Let_def by (elim disjE exE conjE) (simp_all add: ledger insert_commute)
qed

definition assign_fails_world :: world where
  "assign_fails_world = (obliging_world 0)\<lparr>says_int := (\<lambda>_ c. case c of EVP_PKEY_assign_RSA _ _ \<Rightarrow> 0 | _ \<Rightarrow> 1)\<rparr>"

lemma create_ca_keypair_leaks_rsa_witness:
  "\<exists>e tr'. run_state (create_ca_keypair assign_fails_world) [] = (Err e, tr')
     \<and> owned (ownership tr') = {Obj 1}"
proof -
  obtain e tr' where run: "run_state (create_ca_keypair assign_fails_world) [] = (Err e, tr')"
    and call: "(EVP_PKEY_assign_RSA (Obj 6) (Obj 1), RInt 0) \<in> set (drop (length ([] :: trace)) tr')"
    by (simp add: create_ca_keypair_def run_calls assign_fails_world_def obliging_world_def bail_def)
  from create_ca_keypair_leaks_rsa [OF run, THEN conjunct1, rule_format, of "Obj 6" "Obj 1" 0] call
  have "owned (ownership tr') = {Obj 1}"
    by (simp add: own_init_def)
  with run show ?thesis by blast
qed

text \<open>C29: the trust domain of an intermediate authority comes from the one SPIFFE URI of its
  certificate: whatever the bytes of the alternative name, a trust domain that is returned is
  non-empty, printable ASCII and free of slashes, so it is fit for the names in issued
  certificates, and the function does not panic.\<close>

theorem extracted_trust_domain_valid:
  "case extract_spiffe_trust_domain bs of
     Ok td \<Rightarrow> valid_trust_domain td
   | Err e \<Rightarrow> True
   | Panicked s \<Rightarrow> False"
  using extract_spiffe_trust_domain_no_panic [of bs] extract_spiffe_trust_domain_valid [of bs]
  by (auto split: outcome.split)

end
