(* ===== verification/Avs_Server.thy ===== *)
theory Avs_Server
  imports Csr_Validation Tca_Client Cert_Content
begin

text \<open>
  The gRPC service of \<open>avs_server/src/server.rs\<close>: resolution of the policy selector, the unary
  handler, the streaming handler as a state machine over the incoming messages, and key generation.
  A handler's result is a response or a status.

  The streaming handler is split at its two \<open>await\<close>s on the request stream.  The task's end of the
  response channel may find the receiver gone; what is sent then is lost, and the task stops where
  the code looks at the result of the send.
\<close>

section \<open>Policy selection\<close>

fun resolve_legacy_hint :: "policy_hint \<Rightarrow> string \<Rightarrow> (anyhow, string \<times> certificate_profile) outcome" where
  "resolve_legacy_hint HintUnspecified role =
     bail ''cannot resolve policy name for POLICY_HINT_UNSPECIFIED''"
| "resolve_legacy_hint EzEnforcerCbCertificate role =
     (if role = ''prober'' \<or> role = ''prober-staging'' then Ok (''prober_ez'', Mtls)
      else if role = ''pa-frontend-nonprod'' then Ok (''pa-frontend-nonprod'', Mtls)
      else Ok (''encrypted_zone'', Mtls))"
| "resolve_legacy_hint EzTsmCbFrontendCertificate role =
     (if role = ''pa-frontend-nonprod'' then Ok (''pa-frontend-nonprod'', Tls)
      else Ok (''encrypted_zone'', Tls))"
| "resolve_legacy_hint ProberCbCertificate role = Ok (''prober'', Unrestricted)"
| "resolve_legacy_hint DevelopmentCbCertificate role = Ok (''development'', Unrestricted)"
| "resolve_legacy_hint DevelopmentMtlsCbCertificate role = Ok (''development'', Mtls)"
| "resolve_legacy_hint DevelopmentTlsCbCertificate role = Ok (''development'', Tls)"

definition resolve_policy_request ::
  "selector option \<Rightarrow> string \<Rightarrow> (grpc_status, string \<times> certificate_profile) outcome" where
  "resolve_policy_request sel role =
     (case sel of
        None \<Rightarrow> Err (Status InvalidArgument (Text
          ''a policy selector is required: set `certification_parameters` (or the deprecated `policy_hint`)''))
      | Some (CertificationParameters params) \<Rightarrow>
          if param_policy_name params = [] then
            Err (Status InvalidArgument (Text ''`policy_name` must not be empty''))
          else
            let profile = unwrap_or ProfileUnspecified
              (certificate_profile_try_from (param_certificate_profile params)) in
            if profile = ProfileUnspecified then
              Err (Status InvalidArgument (Text
                ''`certificate_profile` is required when `policy_name` is specified''))
            else Ok (param_policy_name params, profile)
      | Some (PolicyHintSelector n) \<Rightarrow>
          let hint = unwrap_or HintUnspecified (policy_hint_try_from n) in
          map_err (\<lambda>e. Status InvalidArgument (TextDebug [] e)) (resolve_legacy_hint hint role))"

section \<open>The service\<close>

record avs_service =
  service_tca_client :: "tca_client option"
  service_ca :: "certificate_authority option"
  service_policies_config :: policies_config

definition service_new :: "tca_client option \<Rightarrow> avs_service" where
  "service_new tca =
     \<lparr>service_tca_client = tca, service_ca = None, service_policies_config = policies_config_default\<rparr>"

definition service_new_with_policies_config :: "tca_client option \<Rightarrow> policies_config \<Rightarrow> avs_service" where
  "service_new_with_policies_config tca config =
     \<lparr>service_tca_client = tca, service_ca = None, service_policies_config = config\<rparr>"

definition get_ca_certificate_chain :: "avs_service \<Rightarrow> bytes list option" where
  "get_ca_certificate_chain svc = map_option get_ca_cert_chain_der (service_ca svc)"

definition not_initialized :: grpc_status where
  "not_initialized = Status FailedPrecondition (Text
     ''certificate authority has not been initialized; call GenerateAvsSigningKey first'')"

definition operator_status :: "operator_info_error \<Rightarrow> grpc_status" where
  "operator_status e = Status InvalidArgument (Text (operator_info_error_message e))"

text \<open>Issuing for a validated identity; the identity is dropped when the handler returns.\<close>

definition issue_response ::
  "world \<Rightarrow> certificate_authority \<Rightarrow> provisioned_identity \<Rightarrow> tlog_verification_results list \<Rightarrow>
     (grpc_status, certify_attestation_response) outcome ffi" where
  "issue_response w ca identity tlogs = do {
     r \<leftarrow> generate_certificate w ca identity;
     _ \<leftarrow> key_pair_drop (public_key identity);
     ret (map_ok (\<lambda>cert. \<lparr>certificate_chain = cert # get_ca_cert_chain_der ca,
                          tlog_verification_results = tlogs\<rparr>)
            (map_err (\<lambda>e. Status Internal (TextDebug ''Failed to generate certificate: '' e)) r))
   }"

definition certify_attestation ::
  "world \<Rightarrow> oak_library \<Rightarrow> build \<Rightarrow> avs_service \<Rightarrow> certify_attestation_request \<Rightarrow>
     (grpc_status, certify_attestation_response) outcome ffi" where
  "certify_attestation w oak b svc req =
     bindE (liftE (ok_or not_initialized (service_ca svc))) (\<lambda>ca.
     bindE (liftE (ok_or (Status FailedPrecondition (Text ''request is missing `evidence`''))
       (req_evidence req))) (\<lambda>ev.
     bindE (liftE (ok_or (Status FailedPrecondition (Text ''request is missing `endorsements`''))
       (req_endorsements req))) (\<lambda>en.
     bindE (liftE (ok_or (Status InvalidArgument (Text ''request is missing `operator_info`''))
       (req_operator_info req))) (\<lambda>proto.
     bindE (liftE (map_err operator_status (operator_info_try_from proto))) (\<lambda>info.
     bindE (liftE (resolve_policy_request (req_selector req) (oi_role info))) (\<lambda>(name, profile).
     bindE (do {
       r \<leftarrow> validate_csr_request w oak b (req_csr req) ev en None name profile info
         (service_policies_config svc);
       ret (map_err (\<lambda>e. Status FailedPrecondition (TextDebug [] e)) r) }) (\<lambda>(identity, tlogs).
     issue_response w ca identity tlogs)))))))"

section \<open>The streaming handler\<close>

datatype incoming = Received "stream_request option" | StreamError string | EndOfStream

type_synonym outgoing = "(grpc_status, stream_response) outcome"

datatype stream_state =
    AwaitChallenge (stream_ca: certificate_authority)
  | AwaitFinish (stream_ca: certificate_authority) (stream_nonce: bytes)
  | Finished

definition certify_attestation_stream :: "avs_service \<Rightarrow> (grpc_status, stream_state) outcome" where
  "certify_attestation_stream svc = map_ok AwaitChallenge (ok_or not_initialized (service_ca svc))"

text \<open>Taking the next message off the stream: the expected one, or the status that is sent instead.\<close>

definition expect_message ::
  "string \<Rightarrow> (stream_request \<Rightarrow> 'a option) \<Rightarrow> incoming \<Rightarrow> (grpc_status, 'a) outcome" where
  "expect_message expected accept item =
     (case item of
        StreamError e \<Rightarrow> Err (Status Internal (TextDebugStatus ''Stream error: '' e))
      | EndOfStream \<Rightarrow> Err (Status InvalidArgument (Text expected))
      | Received None \<Rightarrow> Err (Status InvalidArgument (Text expected))
      | Received (Some req) \<Rightarrow> ok_or (Status InvalidArgument (Text expected)) (accept req))"

fun as_challenge_request :: "stream_request \<Rightarrow> unit option" where
  "as_challenge_request ChallengeRequest = Some ()"
| "as_challenge_request (CertifyRequest r) = None"

fun as_certify_request :: "stream_request \<Rightarrow> certify_attestation_request option" where
  "as_certify_request ChallengeRequest = None"
| "as_certify_request (CertifyRequest r) = Some r"

text \<open>
  A buffer of 32 zero bytes handed to \<open>RAND_bytes\<close>, whose result is not looked at.
\<close>

definition generate_nonce :: "world \<Rightarrow> bytes ffi" where
  "generate_nonce w = do {
     written \<leftarrow> call_bytes w (RAND_bytes 32);
     ret (case written of None \<Rightarrow> replicate 32 0 | Some bs \<Rightarrow> filled 32 bs)
   }"

definition certify_finish ::
  "world \<Rightarrow> oak_library \<Rightarrow> build \<Rightarrow> policies_config \<Rightarrow> certificate_authority \<Rightarrow> bytes \<Rightarrow>
     certify_attestation_request \<Rightarrow> (grpc_status, certify_attestation_response) outcome ffi" where
  "certify_finish w oak b config ca nonce req =
     bindE (liftE (ok_or (Status InvalidArgument (Text ''missing evidence'')) (req_evidence req))) (\<lambda>ev.
     bindE (liftE (ok_or (Status InvalidArgument (Text ''missing endorsements'')) (req_endorsements req))) (\<lambda>en.
     bindE (liftE (ok_or (Status InvalidArgument (Text ''missing operator_info'')) (req_operator_info req))) (\<lambda>proto.
     bindE (liftE (map_err operator_status (operator_info_try_from proto))) (\<lambda>info.
     bindE (liftE (resolve_policy_request (req_selector req) (oi_role info))) (\<lambda>(name, profile).
     bindE (do {
       r \<leftarrow> validate_csr_request w oak b (req_csr req) ev en (Some nonce) name profile info config;
       ret (map_err (\<lambda>e. Status FailedPrecondition (TextDebug ''Validation failed: '' e)) r) })
       (\<lambda>(identity, tlogs).
     issue_response w ca identity tlogs))))))"

text \<open>
  One turn of the task: the item that arrives, and whether the receiver of the responses is still
  there when the task sends.  The result is the next state and what the receiver gets.
\<close>

fun stream_step ::
  "world \<Rightarrow> oak_library \<Rightarrow> build \<Rightarrow> policies_config \<Rightarrow> stream_state \<Rightarrow> incoming \<Rightarrow> bool \<Rightarrow>
     (stream_state \<times> outgoing list) ffi" where
  "stream_step w oak b config (AwaitChallenge ca) item alive =
     (case expect_message ''Expected challenge_request'' as_challenge_request item of
        Ok _ \<Rightarrow> do {
          nonce \<leftarrow> generate_nonce w;
          ret (if alive then (AwaitFinish ca nonce, [Ok (ChallengeResponse nonce)]) else (Finished, []))
        }
      | Err e \<Rightarrow> ret (Finished, if alive then [Err e] else [])
      | Panicked s \<Rightarrow> ret (Finished, []))"
| "stream_step w oak b config (AwaitFinish ca nonce) item alive =
     (case expect_message ''Expected finish request'' as_certify_request item of
        Ok req \<Rightarrow> do {
          r \<leftarrow> certify_finish w oak b config ca nonce req;
          ret (Finished, case r of
              Ok reply \<Rightarrow> if alive then [Ok (CertifyResponse reply)] else []
            | Err e \<Rightarrow> if alive then [Err e] else []
            | Panicked s \<Rightarrow> [])
        }
      | Err e \<Rightarrow> ret (Finished, if alive then [Err e] else [])
      | Panicked s \<Rightarrow> ret (Finished, []))"
| "stream_step w oak b config Finished item alive = ret (Finished, [])"

section \<open>Key generation\<close>

text \<open>\<open>downcast_ref\<close> finds the typed error at the root of the context chain.\<close>

fun downcast_certificate_error :: "anyhow \<Rightarrow> certificate_error option" where
  "downcast_certificate_error (Msg s) = None"
| "downcast_certificate_error (CertErr e) = Some e"
| "downcast_certificate_error (Context s e) = downcast_certificate_error e"

definition map_tca_error :: "anyhow \<Rightarrow> grpc_status" where
  "map_tca_error e =
     (case downcast_certificate_error e of
        Some (Network msg) \<Rightarrow> Status Unavailable (Text msg)
      | Some cert_err \<Rightarrow> Status Internal (TextDebugCert ''TCA Error: '' cert_err)
      | None \<Rightarrow>
          Status Internal (TextDebug ''Failed to create intermediate certificate authority: '' e))"

definition create_authority ::
  "world \<Rightarrow> tca_client option \<Rightarrow> (grpc_status, certificate_authority) outcome ffi" where
  "create_authority w tca =
     (case tca of
        Some client \<Rightarrow> do {
          r \<leftarrow> new_intermediate w client;
          ret (map_err map_tca_error r)
        }
      | None \<Rightarrow> do {
          r \<leftarrow> new_root w;
          ret (map_err (\<lambda>e. Status Internal
            (TextDebug ''Failed to create root certificate authority: '' e)) r)
        })"

definition install_authority :: "certificate_authority \<Rightarrow> avs_service \<Rightarrow> avs_service" where
  "install_authority ca svc = svc\<lparr>service_ca := Some ca\<rparr>"

definition generate_avs_signing_key ::
  "world \<Rightarrow> avs_service \<Rightarrow>
     (grpc_status, generate_avs_signing_key_response \<times> avs_service) outcome ffi" where
  "generate_avs_signing_key w svc =
     bindE (create_authority w (service_tca_client svc)) (\<lambda>new_ca.
     let chain = get_ca_cert_chain_der new_ca in
     ret (Ok (\<lparr>new_certificate_chain = chain\<rparr>, install_authority new_ca svc)))"

section \<open>What the handlers rely on\<close>

text \<open>
  The interface of an issuer: as long as the issuer is well-formed and its objects are alive,
  issuing for a live key leaves the ownership as it was.  The handlers validate, issue, and drop the
  key; that they leave nothing behind is proved once from this law.
\<close>

locale issuer =
  fixes issue :: "'ca \<Rightarrow> 'id \<Rightarrow> (anyhow, bytes) outcome ffi"
    and wf :: "'ca \<Rightarrow> bool"
    and held :: "'ca \<Rightarrow> ptr set"
    and key_of :: "'id \<Rightarrow> ptr"
  assumes issue_tidy:
    "wf ca \<Longrightarrow> held ca \<subseteq> S \<Longrightarrow> root (key_of i) \<in> S \<Longrightarrow> tidy S (issue ca i)"
begin

lemma issue_then_drop:
  assumes "wf ca" "held ca \<subseteq> S"
    and "key_of i \<noteq> Null" "root (key_of i) = key_of i" "key_of i \<notin> S"
    and "\<And>r. panics (f r) = panics r"
  shows "owns (insert (key_of i) S)
    (do { r \<leftarrow> issue ca i; _ \<leftarrow> key_pair_drop (key_of i); ret (f r) })
    (\<lambda>r S'. S' = S \<and> \<not> panics r)"
proof (rule owns_bind)
  show "owns (insert (key_of i) S) (issue ca i) (\<lambda>r S'. S' = insert (key_of i) S \<and> \<not> panics r)"
    using issue_tidy [of ca "insert (key_of i) S" i] assms(1,2,4) by (auto simp: tidy_def)
next
  fix r :: "(anyhow, bytes) outcome" and S'
  assume "S' = insert (key_of i) S \<and> \<not> panics r"
  then show "owns S' (do { _ \<leftarrow> key_pair_drop (key_of i); ret (f r) }) (\<lambda>r S'. S' = S \<and> \<not> panics r)"
    using assms(3-6) unfolding key_pair_drop_def
    by (intro ffi_wp) (auto simp: call_contracts)
qed

lemma validate_then_issue:
  assumes ca: "wf ca" "held ca \<subseteq> S"
    and v: "gives S v (\<lambda>a. key_of (fst a))"
    and f: "\<And>t r. panics (f t r) = panics r"
  shows "tidy S (bindE (do { r \<leftarrow> v; ret (map_err g r) })
    (\<lambda>(i, t). do { r \<leftarrow> issue ca i; _ \<leftarrow> key_pair_drop (key_of i); ret (f t r) }))"
proof -
  have "gives S (do { r \<leftarrow> v; ret (map_err g r) }) (\<lambda>a. key_of (fst a))"
    unfolding gives_def
    by (rule owns_bind [OF v [unfolded gives_def]]) (auto intro!: owns_return split: outcome.splits)
  then show ?thesis
    unfolding tidy_def
    by (rule gives_bindE) (auto split: prod.split intro!: issue_then_drop [OF ca] simp: f)
qed

end

interpretation avs_issuer: issuer "generate_certificate w" ca_wf ca_objects public_key for w
proof
  fix ca S and i :: provisioned_identity
  assume "ca_wf ca" "ca_objects ca \<subseteq> S" "root (public_key i) \<in> S"
  moreover from \<open>ca_wf ca\<close> obtain d ds where "ca_cert_chain_der ca = d # ds"
    by (cases "ca_cert_chain_der ca") (auto simp: ca_wf_def)
  ultimately show "tidy S (generate_certificate w ca i)"
    by (intro tidy_generate_certificate) (auto simp: ca_wf_def ca_objects_def)
qed

lemma resolve_policy_request_returns: "\<not> panics (resolve_policy_request sel role)"
proof -
  have "\<not> panics (resolve_legacy_hint h r)" for h r
    by (cases h) simp_all
  then show ?thesis
    by (simp add: resolve_policy_request_def Let_def split: option.split selector.split)
qed

lemma operator_info_try_from_returns: "\<not> panics (operator_info_try_from p)"
proof -
  have labels: "\<not> panics (validate_labels ls)" for ls
    by (induction ls) (simp_all split: option.split)
  have "\<not> panics (validate_domain d)" "\<not> panics (validate_role r)" for d r
    by (simp_all add: validate_domain_def validate_role_def labels split: option.split)
  then show ?thesis
    by (simp add: operator_info_try_from_def operator_info_new_def panics_bind)
qed

section \<open>Ownership of the handlers\<close>

lemma tidy_bindE_liftE:
  "\<not> panics r \<Longrightarrow> (\<And>a. r = Ok a \<Longrightarrow> tidy S (f a)) \<Longrightarrow> tidy S (bindE (liftE r) f)"
  unfolding tidy_def by (rule owns_bindE_liftE) auto

lemma tidy_validate_and_issue:
  assumes "oak_answers oak" and "policy_bundle_decode b (POLICY_BUNDLE b) \<noteq> None"
    and "ca_wf ca" "ca_objects ca \<subseteq> S"
  shows "tidy S (bindE (do {
       r \<leftarrow> validate_csr_request w oak b csr ev en nonce name profile info config;
       ret (map_err g r) }) (\<lambda>(identity, tlogs). issue_response w ca identity tlogs))"
  unfolding issue_response_def
  using assms(3,4) gives_validate_csr_request [OF assms(1,2)]
  by (rule avs_issuer.validate_then_issue) simp

text \<open>The libraries behind the service behave: none of them panics, and the bundle decodes.\<close>

definition environment_ok :: "oak_library \<Rightarrow> build \<Rightarrow> bool" where
  "environment_ok oak b \<longleftrightarrow> oak_answers oak \<and> policy_bundle_decode b (POLICY_BUNDLE b) \<noteq> None"

lemma tidy_certify_finish:
  assumes "environment_ok oak b" and "ca_wf ca" "ca_objects ca \<subseteq> S"
  shows "tidy S (certify_finish w oak b config ca nonce req)"
  unfolding certify_finish_def
  using assms
  by (intro tidy_bindE_liftE)
    (auto simp: environment_ok_def operator_info_try_from_returns resolve_policy_request_returns
      intro!: tidy_validate_and_issue split: prod.split)

lemma tidy_certify_attestation:
  assumes "environment_ok oak b"
    and "\<And>ca. service_ca svc = Some ca \<Longrightarrow> ca_wf ca \<and> ca_objects ca \<subseteq> S"
  shows "tidy S (certify_attestation w oak b svc req)"
  unfolding certify_attestation_def
  using assms
  by (intro tidy_bindE_liftE)
    (auto simp: outcome_simps environment_ok_def operator_info_try_from_returns
      resolve_policy_request_returns intro!: tidy_validate_and_issue split: prod.split)

lemma gives_ca_create_authority:
  assumes "assign_rsa_succeeds w" and "\<And>client. tca = Some client \<Longrightarrow> tca_answers client"
  shows "owns S (create_authority w tca) (\<lambda>r S'. case r of
      Ok ca \<Rightarrow> ca_wf ca \<and> ca_objects ca \<inter> S = {} \<and> S' = ca_objects ca \<union> S
    | Err e \<Rightarrow> S' = S
    | Panicked s \<Rightarrow> False)"
proof (cases tca)
  case None
  show ?thesis
    unfolding create_authority_def None option.case
    by (rule owns_bind [OF gives_ca_new_root [OF assms(1), unfolded gives_ca_def]])
      (auto intro!: owns_return split: outcome.splits)
next
  case (Some client)
  show ?thesis
    unfolding create_authority_def Some option.case
    by (rule owns_bind [OF gives_ca_new_intermediate [OF assms(1) assms(2) [OF Some], unfolded gives_ca_def]])
      (auto intro!: owns_return split: outcome.splits)
qed

lemma keeps_generate_nonce: "keeps S (generate_nonce w)"
  unfolding keeps_def generate_nonce_def by (intro ffi_wp) (auto simp: call_contracts)

lemma keeps_ret: "keeps S (ret a)"
  by (simp add: keeps_def owns_return)

lemma keeps_bindI: "keeps S m \<Longrightarrow> (\<And>a. keeps S (f a)) \<Longrightarrow> keeps S (State_Monad.bind m f)"
  unfolding keeps_def [of S "State_Monad.bind m f"] by (rule keeps_bind) (simp_all add: keeps_def)

lemma keeps_stream_step:
  assumes "environment_ok oak b"
    and "\<And>ca. st = AwaitChallenge ca \<Longrightarrow> ca_wf ca \<and> ca_objects ca \<subseteq> S"
    and "\<And>ca nonce. st = AwaitFinish ca nonce \<Longrightarrow> ca_wf ca \<and> ca_objects ca \<subseteq> S"
  shows "keeps S (stream_step w oak b config st item alive)"
proof (cases st)
  case (AwaitChallenge ca)
  then show ?thesis
    by (auto intro!: keeps_ret keeps_bindI keeps_generate_nonce split: outcome.split)
next
  case (AwaitFinish ca nonce)
  with assms have "tidy S (certify_finish w oak b config ca nonce req)" for req
    by (intro tidy_certify_finish) auto
  then have "keeps S (certify_finish w oak b config ca nonce req)" for req
    unfolding tidy_def keeps_def by (rule owns_mono) simp
  with AwaitFinish show ?thesis
    by (auto intro!: keeps_ret keeps_bindI split: outcome.split)
next
  case Finished
  then show ?thesis
    by (simp add: keeps_ret)
qed

section \<open>Behaviour of the handlers\<close>

lemma resolve_policy_request_Ok:
  "resolve_policy_request sel role = Ok (name, profile) \<longleftrightarrow>
     (case sel of
        None \<Rightarrow> False
      | Some (CertificationParameters p) \<Rightarrow> name = param_policy_name p \<and> name \<noteq> []
          \<and> certificate_profile_try_from (param_certificate_profile p) = Some profile
          \<and> profile \<noteq> ProfileUnspecified
      | Some (PolicyHintSelector n) \<Rightarrow> \<exists>hint. policy_hint_try_from n = Some hint
          \<and> resolve_legacy_hint hint role = Ok (name, profile))"
proof -
  have unwrap: "unwrap_or ProfileUnspecified x = profile \<and> profile \<noteq> ProfileUnspecified \<longleftrightarrow>
      x = Some profile \<and> profile \<noteq> ProfileUnspecified" for x
    by (cases x) auto
  have hint: "resolve_legacy_hint (unwrap_or HintUnspecified x) role = Ok (name, profile) \<longleftrightarrow>
      (\<exists>hint. x = Some hint \<and> resolve_legacy_hint hint role = Ok (name, profile))" for x
    by (cases x) simp_all
  show ?thesis
    by (cases sel)
      (auto simp: resolve_policy_request_def Let_def hint outcome_simps unwrap [symmetric]
        split: selector.split)
qed

lemma resolve_policy_request_Err:
  "resolve_policy_request sel role = Err e \<Longrightarrow> status_code e = InvalidArgument"
  by (auto simp: resolve_policy_request_def Let_def outcome_simps
      split: option.splits selector.splits if_splits)

lemma issue_response_Ok:
  "run_state (issue_response w ca identity tlogs) tr = (Ok resp, tr') \<longleftrightarrow>
     (\<exists>cert tr1. run_state (generate_certificate w ca identity) tr = (Ok cert, tr1)
      \<and> tr' = tr1 @ [(Free EVP_PKEY (public_key identity), RUnit)]
      \<and> resp = \<lparr>certificate_chain = cert # ca_cert_chain_der ca, tlog_verification_results = tlogs\<rparr>)"
  by (auto simp: issue_response_def key_pair_drop_def run_calls outcome_simps get_ca_cert_chain_der_def
      split: prod.splits)

lemma validate_then_issue_Ok:
  assumes "run_state (bindE (do { r \<leftarrow> v; ret (map_err g r) })
    (\<lambda>(identity, tlogs). issue_response w ca identity tlogs)) tr = (Ok resp, tr')"
  shows "\<exists>identity tlogs cert tr1 tr2. run_state v tr = (Ok (identity, tlogs), tr1)
    \<and> run_state (generate_certificate w ca identity) tr1 = (Ok cert, tr2)
    \<and> tr' = tr2 @ [(Free EVP_PKEY (public_key identity), RUnit)]
    \<and> resp = \<lparr>certificate_chain = cert # ca_cert_chain_der ca, tlog_verification_results = tlogs\<rparr>"
proof -
  have "run_state (do { r \<leftarrow> v; ret (map_err g r) }) tr = (Ok a, tr1) \<longleftrightarrow> run_state v tr = (Ok a, tr1)"
    for a tr1
    by (auto simp: outcome_simps split: prod.splits)
  with assms show ?thesis
    by (auto simp: bindE_run_Ok issue_response_Ok)
qed

lemma run_ret_eq: "run_state (ret r) tr = (r', tr') \<longleftrightarrow> r = r' \<and> tr' = tr"
  by auto

lemma validate_then_issue_Err:
  assumes "run_state (bindE (do { r \<leftarrow> v; ret (map_err g r) })
    (\<lambda>(identity, tlogs). issue_response w ca identity tlogs)) tr = (Err st, tr')"
  shows "(\<exists>e. run_state v tr = (Err e, tr') \<and> st = g e)
    \<or> (\<exists>identity tlogs e tr1 tr2. run_state v tr = (Ok (identity, tlogs), tr1)
        \<and> run_state (generate_certificate w ca identity) tr1 = (Err e, tr2)
        \<and> tr' = tr2 @ [(Free EVP_PKEY (public_key identity), RUnit)] \<and> status_code st = Internal)"
proof -
  have issue: "\<exists>e tr2. run_state (generate_certificate w ca i) tr1 = (Err e, tr2)
      \<and> tr' = tr2 @ [(Free EVP_PKEY (public_key i), RUnit)] \<and> status_code st = Internal"
    if "run_state (issue_response w ca i tlogs) tr1 = (Err st, tr')" for i tlogs tr1
    using that
    by (cases "run_state (generate_certificate w ca i) tr1")
      (auto simp: issue_response_def key_pair_drop_def run_calls outcome_simps)
  obtain r tr1 where v: "run_state v tr = (r, tr1)" by (cases "run_state v tr")
  with assms show ?thesis
    by (cases r) (auto simp: bindE_run_Err dest!: issue)
qed

lemma certify_attestation_Ok:
  assumes "run_state (certify_attestation w oak b svc req) tr = (Ok resp, tr')"
  shows "\<exists>ca ev en proto info name profile identity tlogs cert tr1 tr2.
      service_ca svc = Some ca \<and> req_evidence req = Some ev \<and> req_endorsements req = Some en
    \<and> req_operator_info req = Some proto \<and> operator_info_try_from proto = Ok info
    \<and> resolve_policy_request (req_selector req) (oi_role info) = Ok (name, profile)
    \<and> run_state (validate_csr_request w oak b (req_csr req) ev en None name profile info
        (service_policies_config svc)) tr = (Ok (identity, tlogs), tr1)
    \<and> run_state (generate_certificate w ca identity) tr1 = (Ok cert, tr2)
    \<and> tr' = tr2 @ [(Free EVP_PKEY (public_key identity), RUnit)]
    \<and> resp = \<lparr>certificate_chain = cert # ca_cert_chain_der ca, tlog_verification_results = tlogs\<rparr>"
proof -
  from assms obtain ca ev en proto info name profile where
    "service_ca svc = Some ca" "req_evidence req = Some ev" "req_endorsements req = Some en"
    "req_operator_info req = Some proto" "operator_info_try_from proto = Ok info"
    "resolve_policy_request (req_selector req) (oi_role info) = Ok (name, profile)"
    and rest: "run_state (bindE (do {
       r \<leftarrow> validate_csr_request w oak b (req_csr req) ev en None name profile info
         (service_policies_config svc);
       ret (map_err (\<lambda>e. Status FailedPrecondition (TextDebug [] e)) r) }) (\<lambda>(identity, tlogs).
     issue_response w ca identity tlogs)) tr = (Ok resp, tr')"
    unfolding certify_attestation_def bindE_run_Ok [of "liftE _"] run_ret_Ok
    by (auto simp: outcome_simps)
  with validate_then_issue_Ok [OF rest] show ?thesis
    by blast
qed

lemma certify_finish_Ok:
  assumes "run_state (certify_finish w oak b config ca nonce req) tr = (Ok resp, tr')"
  shows "\<exists>ev en proto info name profile identity tlogs cert tr1 tr2.
      req_evidence req = Some ev \<and> req_endorsements req = Some en
    \<and> req_operator_info req = Some proto \<and> operator_info_try_from proto = Ok info
    \<and> resolve_policy_request (req_selector req) (oi_role info) = Ok (name, profile)
    \<and> run_state (validate_csr_request w oak b (req_csr req) ev en (Some nonce) name profile info
        config) tr = (Ok (identity, tlogs), tr1)
    \<and> run_state (generate_certificate w ca identity) tr1 = (Ok cert, tr2)
    \<and> tr' = tr2 @ [(Free EVP_PKEY (public_key identity), RUnit)]
    \<and> resp = \<lparr>certificate_chain = cert # ca_cert_chain_der ca, tlog_verification_results = tlogs\<rparr>"
proof -
  from assms obtain ev en proto info name profile where
    "req_evidence req = Some ev" "req_endorsements req = Some en"
    "req_operator_info req = Some proto" "operator_info_try_from proto = Ok info"
    "resolve_policy_request (req_selector req) (oi_role info) = Ok (name, profile)"
    and rest: "run_state (bindE (do {
       r \<leftarrow> validate_csr_request w oak b (req_csr req) ev en (Some nonce) name profile info config;
       ret (map_err (\<lambda>e. Status FailedPrecondition (TextDebug ''Validation failed: '' e)) r) })
       (\<lambda>(identity, tlogs). issue_response w ca identity tlogs)) tr = (Ok resp, tr')"
    unfolding certify_finish_def bindE_run_Ok [of "liftE _"] run_ret_Ok
    by (auto simp: outcome_simps)
  with validate_then_issue_Ok [OF rest] show ?thesis
    by blast
qed

lemma expect_certify_request:
  "expect_message ''Expected finish request'' as_certify_request item = Ok req \<longleftrightarrow>
     item = Received (Some (CertifyRequest req))"
proof -
  have "as_certify_request r = Some req \<longleftrightarrow> r = CertifyRequest req" for r
    by (cases r) auto
  then show ?thesis
    by (auto simp: expect_message_def outcome_simps split: incoming.splits option.splits)
qed

lemma expect_challenge_request:
  "expect_message ''Expected challenge_request'' as_challenge_request item = Ok u \<longleftrightarrow>
     item = Received (Some ChallengeRequest)"
proof -
  have "as_challenge_request r = Some u \<longleftrightarrow> r = ChallengeRequest" for r
    by (cases r) auto
  then show ?thesis
    by (auto simp: expect_message_def outcome_simps split: incoming.splits option.splits)
qed

text \<open>A certificate leaves a stream only in answer to the challenge of that stream.\<close>

lemma stream_certificate:
  assumes "run_state (stream_step w oak b config st item alive) tr = ((st', out), tr')"
    and "Ok (CertifyResponse resp) \<in> set out"
  shows "\<exists>ca nonce req. st = AwaitFinish ca nonce \<and> item = Received (Some (CertifyRequest req))
    \<and> run_state (certify_finish w oak b config ca nonce req) tr = (Ok resp, tr')
    \<and> out = [Ok (CertifyResponse resp)] \<and> st' = Finished"
proof (cases st)
  case (AwaitChallenge ca)
  with assms show ?thesis by (auto split: outcome.splits prod.splits if_splits)
next
  case (AwaitFinish ca nonce)
  with assms show ?thesis
    by (auto simp: expect_certify_request split: outcome.splits prod.splits if_splits)
next
  case Finished
  with assms show ?thesis by auto
qed

section \<open>Sample key generation\<close>

lemma sample_create_authority:
  "\<exists>ca tr'. run_state (create_authority (obliging_world n) None) tr = (Ok ca, tr') \<and> ca_cert_chain_der ca = [[1]]"
  using sample_new_root [of n tr] by (auto simp: create_authority_def)

section \<open>Properties\<close>

text \<open>C30: the selector of a request is resolved exactly when it names a policy with one of the three
  certificate profiles, or is one of the six known hints; a missing selector, an empty name, an
  unknown or unspecified profile and an unknown hint are refused, and the profile that results is
  never the unspecified one.\<close>

theorem resolve_policy_request_accepts:
  "(\<exists>name profile. resolve_policy_request sel role = Ok (name, profile)) \<longleftrightarrow>
     (case sel of
        None \<Rightarrow> False
      | Some (CertificationParameters p) \<Rightarrow>
          param_policy_name p \<noteq> [] \<and> param_certificate_profile p \<in> {1..3}
      | Some (PolicyHintSelector n) \<Rightarrow> n \<in> {2..7})"
proof -
  have p: "(\<exists>profile. certificate_profile_try_from n = Some profile \<and> profile \<noteq> ProfileUnspecified) \<longleftrightarrow>
      n \<in> {1..3}" for n
    unfolding certificate_profile_try_from_known [symmetric]
    by (cases "certificate_profile_try_from n") auto
  have h: "(\<exists>name profile hint. policy_hint_try_from n = Some hint \<and>
      resolve_legacy_hint hint role = Ok (name, profile)) \<longleftrightarrow> n \<in> {2..7}" for n
  proof -
    have "(\<exists>name profile. resolve_legacy_hint hint role = Ok (name, profile)) \<longleftrightarrow> hint \<noteq> HintUnspecified" for hint
      by (cases hint) auto
    then show ?thesis
      unfolding policy_hint_try_from_known [symmetric]
      by (cases "policy_hint_try_from n") auto
  qed
  show ?thesis
    unfolding resolve_policy_request_Ok
    using p h by (simp split: option.split selector.split)
qed

text \<open>C31: what a refused unary request is told.  Before anything is done with the libraries: that the service
  or the evidence is not ready (failed precondition), or that the operator or the selector is malformed
  (invalid argument), in that order.  After that: that validation failed (failed precondition), or that
  the certificate could not be made for a validated identity (internal), whose key has then been released.
  There is no other status.\<close>

theorem refusals_tell_the_cause:
  assumes "run_state (certify_attestation w oak b svc req) tr = (Err st, tr')"
  shows "status_code st = FailedPrecondition \<and> tr' = tr
      \<and> (service_ca svc = None \<or> req_evidence req = None \<or> req_endorsements req = None)
    \<or> status_code st = InvalidArgument \<and> tr' = tr
      \<and> service_ca svc \<noteq> None \<and> req_evidence req \<noteq> None \<and> req_endorsements req \<noteq> None
      \<and> (\<forall>proto info. req_operator_info req = Some proto \<longrightarrow> operator_info_try_from proto = Ok info \<longrightarrow>
          (\<exists>e. resolve_policy_request (req_selector req) (oi_role info) = Err e))
    \<or> (\<exists>ca ev en proto info name profile. service_ca svc = Some ca
      \<and> req_evidence req = Some ev \<and> req_endorsements req = Some en
      \<and> req_operator_info req = Some proto \<and> operator_info_try_from proto = Ok info
      \<and> resolve_policy_request (req_selector req) (oi_role info) = Ok (name, profile)
      \<and> (status_code st = FailedPrecondition
          \<and> (\<exists>e. run_state (validate_csr_request w oak b (req_csr req) ev en None name profile info
               (service_policies_config svc)) tr = (Err e, tr'))
        \<or> status_code st = Internal
          \<and> (\<exists>identity tlogs e tr1 tr2. run_state (validate_csr_request w oak b (req_csr req) ev en None name
               profile info (service_policies_config svc)) tr = (Ok (identity, tlogs), tr1)
             \<and> run_state (generate_certificate w ca identity) tr1 = (Err e, tr2)
             \<and> tr' = tr2 @ [(Free EVP_PKEY (public_key identity), RUnit)])))"
proof -
  have early: "status_code (operator_status e) = InvalidArgument" "status_code not_initialized = FailedPrecondition" for e
    by (simp_all add: operator_status_def not_initialized_def)
  show ?thesis
    using assms
    unfolding certify_attestation_def bindE_run_Err [of "liftE _"] run_ret_eq ok_or_eq_Err ok_or_eq_Ok
      map_err_eq_Err map_err_eq_Ok
    apply (elim disjE exE conjE)
    subgoal using early by simp
    subgoal by simp
    subgoal by simp
    subgoal by simp
    subgoal using early by simp
    subgoal using resolve_policy_request_Err by auto
    subgoal by (fastforce dest!: validate_then_issue_Err split: prod.splits)
    done
qed

lemma refusals_tell_the_cause_witness:
  "\<exists>st. run_state (certify_attestation (obliging_world 0) (sample_oak []) cbt_build
      (install_authority sample_ca (service_new None))
      \<lparr>req_csr = [], req_evidence = Some sample_evidence, req_endorsements = Some sample_endorsements,
       req_operator_info = None, req_selector = None\<rparr>) [] = (Err st, [])
    \<and> status_code st = InvalidArgument"
proof -
  let ?svc = "install_authority sample_ca (service_new None)"
  let ?req = "\<lparr>req_csr = [], req_evidence = Some sample_evidence, req_endorsements = Some sample_endorsements,
       req_operator_info = None, req_selector = None\<rparr>"
  have run: "run_state (certify_attestation (obliging_world 0) (sample_oak []) cbt_build ?svc ?req) [] =
      (Err (Status InvalidArgument (Text ''request is missing `operator_info`'')), [])"
    by (simp add: certify_attestation_def bindE_def install_authority_def)
  from refusals_tell_the_cause [OF run] run show ?thesis
    by (auto simp: install_authority_def)
qed

text \<open>Until a signing key has been generated both request handlers refuse with the same
  failed-precondition status, and touch nothing.\<close>

lemma uninitialised_service_refuses:
  assumes "service_ca svc = None"
  shows "run_state (certify_attestation w oak b svc req) tr = (Err not_initialized, tr)
    \<and> certify_attestation_stream svc = Err not_initialized
    \<and> get_ca_certificate_chain svc = None"
  using assms
  by (simp add: certify_attestation_def certify_attestation_stream_def get_ca_certificate_chain_def bindE_def)

text \<open>Key generation installs what it returns: afterwards the service serves exactly the chain
  in the response, and the TCA client and the policy configuration are untouched.\<close>

lemma generate_avs_signing_key_installs:
  assumes "run_state (generate_avs_signing_key w svc) tr = (Ok (resp, svc'), tr')"
  shows "get_ca_certificate_chain svc' = Some (new_certificate_chain resp)
    \<and> service_tca_client svc' = service_tca_client svc
    \<and> service_policies_config svc' = service_policies_config svc"
  using assms
  by (auto simp: generate_avs_signing_key_def bindE_run_Ok Let_def get_ca_certificate_chain_def
      install_authority_def)

text \<open>The mapping of TCA failures to gRPC codes: a failure is reported as unavailable exactly when
  a network error of the TCA client is at its root, and as internal otherwise.\<close>

lemma map_tca_error_code:
  "status_code (map_tca_error e) =
     (case downcast_certificate_error e of Some (Network _) \<Rightarrow> Unavailable | _ \<Rightarrow> Internal)"
  by (simp add: map_tca_error_def split: option.split certificate_error.split)

end
