(* ===== verification/Avs_System.thy ===== *)
theory Avs_System
  imports Avs_Server
begin

text \<open>
  The running service as a transition system.  Requests run concurrently: a handler runs without
  interruption between two points where it awaits, and the handlers interleave at those points.
  Key generation awaits twice: the answer of the TCA, when there is a client for it, and the write
  lock; at either point its client may disconnect, and then it ends there.
  The authority is shared by reference counting (\<open>Arc\<close>): the service slot holds one reference, each
  open stream another, and a freshly generated authority is held by the request that generated it
  until it is installed.  When the last reference goes, the authority is dropped.

  The invariant is that the foreign objects the process owns are exactly those of the live
  authorities and the keys that wait for the TCA, that no call ever used an object that was not alive, and that each stream has sent
  what its state says.
\<close>

section \<open>State and steps\<close>

record avs_system =
  sys_service :: avs_service
  sys_streams :: "(stream_state \<times> outgoing list) list"
  sys_issuing :: "(ptr \<times> bytes) list"
  sys_pending :: "certificate_authority list"
  sys_trace :: trace

fun state_cas :: "stream_state \<Rightarrow> certificate_authority list" where
  "state_cas (AwaitChallenge ca) = [ca]"
| "state_cas (AwaitFinish ca nonce) = [ca]"
| "state_cas Finished = []"

definition live :: "avs_system \<Rightarrow> certificate_authority list" where
  "live s =
     (case service_ca (sys_service s) of None \<Rightarrow> [] | Some ca \<Rightarrow> [ca])
     @ concat (map (\<lambda>(st, sent). state_cas st) (sys_streams s))
     @ sys_pending s"

text \<open>What a creation hands on: its result, or nothing on an error.\<close>

fun created :: "('e, 'a) outcome \<Rightarrow> 'a list" where
  "created (Ok a) = [a]"
| "created (Err e) = []"
| "created (Panicked m) = []"

text \<open>A reference to \<open>ca\<close> has just gone: if it was the last, the authority is dropped.\<close>

definition release :: "certificate_authority \<Rightarrow> avs_system \<Rightarrow> avs_system" where
  "release ca s =
     (if ca \<in> set (live s) then s
      else s\<lparr>sys_trace := snd (run_state (drop_certificate_authority ca) (sys_trace s))\<rparr>)"

definition release_all :: "certificate_authority list \<Rightarrow> avs_system \<Rightarrow> avs_system" where
  "release_all cas s = fold release cas s"

definition system_init :: "avs_service \<Rightarrow> avs_system" where
  "system_init svc = \<lparr>sys_service = svc, sys_streams = [], sys_issuing = [], sys_pending = [], sys_trace = []\<rparr>"

text \<open>
  The steps: a unary request, the opening of a stream, a turn of an open stream; a key generation
  that makes a self-signed authority, or makes a key and a signing request and then awaits the TCA,
  the TCA's answer; the installation of a new authority under the write lock; and, since a client
  may go away, the end of a key generation while it awaits the TCA or the lock, which drops what it
  holds.
\<close>

inductive sys_step :: "world \<Rightarrow> oak_library \<Rightarrow> build \<Rightarrow> avs_system \<Rightarrow> avs_system \<Rightarrow> bool"
  for w :: world and oak :: oak_library and b :: build where
  unary: "run_state (certify_attestation w oak b (sys_service s) req) (sys_trace s) = (r, tr') \<Longrightarrow>
    sys_step w oak b s (s\<lparr>sys_trace := tr'\<rparr>)"
| open_stream: "certify_attestation_stream (sys_service s) = Ok st \<Longrightarrow>
    sys_step w oak b s (s\<lparr>sys_streams := sys_streams s @ [(st, [])]\<rparr>)"
| turn: "i < length (sys_streams s) \<Longrightarrow> sys_streams s ! i = (st, sent) \<Longrightarrow>
    run_state (stream_step w oak b (service_policies_config (sys_service s)) st item alive) (sys_trace s) =
      ((st', out), tr') \<Longrightarrow>
    sys_step w oak b s (release_all (state_cas st)
      (s\<lparr>sys_streams := (sys_streams s)[i := (st', sent @ out)], sys_trace := tr'\<rparr>))"
| create_root: "service_tca_client (sys_service s) = None \<Longrightarrow>
    run_state (new_root w) (sys_trace s) = (r, tr') \<Longrightarrow>
    sys_step w oak b s (s\<lparr>sys_pending := sys_pending s @ created r, sys_trace := tr'\<rparr>)"
| request_tca: "service_tca_client (sys_service s) = Some client \<Longrightarrow>
    run_state (create_key_and_csr w) (sys_trace s) = (r, tr') \<Longrightarrow>
    sys_step w oak b s (s\<lparr>sys_issuing := sys_issuing s @ created r, sys_trace := tr'\<rparr>)"
| answer_tca: "service_tca_client (sys_service s) = Some client \<Longrightarrow>
    sys_issuing s = before @ (key, csr) # after \<Longrightarrow>
    run_state (finish_intermediate w key (client (sys_trace s) csr)) (sys_trace s) = (r, tr') \<Longrightarrow>
    sys_step w oak b s (s\<lparr>sys_issuing := before @ after, sys_pending := sys_pending s @ created r,
      sys_trace := tr'\<rparr>)"
| install: "sys_pending s = before @ ca # after \<Longrightarrow>
    sys_step w oak b s (release_all (case service_ca (sys_service s) of None \<Rightarrow> [] | Some old \<Rightarrow> [old])
      (s\<lparr>sys_service := install_authority ca (sys_service s), sys_pending := before @ after\<rparr>))"
| cancel_issuing: "sys_issuing s = before @ (key, csr) # after \<Longrightarrow>
    run_state (key_pair_drop key) (sys_trace s) = (u, tr') \<Longrightarrow>
    sys_step w oak b s (s\<lparr>sys_issuing := before @ after, sys_trace := tr'\<rparr>)"
| cancel_install: "sys_pending s = before @ ca # after \<Longrightarrow>
    sys_step w oak b s (release_all [ca] (s\<lparr>sys_pending := before @ after\<rparr>))"

inductive reachable :: "world \<Rightarrow> oak_library \<Rightarrow> build \<Rightarrow> avs_service \<Rightarrow> avs_system \<Rightarrow> bool"
  for w :: world and oak :: oak_library and b :: build and svc :: avs_service where
  init: "reachable w oak b svc (system_init svc)"
| step: "reachable w oak b svc s \<Longrightarrow> sys_step w oak b s s' \<Longrightarrow> reachable w oak b svc s'"

section \<open>The ownership invariant\<close>

definition separate :: "certificate_authority set \<Rightarrow> bool" where
  "separate A \<longleftrightarrow> (\<forall>ca \<in> A. ca_wf ca) \<and>
     (\<forall>ca \<in> A. \<forall>ca' \<in> A. ca \<noteq> ca' \<longrightarrow> ca_objects ca \<inter> ca_objects ca' = {})"

lemma separate_subset: "separate A \<Longrightarrow> B \<subseteq> A \<Longrightarrow> separate B"
  unfolding separate_def by blast

lemma separate_insert:
  assumes "separate A" "ca_wf ca" "ca_objects ca \<inter> \<Union> (ca_objects ` A) = {}"
  shows "separate (insert ca A)"
  using assms unfolding separate_def by (auto simp: disjoint_iff)

lemma separate_minus:
  assumes "separate (insert ca A)" "ca \<notin> A"
  shows "\<Union> (ca_objects ` insert ca A) - ca_objects ca = \<Union> (ca_objects ` A)"
proof -
  have "ca_objects ca \<inter> ca_objects a = {}" if "a \<in> A" for a
    using assms that unfolding separate_def by (metis insertCI)
  then show ?thesis by blast
qed

text \<open>
  The process owns exactly the objects of the authorities in \<open>A\<close> and the keys in \<open>K\<close>.
\<close>

definition owns_exactly :: "trace \<Rightarrow> certificate_authority set \<Rightarrow> ptr set \<Rightarrow> bool" where
  "owns_exactly tr A K \<longleftrightarrow>
     safe (ownership tr) \<and> owned (ownership tr) = \<Union> (ca_objects ` A) \<union> K \<and> separate A
     \<and> K \<inter> \<Union> (ca_objects ` A) = {} \<and> (\<forall>k \<in> K. k \<noteq> Null \<and> root k = k)"

definition issuing_keys :: "avs_system \<Rightarrow> ptr list" where
  "issuing_keys s = map fst (sys_issuing s)"

definition owns_live :: "avs_system \<Rightarrow> bool" where
  "owns_live s \<longleftrightarrow> owns_exactly (sys_trace s) (set (live s)) (set (issuing_keys s))
     \<and> distinct (issuing_keys s)"

lemma live_trace [simp]: "live (s\<lparr>sys_trace := tr\<rparr>) = live s"
  by (simp add: live_def)

lemma issuing_keys_update [simp]:
  "issuing_keys (s\<lparr>sys_trace := tr\<rparr>) = issuing_keys s"
  "issuing_keys (s\<lparr>sys_streams := sts\<rparr>) = issuing_keys s"
  "issuing_keys (s\<lparr>sys_pending := ps\<rparr>) = issuing_keys s"
  "issuing_keys (s\<lparr>sys_service := svc\<rparr>) = issuing_keys s"
  "issuing_keys (s\<lparr>sys_issuing := xs\<rparr>) = map fst xs"
  by (simp_all add: issuing_keys_def)

lemma live_issuing [simp]: "live (s\<lparr>sys_issuing := xs\<rparr>) = live s"
  by (simp add: live_def)

lemma owns_exactly_keeps:
  assumes "owns_exactly tr A K" and "keeps (\<Union> (ca_objects ` A) \<union> K) m" and "run_state m tr = (r, tr')"
  shows "owns_exactly tr' A K"
  using assms(1) ownsD [OF assms(2) [unfolded keeps_def] _ _ assms(3)] by (simp add: owns_exactly_def)

lemma owns_exactly_drop:
  assumes "owns_exactly tr (insert ca A) K" and "ca \<notin> A"
  shows "owns_exactly (snd (run_state (drop_certificate_authority ca) tr)) A K"
proof -
  obtain u tr' where run: "run_state (drop_certificate_authority ca) tr = (u, tr')"
    by (cases "run_state (drop_certificate_authority ca) tr")
  from assms(1) have st: "safe (ownership tr)" "owned (ownership tr) = \<Union> (ca_objects ` insert ca A) \<union> K"
    "separate (insert ca A)" "K \<inter> \<Union> (ca_objects ` insert ca A) = {}" "\<forall>k \<in> K. k \<noteq> Null \<and> root k = k"
    by (simp_all add: owns_exactly_def)
  then have "owns (owned (ownership tr)) (drop_certificate_authority ca)
      (\<lambda>_ S'. S' = owned (ownership tr) - ca_objects ca)"
    by (intro owns_drop_certificate_authority) (auto simp: separate_def)
  from ownsD [OF this st(1) refl run] have "safe (ownership tr')"
    "owned (ownership tr') = \<Union> (ca_objects ` insert ca A) \<union> K - ca_objects ca"
    by (simp_all only: st(2))
  moreover have "K - ca_objects ca = K" and K: "K \<inter> \<Union> (ca_objects ` A) = {}"
    using st(4) by blast+
  with separate_minus [OF st(3) assms(2)]
  have "\<Union> (ca_objects ` insert ca A) \<union> K - ca_objects ca = \<Union> (ca_objects ` A) \<union> K"
    by (simp only: Un_Diff)
  ultimately show ?thesis
    using run separate_subset [OF st(3) subset_insertI] st(5) K
    by (simp add: owns_exactly_def)
qed

lemma issuing_keys_release [simp]: "issuing_keys (release ca s) = issuing_keys s"
  by (simp add: release_def)

lemma owns_live_release:
  assumes "owns_exactly (sys_trace s) (insert ca (set (live s))) (set (issuing_keys s))"
    and "distinct (issuing_keys s)"
  shows "owns_live (release ca s)"
  using assms owns_exactly_drop [OF assms(1)]
  by (auto simp: owns_live_def release_def insert_absorb)

lemma owns_live_release_all:
  assumes "owns_exactly (sys_trace s) (set cas \<union> set (live s)) (set (issuing_keys s))"
    and "distinct (issuing_keys s)" and "length cas \<le> 1"
  shows "owns_live (release_all cas s)"
proof (cases cas)
  case Nil
  with assms show ?thesis by (simp add: release_all_def owns_live_def)
next
  case (Cons ca rest)
  with assms(3) have "cas = [ca]" by simp
  with assms(1,2) show ?thesis
    by (simp add: release_all_def owns_live_release)
qed

lemma set_live:
  "set (live s) = set_option (service_ca (sys_service s))
     \<union> (\<Union>(st, sent) \<in> set (sys_streams s). set (state_cas st)) \<union> set (sys_pending s)"
  by (auto simp: live_def split: option.split)

text \<open>What the environment has to provide for the invariant to hold.\<close>

definition system_environment :: "world \<Rightarrow> oak_library \<Rightarrow> build \<Rightarrow> avs_service \<Rightarrow> bool" where
  "system_environment w oak b svc \<longleftrightarrow>
     environment_ok oak b \<and> assign_rsa_succeeds w \<and>
     (\<forall>client. service_tca_client svc = Some client \<longrightarrow> tca_answers client)"

text \<open>All that the process owns in a state, and that the authorities and keys can be told apart there.\<close>

definition system_objects :: "avs_system \<Rightarrow> ptr set" where
  "system_objects s = \<Union> (ca_objects ` set (live s)) \<union> set (issuing_keys s)"

lemma owns_live_keeps:
  assumes "owns_live s" and "keeps (system_objects s) m" and "run_state m (sys_trace s) = (r, tr')"
  shows "owns_exactly tr' (set (live s)) (set (issuing_keys s))"
  using assms(1,2) unfolding owns_live_def system_objects_def
  by (intro owns_exactly_keeps [OF _ _ assms(3)]) simp_all

lemma owns_live_authority:
  assumes "owns_live s" and "ca \<in> set (live s)"
  shows "ca_wf ca" and "ca_objects ca \<subseteq> system_objects s"
  using assms by (auto simp: owns_live_def owns_exactly_def separate_def system_objects_def)

lemma owns_live_unary:
  assumes "owns_live s" and "environment_ok oak b"
    and "run_state (certify_attestation w oak b (sys_service s) req) (sys_trace s) = (r, tr')"
  shows "owns_live (s\<lparr>sys_trace := tr'\<rparr>)"
proof -
  have "ca_wf ca \<and> ca_objects ca \<subseteq> system_objects s" if "service_ca (sys_service s) = Some ca" for ca
    using that owns_live_authority [OF assms(1)] by (simp add: set_live)
  then have "tidy (system_objects s) (certify_attestation w oak b (sys_service s) req)"
    by (intro tidy_certify_attestation [OF assms(2)]) auto
  then have "keeps (system_objects s) (certify_attestation w oak b (sys_service s) req)"
    unfolding tidy_def keeps_def by (rule owns_mono) simp
  from owns_live_keeps [OF assms(1) this assms(3)] assms(1) show ?thesis
    by (simp add: owns_live_def)
qed

lemma stream_step_cas: "run_state (stream_step w oak b config st item alive) tr = ((st', out), tr') \<Longrightarrow>
    set (state_cas st') \<subseteq> set (state_cas st)"
  by (cases st) (auto split: outcome.splits prod.splits if_splits)

lemma UN_list_update:
  assumes "i < length xs" and "f y \<subseteq> f (xs ! i)"
  shows "f (xs ! i) \<union> (\<Union>x \<in> set (xs[i := y]). f x) = (\<Union>x \<in> set xs. f x)"
proof -
  have "set xs = set (take i xs @ xs ! i # drop (Suc i) xs)"
    using id_take_nth_drop [OF assms(1)] by simp
  moreover have "set (xs[i := y]) = set (take i xs @ y # drop (Suc i) xs)"
    using assms(1) by (simp add: upd_conv_take_nth_drop)
  ultimately show ?thesis
    using assms(2) by auto
qed

lemma owns_live_turn:
  assumes s: "owns_live s" and env: "environment_ok oak b"
    and i: "i < length (sys_streams s)" "sys_streams s ! i = (st, sent)"
    and run: "run_state (stream_step w oak b config st item alive) (sys_trace s) = ((st', out), tr')"
  shows "owns_live (release_all (state_cas st)
      (s\<lparr>sys_streams := (sys_streams s)[i := (st', sent @ out)], sys_trace := tr'\<rparr>))" (is "owns_live (release_all _ ?s)")
proof (rule owns_live_release_all)
  have st: "(st, sent) \<in> set (sys_streams s)"
    using i by (metis nth_mem)
  then have sub: "set (state_cas st) \<subseteq> set (live s)"
    by (auto simp: set_live)
  have "keeps (system_objects s) (stream_step w oak b config st item alive)"
    using sub owns_live_authority [OF s] by (intro keeps_stream_step [OF env]) auto
  from owns_live_keeps [OF s this run]
  have "owns_exactly tr' (set (live s)) (set (issuing_keys s))" .
  moreover have "set (state_cas st) \<union> set (live ?s) = set (live s)"
    using UN_list_update [OF i(1), of "\<lambda>(st, sent). set (state_cas st)" "(st', sent @ out)"]
      stream_step_cas [OF run] i(2)
    by (auto simp: set_live)
  ultimately show "owns_exactly (sys_trace ?s) (set (state_cas st) \<union> set (live ?s)) (set (issuing_keys ?s))"
    by simp
  show "distinct (issuing_keys ?s)"
    using s by (simp add: owns_live_def)
  show "length (state_cas st) \<le> 1"
    by (cases st) simp_all
qed

text \<open>A new authority joins the live ones.\<close>

lemma owns_exactly_created:
  assumes "separate A" "K \<inter> \<Union> (ca_objects ` A) = {}" "\<forall>k \<in> K. k \<noteq> Null \<and> root k = k"
    and "owns S m (\<lambda>r S'. case r of
      Ok ca \<Rightarrow> ca_wf ca \<and> ca_objects ca \<inter> (\<Union> (ca_objects ` A) \<union> K) = {}
        \<and> S' = ca_objects ca \<union> (\<Union> (ca_objects ` A) \<union> K)
    | Err e \<Rightarrow> S' = \<Union> (ca_objects ` A) \<union> K
    | Panicked s \<Rightarrow> False)"
    and "safe (ownership tr)" "owned (ownership tr) = S" "run_state m tr = (r, tr')"
  shows "owns_exactly tr' (set (created r) \<union> A) K"
proof (cases r)
  case (Ok ca)
  with ownsD [OF assms(4-7)] have "safe (ownership tr')" "ca_wf ca"
    "ca_objects ca \<inter> (\<Union> (ca_objects ` A) \<union> K) = {}"
    "owned (ownership tr') = ca_objects ca \<union> (\<Union> (ca_objects ` A) \<union> K)"
    by simp_all
  moreover from this have "separate (insert ca A)"
    by (intro separate_insert [OF assms(1)]) blast+
  ultimately show ?thesis
    using assms(2,3) Ok by (auto simp: owns_exactly_def)
qed (use ownsD [OF assms(4-7)] assms(1-3) in \<open>auto simp: owns_exactly_def\<close>)

lemma owns_live_create_root:
  assumes s: "owns_live s" and "assign_rsa_succeeds w"
    and run: "run_state (new_root w) (sys_trace s) = (r, tr')"
  shows "owns_live (s\<lparr>sys_pending := sys_pending s @ created r, sys_trace := tr'\<rparr>)"
proof -
  from s have "owns_exactly tr' (set (created r) \<union> set (live s)) (set (issuing_keys s))"
    by (intro owns_exactly_created [OF _ _ _ gives_ca_new_root [OF assms(2), unfolded gives_ca_def] _ _ run])
      (simp_all add: owns_live_def owns_exactly_def)
  moreover have "set (live (s\<lparr>sys_pending := sys_pending s @ created r, sys_trace := tr'\<rparr>)) =
      set (created r) \<union> set (live s)"
    by (auto simp: set_live)
  ultimately show ?thesis
    using s by (simp add: owns_live_def)
qed

lemma owns_live_request_tca:
  assumes s: "owns_live s" and "assign_rsa_succeeds w"
    and run: "run_state (create_key_and_csr w) (sys_trace s) = (r, tr')"
  shows "owns_live (s\<lparr>sys_issuing := sys_issuing s @ created r, sys_trace := tr'\<rparr>)"
proof -
  from s have "safe (ownership (sys_trace s))" "owned (ownership (sys_trace s)) = system_objects s"
    by (simp_all add: owns_live_def owns_exactly_def system_objects_def)
  from ownsD [OF gives_create_key_and_csr [OF assms(2), unfolded gives_def] this run] s show ?thesis
    by (cases r) (auto simp: owns_live_def owns_exactly_def system_objects_def issuing_keys_def)
qed

lemma owns_exactly_without_key:
  assumes "owns_exactly tr A (insert k K)" and "k \<notin> K"
  shows "k \<noteq> Null" "root k = k" "k \<notin> \<Union> (ca_objects ` A) \<union> K"
    "owned (ownership tr) = insert k (\<Union> (ca_objects ` A) \<union> K)"
  using assms by (auto simp: owns_exactly_def)

lemma owns_live_answer_tca:
  assumes s: "owns_live s" and "\<not> panics answer"
    and queue: "sys_issuing s = before @ (key, csr) # after"
    and run: "run_state (finish_intermediate w key answer) (sys_trace s) = (r, tr')"
  shows "owns_live (s\<lparr>sys_issuing := before @ after, sys_pending := sys_pending s @ created r,
      sys_trace := tr'\<rparr>)" (is "owns_live ?s")
proof -
  let ?A = "set (live s)" and ?K = "set (map fst (before @ after))"
  have keys: "owns_exactly (sys_trace s) ?A (insert key ?K)" and key: "key \<notin> ?K"
    and dist: "distinct (map fst (before @ after))"
    using s by (auto simp: owns_live_def issuing_keys_def queue)
  note k = owns_exactly_without_key [OF keys key]
  from keys have "owns_exactly tr' (set (created r) \<union> ?A) ?K"
    by (intro owns_exactly_created [OF _ _ _ owns_finish_intermediate [OF assms(2) k(1-3)] _ k(4) run])
      (simp_all add: owns_exactly_def)
  moreover have "set (live ?s) = set (created r) \<union> ?A"
    by (auto simp: set_live)
  ultimately show ?thesis
    using dist by (simp add: owns_live_def issuing_keys_def)
qed

lemma owns_live_install:
  assumes s: "owns_live s" and p: "sys_pending s = before @ ca # after"
  shows "owns_live (release_all (case service_ca (sys_service s) of None \<Rightarrow> [] | Some old \<Rightarrow> [old])
      (s\<lparr>sys_service := install_authority ca (sys_service s), sys_pending := before @ after\<rparr>))"
    (is "owns_live (release_all ?old ?s)")
proof (rule owns_live_release_all)
  have "set ?old \<union> set (live ?s) = set (live s)"
    unfolding set_live by (auto simp: p install_authority_def split: option.split)
  with s show "owns_exactly (sys_trace ?s) (set ?old \<union> set (live ?s)) (set (issuing_keys ?s))"
    by (simp add: owns_live_def)
  show "distinct (issuing_keys ?s)"
    using s by (simp add: owns_live_def)
  show "length ?old \<le> 1"
    by (simp split: option.split)
qed

lemma owns_live_cancel_issuing:
  assumes s: "owns_live s" and queue: "sys_issuing s = before @ (key, csr) # after"
    and run: "run_state (key_pair_drop key) (sys_trace s) = (u, tr')"
  shows "owns_live (s\<lparr>sys_issuing := before @ after, sys_trace := tr'\<rparr>)"
proof -
  let ?A = "set (live s)" and ?K = "set (map fst (before @ after))"
  have keys: "owns_exactly (sys_trace s) ?A (insert key ?K)" and key: "key \<notin> ?K"
    and dist: "distinct (map fst (before @ after))"
    using s by (auto simp: owns_live_def issuing_keys_def queue)
  note k = owns_exactly_without_key [OF keys key]
  have "owns (insert key (\<Union> (ca_objects ` ?A) \<union> ?K)) (State_Monad.bind (key_pair_drop key) ret)
      (\<lambda>_ S'. S' = \<Union> (ca_objects ` ?A) \<union> ?K)"
    using k(1-3) unfolding key_pair_drop_def by (intro ffi_wp) (auto simp: call_contracts)
  from ownsD [OF this _ k(4)] run keys have "owns_exactly tr' ?A ?K"
    by (auto simp: owns_exactly_def)
  with dist show ?thesis
    by (simp add: owns_live_def)
qed

lemma owns_live_cancel_install:
  assumes s: "owns_live s" and p: "sys_pending s = before @ ca # after"
  shows "owns_live (release_all [ca] (s\<lparr>sys_pending := before @ after\<rparr>))"
proof (rule owns_live_release_all)
  have "set [ca] \<union> set (live (s\<lparr>sys_pending := before @ after\<rparr>)) = set (live s)"
    unfolding set_live by (auto simp: p)
  with s show "owns_exactly (sys_trace (s\<lparr>sys_pending := before @ after\<rparr>))
      (set [ca] \<union> set (live (s\<lparr>sys_pending := before @ after\<rparr>)))
      (set (issuing_keys (s\<lparr>sys_pending := before @ after\<rparr>)))"
    by (simp add: owns_live_def)
  show "distinct (issuing_keys (s\<lparr>sys_pending := before @ after\<rparr>))"
    using s by (simp add: owns_live_def)
qed simp

section \<open>Protocol of a stream\<close>

text \<open>What a stream in a given state has sent.\<close>

fun protocol_ok :: "stream_state \<Rightarrow> outgoing list \<Rightarrow> bool" where
  "protocol_ok (AwaitChallenge ca) sent \<longleftrightarrow> sent = []"
| "protocol_ok (AwaitFinish ca nonce) sent \<longleftrightarrow> length nonce = 32 \<and> sent = [Ok (ChallengeResponse nonce)]"
| "protocol_ok Finished sent \<longleftrightarrow>
     sent = [] \<or> (\<exists>e. sent = [Err e]) \<or>
     (\<exists>nonce. length nonce = 32 \<and>
        (sent = [Ok (ChallengeResponse nonce)] \<or> (\<exists>e. sent = [Ok (ChallengeResponse nonce), Err e]) \<or>
         (\<exists>reply. sent = [Ok (ChallengeResponse nonce), Ok (CertifyResponse reply)])))"

lemma length_generate_nonce:
  "run_state (generate_nonce w) tr = (nonce, tr') \<Longrightarrow> length nonce = 32"
  by (auto simp: generate_nonce_def run_calls split: option.splits)

lemma protocol_ok_step:
  assumes "protocol_ok st sent"
    and "run_state (stream_step w oak b config st item alive) tr = ((st', out), tr')"
  shows "protocol_ok st' (sent @ out)"
proof (cases st)
  case (AwaitChallenge ca)
  with assms show ?thesis
    by (auto split: outcome.splits prod.splits if_splits dest: length_generate_nonce)
next
  case (AwaitFinish ca nonce)
  with assms show ?thesis
    by (auto split: outcome.splits prod.splits if_splits)
next
  case Finished
  with assms show ?thesis by simp
qed

definition streams_ok :: "avs_system \<Rightarrow> bool" where
  "streams_ok s \<longleftrightarrow> (\<forall>(st, sent) \<in> set (sys_streams s). protocol_ok st sent)"

lemma release_fields [simp]:
  "sys_streams (release_all cas s) = sys_streams s" "sys_service (release_all cas s) = sys_service s"
  "sys_pending (release_all cas s) = sys_pending s" "sys_issuing (release_all cas s) = sys_issuing s"
  by (induction cas arbitrary: s; simp add: release_all_def release_def)+

section \<open>Reachable states\<close>

inductive_cases sys_stepE: "sys_step w oak b s s'"

definition system_inv :: "world \<Rightarrow> oak_library \<Rightarrow> build \<Rightarrow> avs_system \<Rightarrow> bool" where
  "system_inv w oak b s \<longleftrightarrow>
     owns_live s \<and> streams_ok s \<and> system_environment w oak b (sys_service s)"

lemma system_environment_install [simp]:
  "system_environment w oak b (install_authority ca svc) = system_environment w oak b svc"
  by (simp add: system_environment_def install_authority_def)

lemma streams_ok_turn:
  assumes "streams_ok s" and "i < length (sys_streams s)" "sys_streams s ! i = (st, sent)"
    and "run_state (stream_step w oak b config st item alive) tr = ((st', out), tr')"
  shows "\<forall>(st, sent) \<in> set ((sys_streams s)[i := (st', sent @ out)]). protocol_ok st sent"
proof -
  from assms(2,3) have "(st, sent) \<in> set (sys_streams s)" by (metis nth_mem)
  with assms(1) have "protocol_ok st sent" by (auto simp: streams_ok_def)
  then have "protocol_ok st' (sent @ out)" using assms(4) by (rule protocol_ok_step)
  with assms(1) set_update_subset_insert [of "sys_streams s" i "(st', sent @ out)"] show ?thesis
    by (auto simp: streams_ok_def)
qed

lemma system_inv_step:
  assumes "sys_step w oak b s s'" and "system_inv w oak b s"
  shows "system_inv w oak b s'"
  using assms
proof (induction rule: sys_step.induct)
  case (unary s req r tr')
  then show ?case
    by (auto simp: system_inv_def streams_ok_def system_environment_def intro: owns_live_unary)
next
  case (open_stream s st)
  then obtain ca where ca: "service_ca (sys_service s) = Some ca" "st = AwaitChallenge ca"
    by (auto simp: certify_attestation_stream_def outcome_simps)
  then have "set (live (s\<lparr>sys_streams := sys_streams s @ [(st, [])]\<rparr>)) = set (live s)"
    by (auto simp: set_live)
  with open_stream ca show ?case
    by (auto simp: system_inv_def streams_ok_def owns_live_def)
next
  case (turn i s st sent item alive st' out tr')
  then show ?case
    using owns_live_turn [of s oak b i st sent w _ item alive st' out tr']
      streams_ok_turn [OF _ turn(1-3)]
    by (auto simp: system_inv_def system_environment_def streams_ok_def)
next
  case (create_root s r tr')
  then show ?case
    using owns_live_create_root [of s w r tr']
    by (auto simp: system_inv_def streams_ok_def system_environment_def)
next
  case (request_tca s client r tr')
  then show ?case
    using owns_live_request_tca [of s w r tr']
    by (auto simp: system_inv_def streams_ok_def system_environment_def)
next
  case (answer_tca s client before key csr after r tr')
  then show ?case
    using owns_live_answer_tca [of s "client (sys_trace s) csr" before key csr after w r tr']
    by (auto simp: system_inv_def streams_ok_def system_environment_def tca_answers_def)
next
  case (install s before ca after)
  then show ?case
    using owns_live_install [of s before ca after]
    by (auto simp: system_inv_def streams_ok_def)
next
  case (cancel_issuing s before key csr after u tr')
  then show ?case
    using owns_live_cancel_issuing [of s before key csr after u tr']
    by (auto simp: system_inv_def streams_ok_def)
next
  case (cancel_install s before ca after)
  then show ?case
    using owns_live_cancel_install [of s before ca after]
    by (auto simp: system_inv_def streams_ok_def)
qed

lemma system_inv_init:
  assumes "service_ca svc = None" and "system_environment w oak b svc"
  shows "system_inv w oak b (system_init svc)"
  using assms
  by (simp add: system_inv_def system_init_def owns_live_def owns_exactly_def live_def separate_def
      streams_ok_def own_init_def issuing_keys_def)

lemma reachable_config:
  "reachable w oak b svc s \<Longrightarrow> service_policies_config (sys_service s) = service_policies_config svc"
  by (induction rule: reachable.induct)
    (auto simp: system_init_def install_authority_def elim!: sys_stepE)

lemma reachable_streams_ok:
  assumes "reachable w oak b svc s"
  shows "streams_ok s"
  using assms
proof (induction rule: reachable.induct)
  case init
  show ?case by (simp add: streams_ok_def system_init_def)
next
  case (step s s')
  from step.hyps(2) show ?case
  proof (cases rule: sys_step.cases)
    case (turn i st sent item alive st' out tr')
    with streams_ok_turn [OF step.IH turn(2-4)] show ?thesis by (simp add: streams_ok_def)
  qed (use step.IH in \<open>auto simp: streams_ok_def certify_attestation_stream_def outcome_simps\<close>)
qed

lemma reachable_inv:
  assumes "reachable w oak b svc s" and "service_ca svc = None" and "system_environment w oak b svc"
  shows "system_inv w oak b s"
  using assms by (induction rule: reachable.induct) (auto intro: system_inv_init system_inv_step)

text \<open>A fallible handler that is tidy, run in a state: it returns, and the objects stay as they are.\<close>

lemma owns_live_tidy:
  assumes "owns_live s" and "tidy (system_objects s) m" and "run_state m (sys_trace s) = (r, tr')"
  shows "\<not> panics r \<and> safe (ownership tr') \<and> owned (ownership tr') = owned (ownership (sys_trace s))"
proof -
  from assms(1) have start: "safe (ownership (sys_trace s))" "owned (ownership (sys_trace s)) = system_objects s"
    by (simp_all add: owns_live_def owns_exactly_def system_objects_def)
  from ownsD [OF assms(2) [unfolded tidy_def] start assms(3)] start(2) show ?thesis by simp
qed

lemma expect_message_no_panic: "expect_message expected accept item \<noteq> Panicked m"
  by (auto simp: expect_message_def split: incoming.split option.split) (metis ok_or.simps option.exhaust outcome.distinct)

text \<open>A turn of an open stream whose client is there sends one message, unless its task panics.\<close>

lemma stream_step_answers:
  assumes "run_state (stream_step w oak b config st item True) tr = ((st', out), tr')" and "st \<noteq> Finished"
    and "\<And>ca nonce req r t. st = AwaitFinish ca nonce \<Longrightarrow>
      run_state (certify_finish w oak b config ca nonce req) tr = (r, t) \<Longrightarrow> \<not> panics r"
  shows "length out = 1"
proof (cases st)
  case (AwaitChallenge ca)
  with assms(1) expect_message_no_panic show ?thesis
    by (auto split: outcome.splits prod.splits)
next
  case (AwaitFinish ca nonce)
  show ?thesis
  proof (cases "expect_message ''Expected finish request'' as_certify_request item")
    case (Ok req)
    obtain r t where run: "run_state (certify_finish w oak b config ca nonce req) tr = (r, t)" by fastforce
    from assms(3) [OF AwaitFinish run] assms(1) AwaitFinish Ok run show ?thesis
      by (cases r) auto
  qed (use assms(1) AwaitFinish expect_message_no_panic in auto)
qed (use assms(2) in simp)

section \<open>Properties\<close>

text \<open>C9: in every reachable state of the service, whatever requests were served and however they
  interleaved, no foreign call has used or freed an object that was not alive, and the objects alive
  are exactly the keys and names of the authorities still referenced and the keys of the key generations
  that wait for the TCA's answer: nothing else is leaked and nothing is freed while a request may still
  use it.  This is under \<open>system_environment\<close>: the parameters return rather than panic, and
  \<open>EVP_PKEY_assign_RSA\<close> never fails, since the code leaks its RSA object when it does.\<close>

theorem service_owns_exactly_live_authorities:
  assumes "reachable w oak b svc s" and "service_ca svc = None" and "system_environment w oak b svc"
  shows "safe (ownership (sys_trace s))
    \<and> owned (ownership (sys_trace s)) = \<Union> (ca_objects ` set (live s)) \<union> set (map fst (sys_issuing s))
    \<and> (\<forall>ca \<in> set (live s). ca_wf ca)"
  using reachable_inv [OF assms]
  by (simp add: system_inv_def owns_live_def owns_exactly_def separate_def issuing_keys_def)

lemma sample_environment:
  "system_environment (obliging_world n) (sample_oak p) cbt_build (service_new None)"
  by (simp add: system_environment_def environment_ok_def sample_oak_answers cbt_build_def
      assign_rsa_succeeds_def service_new_def)

lemma sample_create_root:
  assumes "service_tca_client (sys_service s) = None"
  shows "\<exists>ca tr'. ca_cert_chain_der ca = [[1]] \<and>
    sys_step (obliging_world n) oak b s (s\<lparr>sys_pending := sys_pending s @ [ca], sys_trace := tr'\<rparr>)"
proof -
  obtain ca tr' where "run_state (new_root (obliging_world n)) (sys_trace s) = (Ok ca, tr')"
    "ca_cert_chain_der ca = [[1]]"
    using sample_new_root by blast
  with sys_step.create_root [OF assms this(1)] show ?thesis by auto
qed

lemma sample_reachable:
  assumes "service_tca_client svc = None" and "service_ca svc = None"
  shows "\<exists>s ca. reachable (obliging_world n) oak b svc s \<and> sys_pending s = [ca]
     \<and> live s = [ca] \<and> sys_streams s = [] \<and> sys_issuing s = []
     \<and> service_tca_client (sys_service s) = None"
proof -
  let ?s = "system_init svc"
  have init: "service_tca_client (sys_service ?s) = None"
    by (simp add: system_init_def assms(1))
  obtain ca tr' where
    "sys_step (obliging_world n) oak b ?s (?s\<lparr>sys_pending := sys_pending ?s @ [ca], sys_trace := tr'\<rparr>)"
    using sample_create_root [OF init] by blast
  from reachable.step [OF reachable.init this] show ?thesis
    by (intro exI conjI) (auto simp: system_init_def live_def assms)
qed

lemma new_service_simps:
  "service_tca_client (service_new None) = None" "service_ca (service_new None) = None"
  by (simp_all add: service_new_def)

lemma service_owns_exactly_live_authorities_witness:
  "\<exists>s ca. live s = [ca] \<and> owned (ownership (sys_trace s)) = ca_objects ca"
proof -
  obtain s ca where "reachable (obliging_world 0) (sample_oak []) cbt_build (service_new None) s"
    "live s = [ca]" "sys_issuing s = []"
    using sample_reachable [OF new_service_simps] by blast
  moreover from service_owns_exactly_live_authorities [OF this(1) _ sample_environment] this(3)
  have "owned (ownership (sys_trace s)) = \<Union> (ca_objects ` set (live s))"
    by (simp add: service_new_def)
  ultimately show ?thesis by auto
qed

text \<open>C10: the protocol of every stream: at most two messages are sent; a certificate is only ever the
  second, after a challenge with a 32-byte nonce; and an error ends the stream.\<close>

theorem stream_follows_protocol:
  assumes "reachable w oak b svc s" and "service_ca svc = None" and "system_environment w oak b svc"
    and "(st, sent) \<in> set (sys_streams s)"
  shows "length sent \<le> 2
    \<and> (\<forall>j < length sent. \<forall>reply. sent ! j = Ok (CertifyResponse reply) \<longrightarrow>
         j = 1 \<and> (\<exists>nonce. length nonce = 32 \<and> sent ! 0 = Ok (ChallengeResponse nonce)))
    \<and> (\<forall>j < length sent. \<forall>e. sent ! j = Err e \<longrightarrow> Suc j = length sent \<and> st = Finished)"
proof -
  from reachable_inv [OF assms(1-3)] assms(4) have "protocol_ok st sent"
    by (auto simp: system_inv_def streams_ok_def)
  then show ?thesis
    by (cases st) (auto simp: less_Suc_eq numeral_2_eq_2)
qed

lemma sample_stream:
  assumes "service_tca_client svc = None" and "service_ca svc = None"
  shows "\<exists>s ca. reachable (obliging_world n) oak b svc s
     \<and> service_ca (sys_service s) = Some ca \<and> sys_streams s = [(AwaitChallenge ca, [])]
     \<and> sys_pending s = [] \<and> service_tca_client (sys_service s) = None"
proof -
  let ?R = "reachable (obliging_world n) oak b svc"
  obtain s ca where s: "?R s" "sys_pending s = [ca]" "sys_streams s = []"
    "service_tca_client (sys_service s) = None"
    using sample_reachable [OF assms] by blast
  define s1 where "s1 = release_all (case service_ca (sys_service s) of None \<Rightarrow> [] | Some old \<Rightarrow> [old])
      (s\<lparr>sys_service := install_authority ca (sys_service s), sys_pending := [] @ []\<rparr>)"
  have s1: "?R s1"
    unfolding s1_def by (rule reachable.step [OF s(1) sys_step.install]) (simp add: s(2))
  have f1: "service_ca (sys_service s1) = Some ca" "sys_streams s1 = []" "sys_pending s1 = []"
    "service_tca_client (sys_service s1) = None"
    by (simp_all add: s1_def install_authority_def s(3,4))
  define s2 where "s2 = s1\<lparr>sys_streams := sys_streams s1 @ [(AwaitChallenge ca, [])]\<rparr>"
  have "?R s2"
    unfolding s2_def
    by (rule reachable.step [OF s1 sys_step.open_stream]) (simp add: certify_attestation_stream_def f1)
  moreover have "service_ca (sys_service s2) = Some ca" "sys_streams s2 = [(AwaitChallenge ca, [])]"
    "sys_pending s2 = []" "service_tca_client (sys_service s2) = None"
    by (simp_all add: s2_def f1)
  ultimately show ?thesis by blast
qed

lemma stream_follows_protocol_witness:
  "\<exists>s st e. reachable (obliging_world 0) (sample_oak []) cbt_build (service_new None) s
     \<and> (st, [Err e]) \<in> set (sys_streams s) \<and> st = Finished"
proof -
  obtain s ca where s: "reachable (obliging_world 0) (sample_oak []) cbt_build (service_new None) s"
    "sys_streams s = [(AwaitChallenge ca, [])]"
    using sample_stream [OF new_service_simps] by blast
  obtain st e tr' where "run_state (stream_step (obliging_world 0) (sample_oak []) cbt_build
      (service_policies_config (sys_service s)) (AwaitChallenge ca) EndOfStream True) (sys_trace s) =
      ((st, [Err e]), tr')"
    by (simp add: expect_message_def)
  from reachable.step [OF s(1) sys_step.turn [OF _ _ this, of 0 "[]"]] s(2)
  have "\<exists>t. reachable (obliging_world 0) (sample_oak []) cbt_build (service_new None) t
      \<and> sys_streams t = [(st, [Err e])]"
    by (intro exI conjI) auto
  then obtain t where t: "reachable (obliging_world 0) (sample_oak []) cbt_build (service_new None) t"
      "(st, [Err e]) \<in> set (sys_streams t)"
    by auto
  from stream_follows_protocol [OF t(1) new_service_simps(2) sample_environment t(2)] have "st = Finished"
    by simp
  with t show ?thesis by blast
qed

text \<open>C27: rotation does not reach open streams: no step of the system, the installation of a new key
  included, changes the authority of an open stream, so a stream certifies with the authority that
  was current when it was opened.\<close>

theorem open_stream_keeps_its_authority:
  assumes "(sys_step w oak b)\<^sup>*\<^sup>* s s'" and "i < length (sys_streams s)"
  shows "i < length (sys_streams s')
    \<and> set (state_cas (fst (sys_streams s' ! i))) \<subseteq> set (state_cas (fst (sys_streams s ! i)))"
  using assms(1)
proof (induction rule: rtranclp_induct)
  case base
  with assms(2) show ?case by simp
next
  case (step t u)
  have "i < length (sys_streams u) \<and>
      set (state_cas (fst (sys_streams u ! i))) \<subseteq> set (state_cas (fst (sys_streams t ! i)))"
    using step.hyps(2)
  proof (cases rule: sys_step.cases)
    case (turn j st sent item alive st' out tr')
    with step.IH stream_step_cas [OF turn(4)] show ?thesis
      by (cases "i = j") auto
  qed (use step.IH in \<open>auto simp: nth_append\<close>)
  with step.IH show ?case by blast
qed

lemma open_stream_keeps_its_authority_witness:
  "\<exists>(s :: avs_system) s' ca ca'. service_ca (sys_service s) = Some ca \<and> service_ca (sys_service s') = Some ca'
     \<and> (sys_step (obliging_world 0) (sample_oak []) cbt_build)\<^sup>*\<^sup>* s s'
     \<and> set (state_cas (fst (sys_streams s' ! 0))) \<subseteq> {ca}"
proof -
  let ?step = "sys_step (obliging_world 0) (sample_oak []) cbt_build"
  obtain s :: avs_system and ca where s: "service_ca (sys_service s) = Some ca" "sys_streams s = [(AwaitChallenge ca, [])]"
    "sys_pending s = []" "service_tca_client (sys_service s) = None"
    using sample_stream [OF new_service_simps] by blast
  obtain ca' tr' where create: "?step s (s\<lparr>sys_pending := sys_pending s @ [ca'], sys_trace := tr'\<rparr>)"
    using sample_create_root [OF s(4)] by blast
  define t where "t = s\<lparr>sys_pending := sys_pending s @ [ca'], sys_trace := tr'\<rparr>"
  define u where "u = release_all (case service_ca (sys_service t) of None \<Rightarrow> [] | Some old \<Rightarrow> [old])
      (t\<lparr>sys_service := install_authority ca' (sys_service t), sys_pending := [] @ []\<rparr>)"
  have "?step t u"
    unfolding u_def by (rule sys_step.install) (simp add: s(3) t_def)
  with create [folded t_def] have steps: "?step\<^sup>*\<^sup>* s u" by (meson rtranclp.rtrancl_refl rtranclp.rtrancl_into_rtrancl)
  have "service_ca (sys_service u) = Some ca'"
    by (simp add: u_def install_authority_def t_def)
  with steps s open_stream_keeps_its_authority [OF steps, of 0] show ?thesis
    by (intro exI [of _ s] exI [of _ u] exI [of _ ca] exI [of _ ca']) simp
qed

text \<open>C40: every request is answered, whatever the libraries answer: in every reachable state, under
  \<open>system_environment\<close> (the parameters return rather than panic, and \<open>EVP_PKEY_assign_RSA\<close> never fails), the
  unary handler returns a response or a status and does not panic, and each item that an open stream
  takes while its client is there is answered with exactly one message; both use only objects that
  are alive and leave exactly the objects that were alive before.\<close>

theorem requests_are_answered:
  assumes "reachable w oak b svc s" and "service_ca svc = None" and "system_environment w oak b svc"
  shows "(\<forall>req r tr'. run_state (certify_attestation w oak b (sys_service s) req) (sys_trace s) = (r, tr') \<longrightarrow>
      \<not> panics r \<and> safe (ownership tr') \<and> owned (ownership tr') = owned (ownership (sys_trace s)))
    \<and> (\<forall>st sent item st' out tr'. (st, sent) \<in> set (sys_streams s) \<and> st \<noteq> Finished
      \<and> run_state (stream_step w oak b (service_policies_config (sys_service s)) st item True) (sys_trace s) =
          ((st', out), tr') \<longrightarrow>
      length out = 1 \<and> safe (ownership tr') \<and> owned (ownership tr') = owned (ownership (sys_trace s)))"
proof -
  from reachable_inv [OF assms] have live: "owns_live s" and env: "environment_ok oak b"
    by (simp_all add: system_inv_def system_environment_def)
  note authority = owns_live_authority [OF live]
  have unary: "tidy (system_objects s) (certify_attestation w oak b (sys_service s) req)" for req
    using authority by (intro tidy_certify_attestation [OF env]) (auto simp: set_live)
  have turn: "length out = 1 \<and> safe (ownership tr') \<and> owned (ownership tr') = owned (ownership (sys_trace s))"
    if mem: "(st, sent) \<in> set (sys_streams s)" and open_st: "st \<noteq> Finished"
      and run: "run_state (stream_step w oak b (service_policies_config (sys_service s)) st item True) (sys_trace s) =
        ((st', out), tr')" for st sent item st' out tr'
  proof -
    have cas: "ca \<in> set (live s)" if "ca \<in> set (state_cas st)" for ca
      using mem that by (force simp: set_live)
    with authority have keeps: "keeps (system_objects s)
        (stream_step w oak b (service_policies_config (sys_service s)) st item True)"
      by (intro keeps_stream_step [OF env]) auto
    have "tidy (system_objects s) (certify_finish w oak b (service_policies_config (sys_service s)) ca nonce req)"
      if "st = AwaitFinish ca nonce" for ca nonce req
      using that cas authority by (intro tidy_certify_finish [OF env]) auto
    with stream_step_answers [OF run open_st] have "length out = 1"
      using owns_live_tidy [OF live] by blast
    moreover have "owns_exactly (sys_trace s) (set (live s)) (set (issuing_keys s))"
      using live by (simp add: owns_live_def)
    ultimately show ?thesis
      using owns_live_keeps [OF live keeps run] by (simp add: owns_exactly_def)
  qed
  show ?thesis
    using owns_live_tidy [OF live unary] turn by blast
qed

lemma requests_are_answered_witness:
  "\<exists>(s :: avs_system) ca st' out tr'. sys_streams s = [(AwaitChallenge ca, [])]
     \<and> run_state (stream_step (obliging_world 0) (sample_oak []) cbt_build (service_policies_config (sys_service s))
         (AwaitChallenge ca) EndOfStream True) (sys_trace s) = ((st', out), tr') \<and> length out = 1"
proof -
  obtain s ca where s: "reachable (obliging_world 0) (sample_oak []) cbt_build (service_new None) s"
    "sys_streams s = [(AwaitChallenge ca, [])]"
    using sample_stream [OF new_service_simps] by blast
  obtain st' out tr' where run: "run_state (stream_step (obliging_world 0) (sample_oak []) cbt_build
      (service_policies_config (sys_service s)) (AwaitChallenge ca) EndOfStream True) (sys_trace s) = ((st', out), tr')"
    by (metis surj_pair)
  moreover have "length out = 1"
    using requests_are_answered [OF s(1) new_service_simps(2) sample_environment, THEN conjunct2, rule_format,
        of "AwaitChallenge ca" "[]" EndOfStream st' out tr'] run s(2) by simp
  ultimately show ?thesis using s(2) by blast
qed

end
