(* ===== verification/Avs_Liveness.thy ===== *)
theory Avs_Liveness
  imports Avs_System
begin

text \<open>
  That the service does answer.  A stream task ends after at most two incoming items, whatever they
  are; and when the libraries behind the service report success, the certificate files are readable
  and the evidence is what the policy asks for, an honest client gets its certificate.

  The second part is stated for every world in which the library calls succeed from some moment on,
  not for one particular world: \<open>h\<close> below is the trace up to that moment, in which calls may have
  failed.  Which calls may then return which numbers is written out in \<open>accepted\<close>.
\<close>

section \<open>Runs of a stream task\<close>

text \<open>The whole task on the items that arrive, each with whether the receiver is still there.\<close>

fun stream_run ::
  "world \<Rightarrow> oak_library \<Rightarrow> build \<Rightarrow> policies_config \<Rightarrow> stream_state \<Rightarrow> (incoming \<times> bool) list \<Rightarrow>
     (stream_state \<times> outgoing list) ffi" where
  "stream_run w oak b config st [] = ret (st, [])"
| "stream_run w oak b config st ((item, alive) # rest) = do {
     (st', out) \<leftarrow> stream_step w oak b config st item alive;
     (st'', out') \<leftarrow> stream_run w oak b config st' rest;
     ret (st'', out @ out')
   }"

text \<open>How many more items the task can take.\<close>

fun turns_left :: "stream_state \<Rightarrow> nat" where
  "turns_left (AwaitChallenge ca) = 2"
| "turns_left (AwaitFinish ca nonce) = 1"
| "turns_left Finished = 0"

lemma turns_left_0 [simp]: "turns_left st = 0 \<longleftrightarrow> st = Finished"
  by (cases st) simp_all

lemma turns_left_step:
  assumes "run_state (stream_step w oak b config st item alive) tr = ((st', out), tr')"
  shows "turns_left st' \<le> turns_left st - 1 \<and> length out \<le> (if st = Finished then 0 else 1)"
proof (cases st)
  case (AwaitChallenge ca)
  with assms show ?thesis by (auto split: outcome.splits prod.splits if_splits)
next
  case (AwaitFinish ca nonce)
  with assms show ?thesis by (auto split: outcome.splits prod.splits if_splits)
next
  case Finished
  with assms show ?thesis by auto
qed

lemma stream_run_finished: "run_state (stream_run w oak b config Finished items) tr = ((Finished, []), tr)"
  by (induction items arbitrary: tr) auto

lemma stream_run_turns:
  assumes "run_state (stream_run w oak b config st items) tr = ((st', out), tr')"
  shows "turns_left st' \<le> turns_left st - length items \<and> length out \<le> turns_left st"
  using assms
proof (induction items arbitrary: st out tr)
  case (Cons x items)
  obtain item alive where x: "x = (item, alive)" by (cases x)
  with Cons.prems obtain st1 out1 tr1 out2 where
    step: "run_state (stream_step w oak b config st item alive) tr = ((st1, out1), tr1)"
    and rest: "run_state (stream_run w oak b config st1 items) tr1 = ((st', out2), tr')"
    and out: "out = out1 @ out2"
    by (auto split: prod.splits)
  from turns_left_step [OF step] Cons.IH [OF rest] show ?case
    by (cases st) (auto simp: out)
qed simp

section \<open>Programs that succeed\<close>

text \<open>
  From every trace that continues the history \<open>h\<close> the program returns a value, and one that satisfies
  \<open>P\<close>; the trace it leaves continues \<open>h\<close> too.  What the world answered before, in \<open>h\<close>, does not matter.
\<close>

definition succeeds_after :: "trace \<Rightarrow> ('e, 'a) outcome ffi \<Rightarrow> ('a \<Rightarrow> bool) \<Rightarrow> bool" where
  "succeeds_after h m P \<longleftrightarrow> (\<forall>tr. prefix h tr \<longrightarrow> (\<exists>a tr'. run_state m tr = (Ok a, tr') \<and> prefix h tr' \<and> P a))"

abbreviation succeeds :: "('e, 'a) outcome ffi \<Rightarrow> ('a \<Rightarrow> bool) \<Rightarrow> bool" where
  "succeeds \<equiv> succeeds_after []"

lemma succeedsI:
  "(\<And>tr. prefix h tr \<Longrightarrow> \<exists>a tr'. run_state m tr = (Ok a, tr') \<and> prefix h tr' \<and> P a) \<Longrightarrow> succeeds_after h m P"
  by (simp add: succeeds_after_def)

lemma succeeds_afterD:
  "succeeds_after h m P \<Longrightarrow> prefix h tr \<Longrightarrow> \<exists>a tr'. run_state m tr = (Ok a, tr') \<and> prefix h tr' \<and> P a"
  by (simp add: succeeds_after_def)

lemma succeedsD: "succeeds m P \<Longrightarrow> \<exists>a tr'. run_state m tr = (Ok a, tr') \<and> P a"
  by (simp add: succeeds_after_def)

lemma succeeds_mono: "succeeds_after h m P \<Longrightarrow> (\<And>a. P a \<Longrightarrow> Q a) \<Longrightarrow> succeeds_after h m Q"
  unfolding succeeds_after_def by blast

lemma succeeds_ret [simp]: "succeeds_after h (ret r) P \<longleftrightarrow> (\<exists>a. r = Ok a \<and> P a)"
  by (auto simp: succeeds_after_def)

lemma succeeds_bind:
  assumes "succeeds_after h m P" and "\<And>a. P a \<Longrightarrow> succeeds_after h (f (Ok a)) Q"
  shows "succeeds_after h (State_Monad.bind m f) Q"
proof (rule succeedsI)
  fix tr
  assume "prefix h tr"
  with succeeds_afterD [OF assms(1)] obtain a tr1 where "run_state m tr = (Ok a, tr1)" "prefix h tr1" "P a"
    by blast
  with succeeds_afterD [OF assms(2)]
  show "\<exists>c tr'. run_state (State_Monad.bind m f) tr = (Ok c, tr') \<and> prefix h tr' \<and> Q c"
    by simp
qed

lemma succeeds_bindE:
  "succeeds_after h m P \<Longrightarrow> (\<And>a. P a \<Longrightarrow> succeeds_after h (f a) Q) \<Longrightarrow> succeeds_after h (bindE m f) Q"
  unfolding bindE_def by (rule succeeds_bind, assumption) simp

lemma bindE_ret: "bindE (ret (Ok a)) f = f a"
  by (simp add: bindE_def)

lemma succeeds_or_cleanup:
  "succeeds_after h m P \<Longrightarrow> (\<And>a. P a \<Longrightarrow> succeeds_after h (f a) Q) \<Longrightarrow> succeeds_after h (or_cleanup m c f) Q"
  unfolding or_cleanup_def by (rule succeeds_bind, assumption) simp

lemma succeeds_unless_ok: "succeeds_after h m P \<Longrightarrow> succeeds_after h (unless_ok m c) P"
  unfolding unless_ok_def by (rule succeeds_bind) simp_all

lemma succeeds_map_err:
  "succeeds_after h m P \<Longrightarrow> succeeds_after h (do { r \<leftarrow> m; ret (map_err g r) }) P"
  by (rule succeeds_bind) simp_all

lemma succeeds_with_context:
  "succeeds_after h m P \<Longrightarrow> succeeds_after h (do { r \<leftarrow> m; ret (with_context s r) }) P"
  by (rule succeeds_bind) (simp_all add: with_context_def)

lemma succeeds_ask: "(\<And>tr. prefix h tr \<Longrightarrow> \<exists>a. f tr = Ok a \<and> P a) \<Longrightarrow> succeeds_after h (ask f) P"
  by (simp add: succeeds_after_def run_calls)

section \<open>A library that works\<close>

text \<open>
  The integers with which a call reports success: a length or a count is positive, the position of an
  extension is not negative, and every other call returns 1.  \<open>EVP_PKEY_cmp\<close> returns 1 for equal
  keys, so the key in the evidence is then the key of the request.
\<close>

fun accepted :: "bssl_call \<Rightarrow> int \<Rightarrow> bool" where
  "accepted (X509_sign x k) i \<longleftrightarrow> i > 0"
| "accepted (X509_REQ_sign x k) i \<longleftrightarrow> i > 0"
| "accepted (I2d_len obj x) i \<longleftrightarrow> i > 0"
| "accepted (Sk_GENERAL_NAME_push s g) i \<longleftrightarrow> i > 0"
| "accepted (ASN1_STRING_length x) i \<longleftrightarrow> i > 0"
| "accepted (X509_get_ext_by_NID x nid) i \<longleftrightarrow> i \<ge> 0"
| "accepted c i \<longleftrightarrow> i = 1"

definition library_succeeds_after :: "trace \<Rightarrow> world \<Rightarrow> bool" where
  "library_succeeds_after h w \<longleftrightarrow> (\<forall>tr c. prefix h tr \<longrightarrow>
     says_ptr w tr c \<and> says_bytes w tr c \<noteq> None \<and> accepted c (says_int w tr c))"

abbreviation library_succeeds :: "world \<Rightarrow> bool" where
  "library_succeeds \<equiv> library_succeeds_after []"

lemma library_succeedsD:
  assumes "library_succeeds_after h w" and "prefix h tr"
  shows "says_ptr w tr c" "\<exists>bs. says_bytes w tr c = Some bs" "accepted c (says_int w tr c)"
  using assms unfolding library_succeeds_after_def by auto

lemma obliging_library_succeeds: "library_succeeds (obliging_world n)"
proof -
  have "accepted c 1" for c
    by (cases c) simp_all
  then show ?thesis
    by (simp add: library_succeeds_after_def)
qed

text \<open>A call whose answer is a success continues where the code goes on.\<close>

lemma succeeds_call:
  assumes "library_succeeds_after h w"
  shows "(\<And>n. succeeds_after h (f (Obj n)) Q) \<Longrightarrow> succeeds_after h (State_Monad.bind (call_ptr w c) f) Q"
    and "(\<And>i. accepted c i \<Longrightarrow> succeeds_after h (g i) Q) \<Longrightarrow>
      succeeds_after h (State_Monad.bind (call_int w c) g) Q"
    and "succeeds_after h (v True) Q \<Longrightarrow> succeeds_after h (State_Monad.bind (call_bool w c) v) Q"
    and "(\<And>bs. succeeds_after h (k (Some bs)) Q) \<Longrightarrow> succeeds_after h (State_Monad.bind (call_bytes w c) k) Q"
    and "succeeds_after h (l ()) Q \<Longrightarrow> succeeds_after h (State_Monad.bind (call_unit c) l) Q"
proof -
  note answers = library_succeedsD [OF assms]
  show "(\<And>n. succeeds_after h (f (Obj n)) Q) \<Longrightarrow> succeeds_after h (State_Monad.bind (call_ptr w c) f) Q"
    by (simp add: succeeds_after_def run_calls answers(1))
  show "(\<And>i. accepted c i \<Longrightarrow> succeeds_after h (g i) Q) \<Longrightarrow>
      succeeds_after h (State_Monad.bind (call_int w c) g) Q"
    using answers(3) unfolding succeeds_after_def by (simp add: run_calls)
  show "succeeds_after h (v True) Q \<Longrightarrow> succeeds_after h (State_Monad.bind (call_bool w c) v) Q"
    by (simp add: succeeds_after_def run_calls answers(1))
  show "succeeds_after h (State_Monad.bind (call_bytes w c) k) Q" if "\<And>bs. succeeds_after h (k (Some bs)) Q"
  proof (rule succeedsI)
    fix tr
    assume h: "prefix h tr"
    then obtain bs where "says_bytes w tr c = Some bs" using answers(2) by blast
    with succeeds_afterD [OF that, of "tr @ [(c, RBytes (Some bs))]" bs] h
    show "\<exists>a tr'. run_state (State_Monad.bind (call_bytes w c) k) tr = (Ok a, tr') \<and> prefix h tr' \<and> Q a"
      by (simp add: run_calls)
  qed
  show "succeeds_after h (l ()) Q \<Longrightarrow> succeeds_after h (State_Monad.bind (call_unit c) l) Q"
    by (simp add: succeeds_after_def run_calls)
qed

lemma succeeds_if: "\<not> b \<Longrightarrow> succeeds_after h m Q \<Longrightarrow> succeeds_after h (if b then n else m) Q"
  by simp

named_theorems succeeding \<open>programs that succeed when the library does\<close>

lemma succeeds_add_ext_and_free [succeeding]:
  "library_succeeds_after h w \<Longrightarrow> e \<noteq> Null \<Longrightarrow> succeeds_after h (add_ext_and_free w x e a b) (\<lambda>_. True)"
  unfolding add_ext_and_free_def by (intro succeeds_if succeeds_call) simp_all

lemma succeeds_setters [succeeding]:
  assumes "library_succeeds_after h w"
  shows "succeeds_after h (set_x509_version w x) (\<lambda>_. True)"
    and "succeeds_after h (set_x509_validity_timestamps w x nb na) (\<lambda>_. True)"
    and "succeeds_after h (set_x509_leaf_basic_constraints w x) (\<lambda>_. True)"
    and "succeeds_after h (set_x509_key_usage w x) (\<lambda>_. True)"
    and "succeeds_after h (set_x509_authority_key_identifier w x der) (\<lambda>_. True)"
    and "succeeds_after h (sign_x509 w x k) (\<lambda>_. True)"
    and "succeeds_after h (set_x509_serial_random w x) (\<lambda>_. True)"
  unfolding set_x509_version_def set_x509_validity_timestamps_def set_x509_leaf_basic_constraints_def
    set_x509_key_usage_def set_x509_authority_key_identifier_def sign_x509_def set_x509_serial_random_def
  by (intro succeeds_call [OF assms] succeeds_if succeeds_add_ext_and_free [OF assms]; simp)+

lemma succeeds_extended_key_usage [succeeding]:
  assumes "library_succeeds_after h w" and "profile \<noteq> ProfileUnspecified"
  shows "succeeds_after h (set_x509_extended_key_usage w x profile) (\<lambda>_. True)"
  using assms(2) unfolding set_x509_extended_key_usage_def
  by (cases profile)
    (auto simp: bindE_def intro!: succeeds_call [OF assms(1)] succeeds_add_ext_and_free [OF assms(1)])

lemma succeeds_x509_to_der [succeeding]:
  "library_succeeds_after h w \<Longrightarrow> succeeds_after h (x509_to_der w x) (\<lambda>_. True)"
  unfolding x509_to_der_def by (auto intro!: succeeds_call)

lemma succeeds_create_san [succeeding]:
  assumes "library_succeeds_after h w" and "certificate_profile i \<noteq> ProfileUnspecified"
  shows "succeeds_after h (create_san_extension w ca i) (\<lambda>ext. ext \<noteq> Null)"
proof -
  have "succeeds_after h (create_san_extension_from_str w v kind) (\<lambda>ext. ext \<noteq> Null)" for v kind
    unfolding create_san_extension_from_str_def
    by (intro succeeds_call [OF assms(1)] succeeds_if) auto
  with assms(2) show ?thesis
    unfolding create_san_extension_def create_dns_extension_def create_spiffe_extension_def
    by (cases "certificate_profile i") simp_all
qed

text \<open>An authority that has a certificate and whose key and name are not behind a poisoned lock.\<close>

definition can_sign :: "certificate_authority \<Rightarrow> bool" where
  "can_sign ca \<longleftrightarrow> ca_cert_chain_der ca \<noteq> [] \<and> \<not> poisoned (issuer_name ca) \<and> \<not> poisoned (ca_key ca)"

lemma ca_wf_can_sign: "ca_wf ca \<Longrightarrow> can_sign ca"
  by (simp add: ca_wf_def can_sign_def)

lemma succeeds_generate_certificate:
  assumes "library_succeeds_after h w" and "can_sign ca" and "certificate_profile i \<noteq> ProfileUnspecified"
  shows "succeeds_after h (generate_certificate w ca i) (\<lambda>_. True)"
proof -
  obtain d ds where "ca_cert_chain_der ca = d # ds" "\<not> poisoned (issuer_name ca)" "\<not> poisoned (ca_key ca)"
    using assms(2) by (cases "ca_cert_chain_der ca") (auto simp: can_sign_def)
  note ca = this
  show ?thesis
    unfolding generate_certificate_def ca(1) list.case
    by (intro succeeds_call [OF assms(1)] succeeds_if succeeding [OF assms(1), THEN succeeds_or_cleanup])
      (use ca assms(3) in simp_all)
qed

section \<open>An honest request\<close>

lemma succeeds_verify_csr:
  assumes "library_succeeds_after h w"
  shows "succeeds_after h (verify_csr_and_get_public_key w csr) (\<lambda>_. True)"
  unfolding verify_csr_and_get_public_key_def
  by (intro succeeds_call [OF assms] succeeds_if) simp_all

text \<open>
  The user data that the binding check expects: the key of the request, and with a challenge also the
  challenge before it, both with their lengths.
\<close>

fun quotes :: "bytes option \<Rightarrow> bytes \<Rightarrow> bool" where
  "quotes None payload \<longleftrightarrow> payload \<noteq> []"
| "quotes (Some nonce) payload \<longleftrightarrow> length nonce < 2 ^ 32
     \<and> (\<exists>der. length der < 2 ^ 32 \<and> payload = chunk nonce @ chunk der)"

lemma quotes_nonempty: "quotes nonce payload \<Longrightarrow> payload \<noteq> []"
  by (cases nonce) (auto simp: chunk_def to_be_bytes_def)

lemma succeeds_verify_data_binding:
  assumes "library_succeeds_after h w" and "quotes nonce (first_payload oak (event_attestation_results results))"
  shows "succeeds_after h (verify_data_binding w oak results key nonce) (\<lambda>_. True)"
proof -
  have parse: "succeeds_after h (parse_quoted_key w der) (\<lambda>_. True)" for der
    unfolding parse_quoted_key_def key_pair_from_bytes_def
    by (rule succeeds_with_context) (intro succeeds_call [OF assms(1)] succeeds_if; simp)
  note checks = Let_def bindE_ret State_Monad.bind_assoc verify_data_binding_def key_pair_eq_def key_pair_drop_def
  note binding = succeeds_bindE [where P = "\<lambda>_. True"] succeeds_call [OF assms(1)]
  show ?thesis
  proof (cases nonce)
    case None
    with quotes_nonempty [OF assms(2)] parse show ?thesis
      by (auto simp: checks intro!: binding)
  next
    case (Some n)
    with assms(2) obtain der where
      "extract_payload (first_payload oak (event_attestation_results results)) = Ok (n, der)"
      by (auto simp: extract_payload_iff)
    with Some quotes_nonempty [OF assms(2)] parse show ?thesis
      by (auto simp: checks intro!: binding)
  qed
qed

text \<open>The certificate files: the pattern is readable, and so is every file it finds.\<close>

definition certificate_files_readable_after :: "trace \<Rightarrow> world \<Rightarrow> bool" where
  "certificate_files_readable_after h w \<longleftrightarrow> (\<forall>tr. prefix h tr \<longrightarrow>
     (\<exists>es. glob_paths w tr ''etc/pes-certs/**/*.pem'' = Some es \<and> None \<notin> set es)
     \<and> (\<forall>path. path_is_file w tr path \<longrightarrow> read_to_string w tr path \<noteq> None))"

abbreviation certificate_files_readable :: "world \<Rightarrow> bool" where
  "certificate_files_readable \<equiv> certificate_files_readable_after []"

lemma succeeds_read_entries:
  assumes "certificate_files_readable_after h w" and "None \<notin> set es"
  shows "succeeds_after h (read_entries w es) (\<lambda>_. True)"
  using assms(2)
proof (induction es)
  case (Cons e es)
  then obtain path where e: "e = Some path" by (cases e) auto
  from Cons have IH: "succeeds_after h (read_entries w es) (\<lambda>_. True)" by simp
  show ?case
  proof (rule succeedsI)
    fix tr
    assume h: "prefix h tr"
    with succeeds_afterD [OF IH] obtain certs tr' where
      "run_state (read_entries w es) tr = (Ok certs, tr')" "prefix h tr'"
      by blast
    moreover have "path_is_file w tr path \<Longrightarrow> \<exists>text. read_to_string w tr path = Some text"
      using assms(1) h by (auto simp: certificate_files_readable_after_def)
    ultimately show "\<exists>a tr'. run_state (read_entries w (e # es)) tr = (Ok a, tr') \<and> prefix h tr' \<and> True"
      by (cases "path_is_file w tr path") (auto simp: e run_calls bindE_def)
  qed
qed simp

lemma succeeds_load_keys:
  assumes "library_succeeds_after h w"
  shows "succeeds_after h (load_keys w index certs) (\<lambda>_. True)"
proof (induction certs arbitrary: index)
  case (Cons pem certs)
  have "succeeds_after h (extract_spki_from_pem w pem) (\<lambda>_. True)"
    unfolding extract_spki_from_pem_def
    by (intro succeeds_call [OF assms] succeeds_if) simp_all
  with Cons.IH show ?case
    by (auto intro!: succeeds_bindE)
qed simp

lemma succeeds_get_policy:
  assumes "library_succeeds_after h w" and "certificate_files_readable_after h w"
    and "policy_bundle_decode b (POLICY_BUNDLE b) = Some pb" and "name \<noteq> []"
    and "find (\<lambda>p. policy_name p = name) (rev (policies pb)) = Some p"
    and "name = ''development'' \<longrightarrow> include_development_policy config"
  shows "succeeds_after h (get_policy_with_config w b name config)
    (\<lambda>q. \<exists>kset. q = loaded_policy config (PROD_VERIFIER_POLICY b) kset p)"
proof -
  have reg: "policy_registry b = Ok (registry_of (policies pb))" "registry_of (policies pb) name = Some p"
    using assms(3-5) by (simp_all add: policy_registry_def build_policy_registry_def registry_of_lookup)
  have certs: "succeeds_after h (load_certificates w ''etc/pes-certs/**/*.pem'') (\<lambda>_. True)"
  proof (rule succeedsI)
    fix tr
    assume h: "prefix h tr"
    with assms(2) obtain es where "glob_paths w tr ''etc/pes-certs/**/*.pem'' = Some es" "None \<notin> set es"
      unfolding certificate_files_readable_after_def by blast
    with succeeds_afterD [OF succeeds_read_entries [OF assms(2)] h]
    show "\<exists>a tr'. run_state (load_certificates w ''etc/pes-certs/**/*.pem'') tr = (Ok a, tr') \<and> prefix h tr' \<and> True"
      by (simp add: load_certificates_def run_calls)
  qed
  have keys: "succeeds_after h (load_rsa_sha2_256_keyset w cs) (\<lambda>_. True)" for cs
    unfolding load_rsa_sha2_256_keyset_def
    by (auto intro!: succeeds_bindE [OF succeeds_load_keys [OF assms(1)]])
  have pes: "succeeds_after h (inject_pes_keys w p) (\<lambda>_. True)"
    unfolding inject_pes_keys_def
    by (intro succeeds_bindE [OF certs] succeeds_bindE [OF keys]) simp
  have dev: "\<not> (name = ''development'' \<and> \<not> include_development_policy config)"
    using assms(6) by simp
  have "succeeds_after h (get_policy_with_config w b name config) (\<lambda>_. True)"
    unfolding get_policy_with_config_def get_policy_with_config_and_c2sp_policy_def
    by (rule succeeds_if [OF dev])
      (auto simp: reg inject_c2sp_policy_def bindE_ret intro!: succeeds_bindE [OF pes])
  then show ?thesis
    using get_policy_run_Ok reg unfolding get_policy_with_config_def succeeds_after_def by fastforce
qed

text \<open>
  What the attestation library makes of the evidence under a policy: a verifier can be built, it
  accepts with status success and reports what the binding check expects as user data, and the windows it
  reports have a second in common with each other and with the ninety days from now.
\<close>

definition accepts_after :: "trace \<Rightarrow> world \<Rightarrow> oak_library \<Rightarrow> bytes option \<Rightarrow> attestation_results \<Rightarrow> bool" where
  "accepts_after h w oak nonce results \<longleftrightarrow>
     results_status results = status_success oak
     \<and> quotes nonce (first_payload oak (event_attestation_results results))
     \<and> (\<forall>tr. prefix h tr \<longrightarrow> (\<exists>secs. unix_time w tr = Some secs \<and> secs < 2 ^ 62
         \<and> (\<forall>s \<in> set (int secs # starts oak results).
              \<forall>e \<in> set ((int secs + 90 * 24 * 60 * 60) # ends oak results). s < e)))"

definition attests_after :: "trace \<Rightarrow> world \<Rightarrow> oak_library \<Rightarrow> policy \<Rightarrow> evidence \<Rightarrow> endorsements \<Rightarrow> bytes option \<Rightarrow> bool" where
  "attests_after h w oak q ev en nonce \<longleftrightarrow>
     (\<exists>rvs verifier. oak_reference_values q = Some rvs
      \<and> create_verifier oak rvs (map_option root_platform (root_layer ev)) = Ok verifier
      \<and> (\<forall>tr. prefix h tr \<longrightarrow> (\<exists>results. verifier tr ev en = Ok results \<and> accepts_after h w oak nonce results)))"

abbreviation attests :: "world \<Rightarrow> oak_library \<Rightarrow> policy \<Rightarrow> evidence \<Rightarrow> endorsements \<Rightarrow> bytes option \<Rightarrow> bool" where
  "attests \<equiv> attests_after []"

lemma validity_nonempty:
  assumes "secs < 2 ^ 62"
    and "\<forall>s \<in> set (int secs # starts oak results).
      \<forall>e \<in> set ((int secs + 90 * 24 * 60 * 60) # ends oak results). s < e"
  shows "\<exists>nb na. extract_validity_with_fallback oak results (wrap_i64 (int secs)) FALLBACK_VALIDITY = Ok (nb, na)"
proof -
  from assms(1) have "int secs < 2 ^ 62" by simp
  then have wraps: "wrap_i64 (int secs) = int secs"
    "wrap_i64 (int secs + FALLBACK_VALIDITY) = int secs + 90 * 24 * 60 * 60"
    by (simp_all add: wrap_i64_id FALLBACK_VALIDITY_def)
  let ?S = "set (int secs # starts oak results)"
    and ?E = "set ((int secs + 90 * 24 * 60 * 60) # ends oak results)"
  have "Max ?S \<in> ?S" "Min ?E \<in> ?E"
    by (intro Max_in Min_in; simp)+
  with assms(2) have "Max ?S < Min ?E" by blast
  then show ?thesis
    by (simp only: extract_validity_eq wraps Let_def if_True outcome.inject) simp
qed

lemma succeeds_binding_and_window:
  assumes lib: "library_succeeds_after h w" and acc: "accepts_after h w oak nonce results"
    and Q: "\<And>nb na. Q (f nb na)"
  shows "succeeds_after h (bindE (verify_data_binding w oak results key nonce) (\<lambda>_.
       bindE (current_time w) (\<lambda>now.
       bindE (liftE (extract_validity_with_fallback oak results now FALLBACK_VALIDITY))
         (\<lambda>(nb, na). ret (Ok (f nb na)))))) Q"
proof -
  from acc have "quotes nonce (first_payload oak (event_attestation_results results))"
    by (simp add: accepts_after_def)
  note binding = succeeds_verify_data_binding [OF lib this]
  have clock: "succeeds_after h (current_time w) (\<lambda>now. \<exists>nb na.
      extract_validity_with_fallback oak results now FALLBACK_VALIDITY = Ok (nb, na))"
  proof (rule succeedsI)
    fix tr
    assume h: "prefix h tr"
    with acc obtain secs where "unix_time w tr = Some secs" "secs < 2 ^ 62"
      "\<forall>s \<in> set (int secs # starts oak results).
        \<forall>e \<in> set ((int secs + 90 * 24 * 60 * 60) # ends oak results). s < e"
      unfolding accepts_after_def by blast
    with h validity_nonempty [OF this(2,3)]
    show "\<exists>now tr'. run_state (current_time w) tr = (Ok now, tr') \<and> prefix h tr' \<and>
        (\<exists>nb na. extract_validity_with_fallback oak results now FALLBACK_VALIDITY = Ok (nb, na))"
      by (auto simp: current_time_def run_calls)
  qed
  show ?thesis
    by (intro succeeds_bindE [OF binding] succeeds_bindE [OF clock]) (auto simp: bindE_ret Q)
qed

lemma succeeds_validate:
  assumes lib: "library_succeeds_after h w" and "certificate_files_readable_after h w"
    and "policy_bundle_decode b (POLICY_BUNDLE b) = Some pb" and "name \<noteq> []"
    and "find (\<lambda>p. policy_name p = name) (rev (policies pb)) = Some p"
    and "name = ''development'' \<longrightarrow> include_development_policy config"
    and opol: "policy_operator_policy p = Some opol" "is_operator_authorized opol info"
    and att: "\<And>kset. attests_after h w oak (loaded_policy config (PROD_VERIFIER_POLICY b) kset p) ev en nonce"
  shows "succeeds_after h (validate_csr_request w oak b csr ev en nonce name profile info config)
    (\<lambda>a. certificate_profile (fst a) = profile)"
  unfolding validate_csr_request_def Let_def
proof (intro succeeds_bindE [OF succeeds_verify_csr [OF lib]] succeeds_unless_ok
    succeeds_bindE [OF succeeds_with_context [OF succeeds_get_policy [OF assms(1-6)]]], goal_cases)
  case (1 key q)
  then obtain kset where q: "q = loaded_policy config (PROD_VERIFIER_POLICY b) kset p" by blast
  with opol(1) have qp: "policy_operator_policy q = Some opol"
    by (simp add: loaded_policy_identity_fields)
  from att [of kset, folded q] obtain rvs verifier where v: "oak_reference_values q = Some rvs"
    "create_verifier oak rvs (map_option root_platform (root_layer ev)) = Ok verifier"
    and acc: "\<And>tr. prefix h tr \<Longrightarrow> \<exists>results. verifier tr ev en = Ok results \<and> accepts_after h w oak nonce results"
    unfolding attests_after_def by blast
  have verify: "succeeds_after h (ask (\<lambda>tr. verifier tr ev en)) (accepts_after h w oak nonce)"
    using acc by (rule succeeds_ask)
  have status: "accepts_after h w oak nonce r \<Longrightarrow> \<not> results_status r \<noteq> status_success oak" for r
    by (simp add: accepts_after_def)
  show ?case
    unfolding qp v ok_or.simps bindE_ret
    by (intro succeeds_if succeeds_bindE [OF verify] succeeds_binding_and_window [OF lib])
      (use opol(2) status in auto)
qed

lemma issue_response_run:
  assumes "run_state (generate_certificate w ca i) tr = (Ok cert, tr')"
  shows "run_state (issue_response w ca i tlogs) tr =
    (Ok \<lparr>certificate_chain = cert # ca_cert_chain_der ca, tlog_verification_results = tlogs\<rparr>,
     tr' @ [(Free EVP_PKEY (public_key i), RUnit)])"
  using assms by (simp add: issue_response_def key_pair_drop_def run_calls get_ca_cert_chain_der_def)

lemma succeeds_issue:
  assumes "library_succeeds_after h w" and "can_sign ca" and "certificate_profile i \<noteq> ProfileUnspecified"
  shows "succeeds_after h (issue_response w ca i tlogs) (\<lambda>resp. tl (certificate_chain resp) = ca_cert_chain_der ca)"
  using succeeds_afterD [OF succeeds_generate_certificate [OF assms]] issue_response_run
  by (fastforce intro: succeedsI)

lemma resolved_profile_specified:
  assumes "resolve_policy_request sel role = Ok (name, profile)"
  shows "profile \<noteq> ProfileUnspecified"
proof -
  have "resolve_legacy_hint hint role = Ok (name, profile) \<Longrightarrow> profile \<noteq> ProfileUnspecified" for hint
    by (cases hint) (auto split: if_splits)
  with assms show ?thesis
    unfolding resolve_policy_request_Ok by (auto split: option.splits selector.splits)
qed

lemma succeeds_certify_finish:
  assumes "library_succeeds_after h w" and "can_sign ca"
    and "req_evidence req = Some ev" "req_endorsements req = Some en" "req_operator_info req = Some proto"
    and "operator_info_try_from proto = Ok info"
    and sel: "resolve_policy_request (req_selector req) (oi_role info) = Ok (name, profile)"
    and "succeeds_after h (validate_csr_request w oak b (req_csr req) ev en (Some nonce) name profile info config)
      (\<lambda>a. certificate_profile (fst a) = profile)"
  shows "succeeds_after h (certify_finish w oak b config ca nonce req)
    (\<lambda>resp. tl (certificate_chain resp) = ca_cert_chain_der ca)"
  unfolding certify_finish_def assms(3-6) sel ok_or.simps map_err.simps bindE_ret prod.case
  using assms(1,2) resolved_profile_specified [OF sel]
  by (intro succeeds_bindE [OF succeeds_map_err [OF assms(8)]]) (auto intro!: succeeds_issue)

lemma succeeds_certify_attestation:
  assumes "library_succeeds_after h w" and "service_ca svc = Some ca" "can_sign ca"
    and "req_evidence req = Some ev" "req_endorsements req = Some en" "req_operator_info req = Some proto"
    and "operator_info_try_from proto = Ok info"
    and sel: "resolve_policy_request (req_selector req) (oi_role info) = Ok (name, profile)"
    and valid: "succeeds_after h (validate_csr_request w oak b (req_csr req) ev en None name profile info
        (service_policies_config svc)) (\<lambda>a. certificate_profile (fst a) = profile)"
  shows "succeeds_after h (certify_attestation w oak b svc req)
    (\<lambda>resp. tl (certificate_chain resp) = ca_cert_chain_der ca)"
  unfolding certify_attestation_def assms(2,4-7) sel ok_or.simps map_err.simps bindE_ret prod.case
  using assms(1,3) resolved_profile_specified [OF sel]
  by (intro succeeds_bindE [OF succeeds_map_err [OF valid]]) (auto intro!: succeeds_issue)

section \<open>Properties\<close>

text \<open>C14: a stream task ends: after any two incoming items it is finished, whatever they are and
  whether or not the receiver is still there; further items change nothing, and in all it sends at
  most two messages.\<close>

theorem stream_task_terminates:
  assumes "length items \<ge> 2"
    and "run_state (stream_run w oak b config st items) tr = ((st', out), tr')"
  shows "st' = Finished \<and> length out \<le> 2
    \<and> run_state (stream_run w oak b config st' later) tr' = ((Finished, []), tr')"
proof -
  have "turns_left st \<le> 2" by (cases st) simp_all
  with stream_run_turns [OF assms(2)] assms(1) have "turns_left st' = 0" "length out \<le> 2" by linarith+
  then show ?thesis by (simp add: stream_run_finished)
qed

lemma stream_task_terminates_witness:
  "\<exists>st' out. fst (run_state (stream_run (obliging_world 0) (sample_oak []) cbt_build policies_config_default
      (AwaitChallenge sample_ca) [(Received (Some ChallengeRequest), True), (EndOfStream, True)]) []) =
      (st', out) \<and> st' = Finished \<and> length out \<le> 2"
proof -
  let ?items = "[(Received (Some ChallengeRequest), True), (EndOfStream, True)]"
  let ?run = "run_state (stream_run (obliging_world 0) (sample_oak []) cbt_build policies_config_default
      (AwaitChallenge sample_ca) ?items) []"
  obtain st' out tr' where run: "?run = ((st', out), tr')"
    by (metis surj_pair)
  have "2 \<le> length ?items" by simp
  from stream_task_terminates [OF this run] run show ?thesis by auto
qed

text \<open>An honest client is served: when the library calls succeed and the certificate files are
  readable, a client that asks for a challenge is sent one of 32 bytes, and when it answers with a
  request for an operator that the policy authorises and with evidence that the policy accepts, bound
  to that challenge, it is sent a certificate followed by the chain of the authority.\<close>

lemma honest_client_served:
  assumes lib: "library_succeeds w" and files: "certificate_files_readable w" and ca: "ca_wf ca"
    and pol: "policy_bundle_decode b (POLICY_BUNDLE b) = Some pb" "name \<noteq> []"
      "find (\<lambda>p. policy_name p = name) (rev (policies pb)) = Some p"
      "name = ''development'' \<longrightarrow> include_development_policy config"
    and rule: "policy_operator_policy p = Some opol" "\<lparr>rule_domain = oi_domain info, rule_role = oi_role info\<rparr> \<in> set (rules opol)"
    and info: "operator_info_try_from proto = Ok info"
    and sel: "resolve_policy_request sel (oi_role info) = Ok (name, profile)"
    and req: "\<And>nonce. req_evidence (client nonce) = Some (ev nonce) \<and> req_endorsements (client nonce) = Some en
      \<and> req_operator_info (client nonce) = Some proto \<and> req_selector (client nonce) = sel"
    and att: "\<And>nonce kset. length nonce = 32 \<Longrightarrow>
      attests w oak (loaded_policy config (PROD_VERIFIER_POLICY b) kset p) (ev nonce) en (Some nonce)"
  shows "\<exists>nonce tr1 resp tr2. length nonce = 32
    \<and> run_state (stream_step w oak b config (AwaitChallenge ca) (Received (Some ChallengeRequest)) True) tr =
        ((AwaitFinish ca nonce, [Ok (ChallengeResponse nonce)]), tr1)
    \<and> run_state (stream_step w oak b config (AwaitFinish ca nonce)
          (Received (Some (CertifyRequest (client nonce)))) True) tr1 =
        ((Finished, [Ok (CertifyResponse resp)]), tr2)
    \<and> tl (certificate_chain resp) = ca_cert_chain_der ca"
proof -
  obtain nonce tr1 where nonce: "run_state (generate_nonce w) tr = (nonce, tr1)" "length nonce = 32"
    by (metis length_generate_nonce surj_pair)
  have auth: "is_operator_authorized opol info"
    using rule(2) by (force simp: is_operator_authorized_def list_ex_iff)
  have validate: "succeeds (validate_csr_request w oak b csr (ev nonce) en (Some nonce) name profile info config)
      (\<lambda>a. certificate_profile (fst a) = profile)" for csr
    by (rule succeeds_validate [OF lib files pol rule(1) auth att [OF nonce(2)]])
  have "succeeds (certify_finish w oak b config ca nonce (client nonce))
      (\<lambda>resp. tl (certificate_chain resp) = ca_cert_chain_der ca)"
    using req [of nonce] sel validate
    by (intro succeeds_certify_finish [OF lib ca_wf_can_sign [OF ca] _ _ _ info]) auto
  from succeedsD [OF this, of tr1] nonce show ?thesis
    by (auto simp: expect_message_def)
qed

text \<open>
  A library whose verifier reports the bytes of the evidence as the nonce, and a client that puts
  the challenge there.
\<close>

definition echo_results :: "evidence \<Rightarrow> attestation_results" where
  "echo_results ev = \<lparr>results_status = 1, reason = [],
     event_attestation_results = [sample_event (chunk (evidence_rest ev) @ chunk [7])]\<rparr>"

definition echo_oak :: oak_library where
  "echo_oak = (sample_oak [])\<lparr>amd_transparent_verifier := (\<lambda>_ _ _ _ ev _. Ok (echo_results ev))\<rparr>"

definition echo_evidence :: "bytes \<Rightarrow> evidence" where
  "echo_evidence nonce = sample_evidence\<lparr>evidence_rest := nonce\<rparr>"

definition echo_client :: "bytes \<Rightarrow> certify_attestation_request" where
  "echo_client nonce =
     \<lparr>req_csr = [], req_evidence = Some (echo_evidence nonce), req_endorsements = Some sample_endorsements,
      req_operator_info = Some \<lparr>operator_domain = ''prod.google.com'', operator_role = ''prober''\<rparr>,
      req_selector = Some (CertificationParameters
        \<lparr>param_policy_name = ''prober'', param_certificate_profile = 2\<rparr>)\<rparr>"

lemma echo_simps:
  "starts echo_oak (echo_results ev) = [100]" "ends echo_oak (echo_results ev) = [5000]"
  "first_payload echo_oak (event_attestation_results (echo_results ev)) = chunk (evidence_rest ev) @ chunk [7]"
  "results_status (echo_results ev) = status_success echo_oak" "evidence_rest (echo_evidence nonce) = nonce"
  by (simp_all add: starts_def ends_def echo_results_def echo_oak_def sample_oak_def List.map_filter_def
      sample_event_def chunk_def to_be_bytes_def echo_evidence_def)

lemma echo_accepts:
  assumes "\<And>n. expected = Some n \<Longrightarrow> n = nonce \<and> length nonce < 2 ^ 32" and clock: "\<And>tr. unix_time w tr = Some 1000"
  shows "accepts_after h w echo_oak expected (echo_results (echo_evidence nonce))"
  using assms(1) unfolding accepts_after_def echo_simps clock
  by (cases expected) (auto intro!: exI [of _ "[7]"] simp: chunk_def to_be_bytes_def)

lemma echo_attests:
  assumes "\<And>n. expected = Some n \<Longrightarrow> n = nonce \<and> length nonce < 2 ^ 32" and "\<And>tr. unix_time w tr = Some 1000"
  shows "attests_after h w echo_oak (loaded_policy policies_config_default text kset cbt_policy)
     (echo_evidence nonce) sample_endorsements expected"
proof -
  have "accepts_after h w echo_oak expected (echo_results (echo_evidence nonce))"
    using assms by (rule echo_accepts)
  moreover
  have "\<exists>rvs. oak_reference_values (loaded_policy policies_config_default text kset cbt_policy) = Some rvs
      \<and> create_verifier echo_oak rvs p = Ok (\<lambda>_ ev _. Ok (echo_results ev))" for p
    by (cases kset)
      (simp_all add: loaded_policy_def policies_config_default_def policy_map_def cbt_policy_def
        sample_cbt_def cbt_map_def root_map_def create_verifier_def create_cbt_verifier_def sample_binary_def
        create_transparent_verifier_def echo_oak_def on_binary_def fun_eq_iff)
  ultimately show ?thesis
    unfolding attests_after_def by blast
qed

lemma echo_setting:
  "library_succeeds (obliging_world 1000)" "certificate_files_readable (obliging_world 1000)"
  "policy_bundle_decode cbt_build (POLICY_BUNDLE cbt_build) = Some \<lparr>policies = [cbt_policy]\<rparr>"
  "find (\<lambda>p. policy_name p = ''prober'') (rev (policies \<lparr>policies = [cbt_policy]\<rparr>)) = Some cbt_policy"
  "policy_operator_policy cbt_policy = Some \<lparr>rules = [\<lparr>rule_domain = ''prod.google.com'', rule_role = ''prober''\<rparr>]\<rparr>"
  "operator_info_try_from \<lparr>operator_domain = ''prod.google.com'', operator_role = ''prober''\<rparr> = Ok sample_operator"
  "resolve_policy_request (req_selector (echo_client nonce)) (oi_role sample_operator) = Ok (''prober'', Mtls)"
proof -
  show "library_succeeds (obliging_world 1000)"
    by (rule obliging_library_succeeds)
  show "certificate_files_readable (obliging_world 1000)"
    by (simp add: certificate_files_readable_after_def obliging_world_def)
  show "policy_bundle_decode cbt_build (POLICY_BUNDLE cbt_build) = Some \<lparr>policies = [cbt_policy]\<rparr>"
    "find (\<lambda>p. policy_name p = ''prober'') (rev (policies \<lparr>policies = [cbt_policy]\<rparr>)) = Some cbt_policy"
    "policy_operator_policy cbt_policy = Some \<lparr>rules = [\<lparr>rule_domain = ''prod.google.com'', rule_role = ''prober''\<rparr>]\<rparr>"
    by (simp_all add: cbt_build_def cbt_policy_def sample_policy_def)
  show "operator_info_try_from \<lparr>operator_domain = ''prod.google.com'', operator_role = ''prober''\<rparr> = Ok sample_operator"
    using sample_operator_valid
    by (simp add: operator_info_try_from_def operator_info_new_Ok sample_operator_def)
  show "resolve_policy_request (req_selector (echo_client nonce)) (oi_role sample_operator) = Ok (''prober'', Mtls)"
    by (simp add: resolve_policy_request_def certificate_profile_try_from_def echo_client_def)
qed

lemma echo_finish:
  assumes "ca_wf ca" and "length nonce = 32"
  shows "succeeds (certify_finish (obliging_world 1000) echo_oak cbt_build policies_config_default ca nonce
    (echo_client nonce)) (\<lambda>resp. tl (certificate_chain resp) = ca_cert_chain_der ca)"
proof -
  have "succeeds (validate_csr_request (obliging_world 1000) echo_oak cbt_build csr (echo_evidence nonce)
      sample_endorsements (Some nonce) ''prober'' Mtls sample_operator policies_config_default)
      (\<lambda>a. certificate_profile (fst a) = Mtls)" for csr
    using assms(2)
    by (intro succeeds_validate [OF echo_setting(1-3) _ echo_setting(4) _ echo_setting(5) _ echo_attests])
      (simp_all add: is_operator_authorized_def sample_operator_def)
  then show ?thesis
    by (intro succeeds_certify_finish [OF echo_setting(1) ca_wf_can_sign [OF assms(1)] _ _ _ echo_setting(6,7)])
      (simp_all add: echo_client_def)
qed

end
