(* ===== verification/Avs_Startup.thy ===== *)
theory Avs_Startup
  imports Avs_System
begin

text \<open>
  Start-up: the application configuration of \<open>avs_server/src/config.rs\<close> and the \<open>main\<close> function of
  \<open>avs_server/src/main.rs\<close>, up to the call that serves requests.  The orchestrator, the JSON parser
  and the gRPC server are the fields of \<open>startup_environment\<close>; log lines are left out.

  The last part joins start-up to the running system: whatever \<open>main\<close> serves satisfies what the
  system invariant asks of the initial service.
\<close>

section \<open>Configuration\<close>

record app_config =
  use_self_signed_cert :: bool
  tca_endpoint :: string
  config_include_development_policy :: bool
  config_enable_c2sp_tlog :: bool

definition default_use_self_signed_cert :: bool where
  "default_use_self_signed_cert = False"

definition default_tca_endpoint :: string where
  "default_tca_endpoint = ''http://10.0.2.100:8008''"

definition default_include_development_policy :: bool where
  "default_include_development_policy = True"

definition default_enable_c2sp_tlog :: bool where
  "default_enable_c2sp_tlog = False"

definition app_config_default :: app_config where
  "app_config_default =
     \<lparr>use_self_signed_cert = default_use_self_signed_cert,
      tca_endpoint = default_tca_endpoint,
      config_include_development_policy = default_include_development_policy,
      config_enable_c2sp_tlog = default_enable_c2sp_tlog\<rparr>"

text \<open>
  What the JSON parser finds for each field of the structure, \<open>None\<close> where the document does not
  have the field; the \<open>#[serde(default)]\<close> attributes fill in what is missing.
\<close>

record app_config_json =
  json_use_self_signed_cert :: "bool option"
  json_tca_endpoint :: "string option"
  json_include_development_policy :: "bool option"
  json_enable_c2sp_tlog :: "bool option"

definition app_config_deserialize :: "app_config_json \<Rightarrow> app_config" where
  "app_config_deserialize j =
     \<lparr>use_self_signed_cert = unwrap_or default_use_self_signed_cert (json_use_self_signed_cert j),
      tca_endpoint = unwrap_or default_tca_endpoint (json_tca_endpoint j),
      config_include_development_policy =
        unwrap_or default_include_development_policy (json_include_development_policy j),
      config_enable_c2sp_tlog = unwrap_or default_enable_c2sp_tlog (json_enable_c2sp_tlog j)\<rparr>"

section \<open>The main function\<close>

record startup_environment =
  main_orchestrator_channel :: bool
  application_config :: "bytes option"
  json_from_str :: "string \<Rightarrow> app_config_json option"
  app_ready_accepted :: bool
  server_ends_well :: bool
  tca_env :: tca_environment

datatype startup_error =
    StartupContext string
  | OrchestratorStatus
  | NotUtf8
  | StartupStatus grpc_status
  | ServerFailed

text \<open>The calls of \<open>main\<close> that are visible outside, in order.\<close>

datatype startup_action = NotifyAppReady | Serve string avs_service

text \<open>\<open>String::from_utf8\<close>: the bytes unchanged when lossy decoding replaces nothing.\<close>

definition from_utf8 :: "bytes \<Rightarrow> string option" where
  "from_utf8 bs = (let s = from_utf8_lossy bs in if as_bytes s = bs then Some s else None)"

fun certificate_error_message :: "certificate_error \<Rightarrow> string" where
  "certificate_error_message (Platform s) = ''Platform error: '' @ s"
| "certificate_error_message (Network s) = ''Network error: '' @ s"
| "certificate_error_message (Protocol s) = ''Protocol error: '' @ s"
| "certificate_error_message (Unknown s) = ''Unknown error: '' @ s"

definition load_config :: "startup_environment \<Rightarrow> (startup_error, app_config) outcome" where
  "load_config env =
     bind_outcome (ok_or OrchestratorStatus (application_config env)) (\<lambda>bytes.
     bind_outcome (ok_or NotUtf8 (from_utf8 bytes)) (\<lambda>config_string.
     if config_string = [] then Ok app_config_default
     else map_ok app_config_deserialize
       (ok_or (StartupContext ''failed to parse application config'')
         (json_from_str env config_string))))"

definition startup_tca_client ::
  "startup_environment \<Rightarrow> app_config \<Rightarrow> (startup_error, tca_client option) outcome" where
  "startup_tca_client env config =
     (if \<not> use_self_signed_cert config then
        map_ok Some (map_err (\<lambda>e. StartupStatus (Status Internal
            (Text (''Failed to create tca_client: '' @ certificate_error_message e))))
          (oak_tca_client_create (tca_env env) (tca_endpoint config)))
      else Ok None)"

definition startup_policies_config :: "app_config \<Rightarrow> policies_config" where
  "startup_policies_config config =
     \<lparr>include_development_policy = config_include_development_policy config,
      enable_c2sp_tlog = config_enable_c2sp_tlog config\<rparr>"

definition build_service :: "startup_environment \<Rightarrow> (startup_error, avs_service) outcome" where
  "build_service env =
     bind_outcome (if main_orchestrator_channel env then Ok ()
       else Err (StartupContext ''failed to create orchestrator channel'')) (\<lambda>_.
     bind_outcome (load_config env) (\<lambda>config.
     bind_outcome (startup_tca_client env config) (\<lambda>tca.
     Ok (service_new_with_policies_config tca (startup_policies_config config)))))"

text \<open>
  The server future is built before the orchestrator is told that the application is ready, and
  runs, listening, only when it is awaited after that.
\<close>

definition avs_main :: "startup_environment \<Rightarrow> startup_action list \<times> (startup_error, unit) outcome" where
  "avs_main env =
     (case build_service env of
        Ok svc \<Rightarrow>
          if app_ready_accepted env then
            ([NotifyAppReady, Serve ''[::]:8080'' svc],
             if server_ends_well env then Ok () else Err ServerFailed)
          else ([NotifyAppReady], Err (StartupContext ''failed to notify that app is ready''))
      | Err e \<Rightarrow> ([], Err e)
      | Panicked s \<Rightarrow> ([], Panicked s))"

section \<open>The service that is served\<close>

lemma build_service_Ok:
  "build_service env = Ok svc \<longleftrightarrow>
     main_orchestrator_channel env \<and>
     (\<exists>config tca. load_config env = Ok config \<and> startup_tca_client env config = Ok tca
        \<and> svc = service_new_with_policies_config tca (startup_policies_config config))"
  by (auto simp: build_service_def outcome_simps)

lemma startup_tca_client_Ok:
  "startup_tca_client env config = Ok tca \<longleftrightarrow>
     (if use_self_signed_cert config then tca = None
      else \<exists>client. oak_tca_client_create (tca_env env) (tca_endpoint config) = Ok client
        \<and> tca = Some client)"
  by (auto simp: startup_tca_client_def outcome_simps)

lemma load_config_Ok:
  "load_config env = Ok config \<longleftrightarrow>
     (\<exists>bytes s. application_config env = Some bytes \<and> from_utf8 bytes = Some s \<and>
       (if s = [] then config = app_config_default
        else \<exists>j. json_from_str env s = Some j \<and> config = app_config_deserialize j))"
  by (auto simp: load_config_def outcome_simps)

lemma served_service:
  "Serve addr svc \<in> set (fst (avs_main env)) \<longleftrightarrow>
     addr = ''[::]:8080'' \<and> app_ready_accepted env \<and> build_service env = Ok svc"
  by (auto simp: avs_main_def split: outcome.splits if_splits)

lemma from_utf8_empty [simp]: "from_utf8 [] = Some []"
  by (simp add: from_utf8_def from_utf8_lossy_def as_bytes_def)

lemma served_service_initial:
  assumes "build_service env = Ok svc"
  shows "service_ca svc = None \<and> (\<forall>client. service_tca_client svc = Some client \<longrightarrow> tca_answers client)"
proof -
  from assms obtain config tca where tca: "startup_tca_client env config = Ok tca"
    and svc: "svc = service_new_with_policies_config tca (startup_policies_config config)"
    by (auto simp: build_service_Ok)
  have "tca_answers client" if "tca = Some client" for client
    using tca that oak_tca.client_answers
    by (auto simp: startup_tca_client_Ok oak_tca_client_create_Ok split: if_splits)
  with svc show ?thesis
    by (simp add: service_new_with_policies_config_def)
qed

section \<open>Properties\<close>

text \<open>C16: \<open>main\<close> serves requests exactly when the orchestrator is there, its configuration is UTF-8
  and empty or readable, the TCA client can be made (or is not wanted) and the orchestrator accepts
  the ready notification, which comes first; the service then has no authority yet, has a TCA client
  for the configured endpoint unless self-signed certificates are configured, and uses the
  configured policy switches.\<close>

theorem main_serves_configured_service:
  "(Serve addr svc \<in> set (fst (avs_main env)) \<longleftrightarrow>
     addr = ''[::]:8080'' \<and> main_orchestrator_channel env \<and> app_ready_accepted env \<and>
     (\<exists>config tca. load_config env = Ok config
        \<and> (if use_self_signed_cert config then tca = None
           else \<exists>client. oak_tca_client_create (tca_env env) (tca_endpoint config) = Ok client
             \<and> tca = Some client)
        \<and> svc = \<lparr>service_tca_client = tca, service_ca = None, service_policies_config =
             \<lparr>include_development_policy = config_include_development_policy config,
              enable_c2sp_tlog = config_enable_c2sp_tlog config\<rparr>\<rparr>))
   \<and> (fst (avs_main env) \<in> {[], [NotifyAppReady]}
      \<or> (\<exists>addr svc. fst (avs_main env) = [NotifyAppReady, Serve addr svc]))"
proof -
  have "fst (avs_main env) \<in> {[], [NotifyAppReady]}
      \<or> (\<exists>addr svc. fst (avs_main env) = [NotifyAppReady, Serve addr svc])"
    by (simp add: avs_main_def split: outcome.split)
  then show ?thesis
    unfolding served_service build_service_Ok startup_tca_client_Ok service_new_with_policies_config_def
      startup_policies_config_def
    by blast
qed

text \<open>An absent configuration and an empty JSON object mean the same thing, and it includes the
  development policy: with either, a served service hands out certificates for the development
  policy to its operators and obtains its authority from the default TCA endpoint.\<close>

lemma default_configuration_includes_development:
  assumes "Serve addr svc \<in> set (fst (avs_main env))"
    and "application_config env = Some [] \<or>
      (\<exists>bytes s j. application_config env = Some bytes \<and> from_utf8 bytes = Some s \<and> s \<noteq> []
        \<and> json_from_str env s = Some j
        \<and> j = \<lparr>json_use_self_signed_cert = None, json_tca_endpoint = None,
               json_include_development_policy = None, json_enable_c2sp_tlog = None\<rparr>)"
  shows "include_development_policy (service_policies_config svc)
    \<and> \<not> enable_c2sp_tlog (service_policies_config svc)
    \<and> (\<exists>client. oak_tca_client_create (tca_env env) ''http://10.0.2.100:8008'' = Ok client
         \<and> service_tca_client svc = Some client)"
proof -
  have "load_config env = Ok app_config_default"
    using assms(2) unfolding load_config_Ok
    by (elim disjE exE conjE)
      (rule exI conjI | assumption | simp add: app_config_deserialize_def app_config_default_def)+
  with assms(1) show ?thesis
    by (auto simp: served_service build_service_Ok startup_tca_client_Ok app_config_default_def
        service_new_with_policies_config_def startup_policies_config_def
        default_use_self_signed_cert_def default_include_development_policy_def
        default_enable_c2sp_tlog_def default_tca_endpoint_def)
qed

definition sample_startup :: startup_environment where
  "sample_startup = \<lparr>main_orchestrator_channel = True, application_config = Some [],
     json_from_str = (\<lambda>_. None), app_ready_accepted = True, server_ends_well = True,
     tca_env = sample_tca\<rparr>"

lemma sample_served:
  "\<exists>svc. Serve ''[::]:8080'' svc \<in> set (fst (avs_main sample_startup))"
proof -
  have "\<exists>client. oak_tca_client_create sample_tca e = Ok client" for e
    by (simp add: oak_tca_client_create_Ok) (simp add: sample_tca_def)
  then have "\<exists>tca. startup_tca_client sample_startup app_config_default = Ok tca"
    by (simp add: startup_tca_client_Ok sample_startup_def app_config_default_def
        default_use_self_signed_cert_def)
  then show ?thesis
    by (auto simp: served_service build_service_Ok load_config_Ok sample_startup_def)
qed

end
