(* ===== verification/Signing_Discipline.thy ===== *)
theory Signing_Discipline
  imports Avs_System
begin

text \<open>
  What the service signs.  The calls of a program are judged one by one, each against the trace
  before it: \<open>obeys J m tr\<close> says that \<open>m\<close>, started on the trace \<open>tr\<close>, only appends to it and that
  every call it makes is allowed by \<open>J\<close> there.  The locale \<open>call_discipline\<close> asks of \<open>J\<close> that it
  allows every call that is not a signature, the signature under the authority's own certificate where
  the service signs its own, and the signature under a leaf certificate with the fields that the code
  sets, wherever \<open>issuable\<close> allows to issue; all handlers then obey it.

  Two disciplines are used: the one that allows everything, interpreted here, which says that traces
  only grow, and in \<open>Chain_Of_Trust\<close> the one that demands for a leaf a validated identity and an
  anchored authority.
\<close>

section \<open>Judging calls\<close>

definition obeys :: "(trace \<Rightarrow> bssl_call \<Rightarrow> bool) \<Rightarrow> 'a ffi \<Rightarrow> trace \<Rightarrow> bool" where
  "obeys J m tr \<longleftrightarrow> (\<exists>new. snd (run_state m tr) = tr @ new
     \<and> (\<forall>us e vs. new = us @ e # vs \<longrightarrow> J (tr @ us) (fst e)))"

named_theorems obeying \<open>rules for programs whose calls obey a discipline\<close>

lemma obeys_ret [obeying]: "obeys J (ret a) tr"
  by (simp add: obeys_def)

lemma obeys_ask [obeying]: "obeys J (ask f) tr"
  by (simp add: obeys_def ask_def)

lemma obeys_calls:
  assumes "J tr c"
  shows "obeys J (call_ptr w c) tr" "obeys J (call_part w c p f) tr" "obeys J (call_int w c) tr"
    "obeys J (call_bool w c) tr" "obeys J (call_bytes w c) tr" "obeys J (call_unit c) tr"
  using assms by (auto simp: obeys_def run_calls Cons_eq_append_conv)

lemma obeys_bind [obeying]:
  assumes m: "obeys J m tr" and f: "\<And>a tr1. run_state m tr = (a, tr1) \<Longrightarrow> obeys J (f a) tr1"
  shows "obeys J (State_Monad.bind m f) tr"
proof -
  obtain a tr1 where a: "run_state m tr = (a, tr1)" by (cases "run_state m tr")
  from m a obtain new where new: "tr1 = tr @ new" "\<And>us e vs. new = us @ e # vs \<Longrightarrow> J (tr @ us) (fst e)"
    by (auto simp: obeys_def)
  from f [OF a] obtain later where later: "snd (run_state (f a) tr1) = tr1 @ later"
    "\<And>us e vs. later = us @ e # vs \<Longrightarrow> J (tr1 @ us) (fst e)"
    by (auto simp: obeys_def)
  have "J (tr @ us) (fst e)" if split: "new @ later = us @ e # vs" for us e vs
  proof (cases "length us < length new")
    case True
    with split obtain ws where "new = us @ e # ws"
      by (auto simp: append_eq_append_conv2 append_eq_Cons_conv)
    with new(2) show ?thesis by blast
  next
    case False
    with split obtain ws where "us = new @ ws" "later = ws @ e # vs"
      by (auto simp: append_eq_append_conv2 append_eq_Cons_conv)
    with new(1) later(2) show ?thesis by simp
  qed
  with a new(1) later(1) show ?thesis
    by (auto simp: obeys_def)
qed

lemma obeys_if [obeying]:
  "(b \<Longrightarrow> obeys J m tr) \<Longrightarrow> (\<not> b \<Longrightarrow> obeys J n tr) \<Longrightarrow> obeys J (if b then m else n) tr"
  by simp

lemma obeys_case_option [obeying]:
  "(x = None \<Longrightarrow> obeys J m tr) \<Longrightarrow> (\<And>y. x = Some y \<Longrightarrow> obeys J (f y) tr) \<Longrightarrow>
     obeys J (case x of None \<Rightarrow> m | Some y \<Rightarrow> f y) tr"
  by (cases x) simp_all

lemma obeys_case_list [obeying]:
  "(xs = [] \<Longrightarrow> obeys J m tr) \<Longrightarrow> (\<And>y ys. xs = y # ys \<Longrightarrow> obeys J (f y ys) tr) \<Longrightarrow>
     obeys J (case xs of [] \<Rightarrow> m | y # ys \<Rightarrow> f y ys) tr"
  by (cases xs) simp_all

lemma obeys_case_prod [obeying]:
  "(\<And>x y. p = (x, y) \<Longrightarrow> obeys J (f x y) tr) \<Longrightarrow> obeys J (case p of (x, y) \<Rightarrow> f x y) tr"
  by (cases p) simp

lemma obeys_case_outcome [obeying]:
  "(\<And>a. r = Ok a \<Longrightarrow> obeys J (f a) tr) \<Longrightarrow> (\<And>e. r = Err e \<Longrightarrow> obeys J (g e) tr) \<Longrightarrow>
   (\<And>s. r = Panicked s \<Longrightarrow> obeys J (h s) tr) \<Longrightarrow>
     obeys J (case r of Ok a \<Rightarrow> f a | Err e \<Rightarrow> g e | Panicked s \<Rightarrow> h s) tr"
  by (cases r) simp_all

lemma obeys_bindE [obeying]:
  assumes "obeys J m tr" and "\<And>a tr1. run_state m tr = (Ok a, tr1) \<Longrightarrow> obeys J (f a) tr1"
  shows "obeys J (bindE m f) tr"
  unfolding bindE_def using assms by (intro obeying) auto

lemma obeys_or_cleanup [obeying]:
  assumes "obeys J m tr" and "\<And>a tr1. run_state m tr = (Ok a, tr1) \<Longrightarrow> obeys J (f a) tr1"
    and "\<And>tr1. obeys J c tr1"
  shows "obeys J (or_cleanup m c f) tr"
  unfolding or_cleanup_def using assms by (intro obeying) auto

lemma obeys_unless_ok [obeying]:
  assumes "obeys J m tr" and "\<And>tr1. obeys J c tr1"
  shows "obeys J (unless_ok m c) tr"
  unfolding unless_ok_def using assms by (intro obeying) auto

lemma obeysD:
  assumes "obeys J m tr" and "run_state m tr = (r, tr')"
  shows "prefix tr tr'" "tr' = pre @ e # post \<Longrightarrow> length tr \<le> length pre \<Longrightarrow> J pre (fst e)"
proof -
  from assms obtain new where new: "tr' = tr @ new" "\<And>us e vs. new = us @ e # vs \<Longrightarrow> J (tr @ us) (fst e)"
    by (auto simp: obeys_def)
  then show "prefix tr tr'" by simp
  assume "tr' = pre @ e # post" "length tr \<le> length pre"
  with new(1) obtain us where "pre = tr @ us" "new = us @ e # post"
    by (auto simp: append_eq_append_conv2)
  with new(2) show "J pre (fst e)" by blast
qed

lemma run_call_made:
  "run_state (call_ptr w c) tr = (p, tr1) \<Longrightarrow> p = (if says_ptr w tr c then next_obj tr else Null)
     \<and> tr1 = with_call c (RPtr (says_ptr w tr c)) tr"
  "run_state (call_int w c) tr = (i, tr1) \<Longrightarrow> tr1 = with_call c (RInt i) tr"
  "run_state (call_unit c) tr = (u, tr1) \<Longrightarrow> tr1 = with_call c RUnit tr"
  by (auto simp: run_calls with_call_def)

section \<open>A discipline of signatures\<close>

fun signs :: "bssl_call \<Rightarrow> bool" where
  "signs (X509_sign x k) = True"
| "signs _ = False"

locale call_discipline =
  fixes J :: "trace \<Rightarrow> bssl_call \<Rightarrow> bool"
    and self_signing :: bool
    and issuable :: "trace \<Rightarrow> certificate_authority \<Rightarrow> provisioned_identity \<Rightarrow> bool"
  assumes quiet: "\<not> signs c \<Longrightarrow> J tr c"
    and root: "self_signing \<Longrightarrow> J (root_fields k name st x tr) (X509_sign x k)"
    and leaf: "issuable tr ca i \<Longrightarrow> J (leaf_fields ca i pushed x tr) (X509_sign x (guarded (ca_key ca)))"
begin

lemma quiet_calls [obeying]:
  assumes "\<not> signs c"
  shows "obeys J (call_ptr w c) tr" "obeys J (call_part w c p f) tr" "obeys J (call_int w c) tr"
    "obeys J (call_bool w c) tr" "obeys J (call_bytes w c) tr" "obeys J (call_unit c) tr"
  by (intro obeys_calls quiet assms)+

lemma obeys_key_pair [obeying]:
  "obeys J (key_pair_drop k) tr" "obeys J (key_pair_from_bytes w bs) tr" "obeys J (key_pair_eq w k l) tr"
  unfolding key_pair_drop_def key_pair_from_bytes_def key_pair_eq_def
  by (intro obeying; simp)+

lemma obeys_create_ca_keypair [obeying]: "obeys J (create_ca_keypair w) tr"
  unfolding create_ca_keypair_def by (intro obeying; simp)

lemma obeys_names [obeying]:
  "obeys J (create_issuer_x509_name w n) tr" "obeys J (extract_subject_name_from_cert w der) tr"
  unfolding create_issuer_x509_name_def extract_subject_name_from_cert_def
  by (intro obeying; simp)+

lemma obeys_trust_domain [obeying]: "obeys J (extract_trust_domain_from_cert w der) tr"
  unfolding extract_trust_domain_from_cert_def by (intro obeying; simp)

lemma obeys_add_ext [obeying]: "obeys J (add_ext_and_free w x e m1 m2) tr"
  unfolding add_ext_and_free_def by (intro obeying; simp)

lemma obeys_setters [obeying]:
  "obeys J (set_x509_version w x) tr" "obeys J (set_x509_validity w x d) tr"
  "obeys J (set_x509_validity_timestamps w x nb na) tr" "obeys J (set_x509_serial_random w x) tr"
  "obeys J (set_x509_ca_basic_constraints w x) tr" "obeys J (set_x509_leaf_basic_constraints w x) tr"
  "obeys J (set_x509_key_usage w x) tr" "obeys J (set_x509_subject_key_identifier w x) tr"
  "obeys J (set_x509_authority_key_identifier w x der) tr" "obeys J (set_x509_extended_key_usage w x p) tr"
  unfolding set_x509_version_def set_x509_validity_def set_x509_validity_timestamps_def
    set_x509_serial_random_def set_x509_ca_basic_constraints_def set_x509_leaf_basic_constraints_def
    set_x509_key_usage_def set_x509_subject_key_identifier_def set_x509_authority_key_identifier_def
    set_x509_extended_key_usage_def
  by (intro obeying; simp)+

lemma obeys_san [obeying]: "obeys J (create_san_extension w ca i) tr"
  unfolding create_san_extension_def create_spiffe_extension_def create_dns_extension_def
    create_san_extension_from_str_def
  by (cases "certificate_profile i"; simp only: certificate_profile.case; intro obeying; simp)

lemma obeys_encoding [obeying]: "obeys J (x509_to_der w x) tr" "obeys J (create_ca_csr w k n) tr"
  unfolding x509_to_der_def create_ca_csr_def by (intro obeying; simp)+

lemma obeys_sign: "J tr (X509_sign x k) \<Longrightarrow> obeys J (sign_x509 w x k) tr"
  unfolding sign_x509_def by (intro obeying obeys_calls; simp)

lemma obeys_create_ca_x509:
  assumes self_signing
  shows "obeys J (create_ca_x509 w k n) tr"
proof -
  have signed: "J t4 (X509_sign x k)"
    if "run_state (call_ptr w (New X509)) tr = (x, t0)" "x \<noteq> Null"
      and "run_state (set_x509_version w x) t0 = (Ok (), t1)"
      and "run_state (call_ptr w (New ASN1_INTEGER)) t1 = (num, s1)" "num \<noteq> Null"
      and "run_state (call_int w (ASN1_INTEGER_set num 1)) s1 = (st, s2)"
      and "run_state (call_int w (X509_set_serialNumber x num)) s2 = (1, s3)"
      and "run_state (free ASN1_INTEGER num) s3 = ((), s4)"
      and "run_state (call_int w (X509_set_subject_name x n)) s4 = (1, s5)"
      and "run_state (call_int w (X509_set_issuer_name x n)) s5 = (1, s6)"
      and "run_state (call_int w (X509_set_pubkey x k)) s6 = (1, s7)"
      and "run_state (set_x509_validity w x CERT_VALIDITY) s7 = (Ok (), t2)"
      and "run_state (set_x509_ca_basic_constraints w x) t2 = (Ok (), t3)"
      and "run_state (set_x509_subject_key_identifier w x) t3 = (Ok (), t4)"
    for x t0 t1 num s1 st s2 s3 s4 s5 s6 s7 t2 t3 t4
  proof -
    have "t4 = root_fields k n st x tr"
      using that by (auto dest!: set_x509_version_Ok set_x509_validity_Ok set_x509_basic_Ok run_call_made
          simp: root_fields_def with_call_def eval_nat_numeral split: if_splits)
    with root [OF assms] show ?thesis by simp
  qed
  show ?thesis
    unfolding create_ca_x509_def by (intro obeying obeys_sign; (simp; fail)?) (rule signed; simp)
qed

lemma obeys_generate_certificate:
  assumes "issuable tr ca i"
  shows "obeys J (generate_certificate w ca i) tr"
proof -
  have signed: "J t8 (X509_sign x (guarded (ca_key ca)))"
    if "run_state (call_ptr w (New X509)) tr = (x, t0)" "x \<noteq> Null"
      and "run_state (set_x509_version w x) t0 = (Ok (), t1)"
      and "run_state (set_x509_serial_random w x) t1 = (Ok (), t2)"
      and "run_state (call_int w (X509_set_issuer_name x (guarded (issuer_name ca)))) t2 = (1, s1)"
      and "run_state (call_int w (X509_set_pubkey x (public_key i))) s1 = (1, s2)"
      and san: "run_state (create_san_extension w ca i) s2 = (Ok ext, t3)" "ext \<noteq> Null"
      and "run_state (call_int w (X509_add_ext x ext)) t3 = (1, s3)"
      and "run_state (free X509_EXTENSION ext) s3 = ((), s4)"
      and "run_state (set_x509_extended_key_usage w x (certificate_profile i)) s4 = (Ok (), t4)"
      and "run_state (set_x509_leaf_basic_constraints w x) t4 = (Ok (), t5)"
      and "run_state (set_x509_key_usage w x) t5 = (Ok (), t6)"
      and "ca_cert_chain_der ca = d # ds"
      and "run_state (set_x509_authority_key_identifier w x d) t6 = (Ok (), t7)"
      and "run_state (set_x509_validity_timestamps w x (not_before_sec i) (not_after_sec i)) t7 = (Ok (), t8)"
    for x t0 t1 t2 s1 s2 ext t3 s3 s4 t4 t5 t6 d ds t7 t8
  proof -
    from create_san_extension_Ok [OF san(1), of x] obtain pushed where
      "added x ext t3 = with_alt_name x (fst (alt_name ca i)) (snd (alt_name ca i)) pushed s2"
      by blast
    moreover have "s4 = added x ext t3"
      using that(9,10) by (auto dest!: run_call_made simp: added_calls)
    ultimately have "t8 = leaf_fields ca i pushed x tr"
      using that by (auto dest!: set_x509_version_Ok set_x509_serial_random_Ok set_x509_extended_key_usage_Ok
          set_x509_basic_Ok set_x509_authority_key_identifier_Ok set_x509_validity_timestamps_Ok run_call_made
          simp: leaf_fields_def split: if_splits)
    then show ?thesis using leaf [OF assms] by simp
  qed
  show ?thesis
    unfolding generate_certificate_def
    by (intro obeying obeys_sign; (simp; fail)?) (rule signed; simp)
qed

lemma obeys_new_root: "self_signing \<Longrightarrow> obeys J (new_root w) tr"
  unfolding new_root_def by (intro obeying obeys_create_ca_x509; simp)

lemma obeys_authorities [obeying]:
  "obeys J (create_key_and_csr w) tr" "obeys J (finish_intermediate w key answer) tr"
  "obeys J (drop_certificate_authority ca) tr"
  unfolding create_key_and_csr_def finish_intermediate_def drop_certificate_authority_def
  by (intro obeying; simp)+

lemma obeys_read_entries [obeying]: "obeys J (read_entries w es) tr"
proof (induction es arbitrary: tr)
  case (Cons e es)
  then show ?case by (cases e) (auto intro!: obeying)
qed (simp add: obeying)

lemma obeys_spki [obeying]: "obeys J (extract_spki_from_pem w pem) tr"
  unfolding extract_spki_from_pem_def by (intro obeying; simp)

lemma obeys_load_keys [obeying]: "obeys J (load_keys w index certs) tr"
proof (induction certs arbitrary: index tr)
  case (Cons pem certs)
  then show ?case by (auto intro!: obeying)
qed (simp add: obeying)

lemma obeys_get_policy [obeying]: "obeys J (get_policy_with_config w b name config) tr"
  unfolding get_policy_with_config_def get_policy_with_config_and_c2sp_policy_def inject_pes_keys_def
    load_certificates_def load_rsa_sha2_256_keyset_def
  by (intro obeying)

lemma obeys_validate [obeying]:
  "obeys J (validate_csr_request w oak b csr ev en nonce name profile info config) tr"
  unfolding validate_csr_request_def verify_csr_and_get_public_key_def verify_data_binding_def
    parse_quoted_key_def current_time_def Let_def
  by (intro obeying; simp)

lemma obeys_validate_and_issue:
  assumes "\<And>i tlogs tr1. run_state v tr = (Ok (i, tlogs), tr1) \<Longrightarrow> issuable tr1 ca i"
    and "obeys J v tr"
  shows "obeys J (bindE (do { r \<leftarrow> v; ret (map_err g r) })
    (\<lambda>(i, tlogs). issue_response w ca i tlogs)) tr"
proof -
  have "run_state (do { r \<leftarrow> v; ret (map_err g r) }) tr = (Ok a, tr1) \<Longrightarrow> run_state v tr = (Ok a, tr1)"
    for a tr1
    by (auto simp: outcome_simps split: prod.splits)
  with assms show ?thesis
    unfolding issue_response_def
    by (intro obeying obeys_generate_certificate) auto
qed

lemma obeys_certify_finish:
  assumes "\<And>csr ev en name profile info i tlogs tr1.
      run_state (validate_csr_request w oak b csr ev en (Some nonce) name profile info config) tr =
        (Ok (i, tlogs), tr1) \<Longrightarrow> issuable tr1 ca i"
  shows "obeys J (certify_finish w oak b config ca nonce req) tr"
  unfolding certify_finish_def
  by (intro obeys_validate_and_issue obeying) (auto intro: assms)

lemma obeys_certify_attestation:
  assumes "\<And>ca csr ev en name profile info i tlogs tr1. service_ca svc = Some ca \<Longrightarrow>
      run_state (validate_csr_request w oak b csr ev en None name profile info (service_policies_config svc)) tr =
        (Ok (i, tlogs), tr1) \<Longrightarrow> issuable tr1 ca i"
  shows "obeys J (certify_attestation w oak b svc req) tr"
  unfolding certify_attestation_def
  by (intro obeys_validate_and_issue obeying) (auto simp: outcome_simps intro: assms)

lemma obeys_stream_step:
  assumes "\<And>ca nonce csr ev en name profile info i tlogs tr1. st = AwaitFinish ca nonce \<Longrightarrow>
      run_state (validate_csr_request w oak b csr ev en (Some nonce) name profile info config) tr =
        (Ok (i, tlogs), tr1) \<Longrightarrow> issuable tr1 ca i"
  shows "obeys J (stream_step w oak b config st item alive) tr"
proof (cases st)
  case (AwaitChallenge ca)
  then show ?thesis
    by (auto simp: generate_nonce_def intro!: obeying)
next
  case (AwaitFinish ca nonce)
  then show ?thesis
    by (auto intro!: obeying obeys_certify_finish assms)
qed (simp add: obeying)

end

interpretation growing: call_discipline "\<lambda>_ _. True" True "\<lambda>_ _ _. True"
  by unfold_locales simp_all

lemma growing_run:
  assumes "\<And>tr. obeys (\<lambda>_ _. True) m tr" and "run_state m tr = (r, tr')"
  shows "prefix tr tr'"
  using obeysD(1) [OF assms] .

end
