(* ===== verification/Chain_Of_Trust.thy ===== *)
theory Chain_Of_Trust
  imports Signing_Discipline
begin

text \<open>
  Where the authorities of the running service come from, and what they sign.  An authority is
  anchored in a trace when the trace holds the calls that made it: a certificate for its own key
  and name, signed with that key, or a signing request for its key that the TCA answered with its
  chain, and the copy of the subject of the first certificate of that chain as its issuer name.  Since
  a leaf certificate names the issuer name of its authority as issuer and is signed with its key, the
  chain that follows it in a response is the chain of the certificate that signed it.

  The invariant of the transition system is that all live authorities are anchored, that all keys
  that wait for the TCA belong to the request they wait for, and that every signature in the trace is
  accounted for.
\<close>

section \<open>Anchored authorities\<close>

definition self_signed :: "certificate_authority \<Rightarrow> trace \<Rightarrow> bool" where
  "self_signed ca tr \<longleftrightarrow> (\<exists>key name t st sig len bs. sig > 0
     \<and> ca = mk_ca key name [filled len bs] SELF_SIGNED_TRUST_DOMAIN
     \<and> prefix (signed_and_encoded (next_obj t) key sig len bs (root_fields key name st (next_obj t) t)) tr)"

text \<open>The calls that make a signing request for a key.\<close>

definition csr_fields :: "ptr \<Rightarrow> ptr \<Rightarrow> int \<Rightarrow> int \<Rightarrow> bytes \<Rightarrow> trace \<Rightarrow> trace" where
  "csr_fields key name sig len bs t = t @
     [(New X509_REQ, RPtr True), (X509_REQ_set_version (next_obj t) 0, RInt 1),
      (X509_REQ_set_subject_name (next_obj t) name, RInt 1), (X509_REQ_set_pubkey (next_obj t) key, RInt 1),
      (X509_REQ_sign (next_obj t) key, RInt sig), (I2d_len X509_REQ (next_obj t), RInt len),
      (I2d X509_REQ (next_obj t), RBytes (Some bs))]"

definition csr_made :: "ptr \<Rightarrow> bytes \<Rightarrow> trace \<Rightarrow> bool" where
  "csr_made key csr tr \<longleftrightarrow> (\<exists>name sig len bs t. sig > 0 \<and> csr = filled len bs
     \<and> prefix (csr_fields key name sig len bs t) tr)"

text \<open>The calls that copy the subject of a certificate; the copy is the third object from \<open>t\<close> on.\<close>

definition subject_copied :: "bytes \<Rightarrow> trace \<Rightarrow> trace" where
  "subject_copied d t = t @ [(D2i X509 d, RPtr True), (X509_get_subject_name (next_obj t), RPtr True),
     (X509_NAME_dup (Into (next_obj t) SubjectName), RPtr True)]"

definition tca_issued :: "world \<Rightarrow> tca_client \<Rightarrow> certificate_authority \<Rightarrow> trace \<Rightarrow> bool" where
  "tca_issued w client ca tr \<longleftrightarrow> (\<exists>key csr d ds td t0 t1. csr_made key csr t0
     \<and> client t0 csr = Ok (d # ds)
     \<and> run_state (extract_trust_domain_from_cert w d) t0 = (Ok td, t1)
     \<and> ca = mk_ca key (Obj (length t1 + 3)) (d # ds) td
     \<and> prefix (subject_copied d t1) tr)"

definition anchored :: "world \<Rightarrow> tca_client option \<Rightarrow> certificate_authority \<Rightarrow> trace \<Rightarrow> bool" where
  "anchored w tca ca tr =
     (case tca of None \<Rightarrow> self_signed ca tr | Some client \<Rightarrow> tca_issued w client ca tr)"

lemma anchored_mono: "anchored w tca ca tr \<Longrightarrow> prefix tr tr' \<Longrightarrow> anchored w tca ca tr'"
  unfolding anchored_def self_signed_def tca_issued_def
  by (cases tca) (fastforce intro: prefix_order.trans)+

lemma csr_made_mono: "csr_made key csr tr \<Longrightarrow> prefix tr tr' \<Longrightarrow> csr_made key csr tr'"
  unfolding csr_made_def by (fastforce intro: prefix_order.trans)

lemma anchored_new_root:
  assumes "run_state (new_root w) tr = (Ok ca, tr')"
  shows "anchored w None ca tr'"
  using new_root_Ok [OF assms] unfolding anchored_def self_signed_def by fastforce

lemma create_ca_csr_Ok:
  assumes "run_state (create_ca_csr w key name) tr = (Ok csr, tr')"
  shows "csr_made key csr tr'"
proof -
  have "\<exists>sig len bs. sig > 0 \<and> csr = filled len bs
      \<and> tr' = csr_fields key name sig len bs tr @ [(Free X509_REQ (next_obj tr), RUnit)]"
    using assms
    by (auto simp: create_ca_csr_def csr_fields_def run_calls bail_def split: if_splits option.splits)
  then show ?thesis
    unfolding csr_made_def by fastforce
qed

lemma csr_made_create:
  assumes "run_state (create_key_and_csr w) tr = (Ok (key, csr), tr')"
  shows "csr_made key csr tr'"
proof -
  from assms obtain name t1 t2 where "run_state (create_ca_csr w key name) t1 = (Ok csr, t2)"
    "tr' = t2 @ [(Free X509_NAME name, RUnit)]"
    unfolding create_key_and_csr_def by (auto simp: run_Ok)
  then show ?thesis
    using create_ca_csr_Ok csr_made_mono by fastforce
qed

lemma extract_subject_name_Ok:
  assumes "run_state (extract_subject_name_from_cert w d) t = (Ok name, tr')"
  shows "name = Obj (length t + 3) \<and> prefix (subject_copied d t) tr'"
  using assms
  by (auto simp: extract_subject_name_from_cert_def subject_copied_def run_calls bail_def eval_nat_numeral
      split: if_splits)

lemma run_empty_chain_Ok:
  "run_state (case ds of [] \<Rightarrow> do { _ \<leftarrow> m; fail s } | d # es \<Rightarrow> f d) tr = (Ok a, tr') \<longleftrightarrow>
     (\<exists>d es. ds = d # es \<and> run_state (f d) tr = (Ok a, tr'))"
  by (cases ds) (auto split: prod.splits)

lemma anchored_finish:
  assumes "run_state (finish_intermediate w key (client tr csr)) tr = (Ok ca, tr')" and "csr_made key csr tr"
  shows "anchored w (Some client) ca tr'"
proof -
  from assms(1) obtain d ds td name t1 where "client tr csr = Ok (d # ds)"
    "run_state (extract_trust_domain_from_cert w d) tr = (Ok td, t1)"
    "run_state (extract_subject_name_from_cert w d) t1 = (Ok name, tr')" "ca = mk_ca key name (d # ds) td"
    unfolding finish_intermediate_def or_cleanup_run_Ok run_ret_Ok run_empty_chain_Ok
    by (auto simp: outcome_simps or_cleanup_run_Ok)
  with extract_subject_name_Ok [OF this(3)] assms(2) show ?thesis
    unfolding anchored_def tca_issued_def option.case by blast
qed

section \<open>Signatures that are accounted for\<close>

text \<open>An identity that validation has just returned.\<close>

definition validated :: "world \<Rightarrow> oak_library \<Rightarrow> build \<Rightarrow> policies_config \<Rightarrow> provisioned_identity \<Rightarrow> trace \<Rightarrow> bool" where
  "validated w oak b config i tr \<longleftrightarrow> (\<exists>csr ev en nonce name profile info tlogs t.
     run_state (validate_csr_request w oak b csr ev en nonce name profile info config) t = (Ok (i, tlogs), tr))"

definition issuable :: "world \<Rightarrow> oak_library \<Rightarrow> build \<Rightarrow> avs_service \<Rightarrow> trace \<Rightarrow> certificate_authority \<Rightarrow>
    provisioned_identity \<Rightarrow> bool" where
  "issuable w oak b svc tr ca i \<longleftrightarrow>
     anchored w (service_tca_client svc) ca tr \<and> validated w oak b (service_policies_config svc) i tr"

definition accounted :: "world \<Rightarrow> oak_library \<Rightarrow> build \<Rightarrow> avs_service \<Rightarrow> trace \<Rightarrow> bssl_call \<Rightarrow> bool" where
  "accounted w oak b svc pre c \<longleftrightarrow> (\<forall>x k. c = X509_sign x k \<longrightarrow>
     (service_tca_client svc = None \<and> (\<exists>name st t. pre = root_fields k name st x t))
   \<or> (\<exists>ca i pushed t. pre = leaf_fields ca i pushed x t \<and> k = guarded (ca_key ca) \<and> issuable w oak b svc t ca i))"

interpretation signing: call_discipline "accounted w oak b svc" "service_tca_client svc = None" "issuable w oak b svc"
  for w oak b svc
proof
  show "accounted w oak b svc tr c" if "\<not> signs c" for tr c
    using that by (auto simp: accounted_def)
qed (auto simp: accounted_def)

definition all_calls :: "(trace \<Rightarrow> bssl_call \<Rightarrow> bool) \<Rightarrow> trace \<Rightarrow> bool" where
  "all_calls J tr \<longleftrightarrow> (\<forall>pre e post. tr = pre @ e # post \<longrightarrow> J pre (fst e))"

lemma all_calls_run:
  assumes "all_calls J tr" and "obeys J m tr" and "run_state m tr = (r, tr')"
  shows "all_calls J tr'"
  unfolding all_calls_def
proof (intro allI impI)
  fix pre e post
  assume tr': "tr' = pre @ e # post"
  show "J pre (fst e)"
  proof (cases "length tr \<le> length pre")
    case True
    with obeysD(2) [OF assms(2,3) tr'] show ?thesis .
  next
    case False
    moreover from obeysD(1) [OF assms(2,3)] obtain new where "tr' = tr @ new"
      by (auto simp: prefix_def)
    ultimately obtain ws where "tr = pre @ e # ws"
      using tr' by (auto simp: append_eq_append_conv2 Cons_eq_append_conv)
    with assms(1) show ?thesis
      unfolding all_calls_def by blast
  qed
qed

section \<open>The invariant of the service\<close>

definition chain_inv :: "world \<Rightarrow> oak_library \<Rightarrow> build \<Rightarrow> avs_service \<Rightarrow> avs_system \<Rightarrow> bool" where
  "chain_inv w oak b svc s \<longleftrightarrow>
     service_tca_client (sys_service s) = service_tca_client svc
   \<and> service_policies_config (sys_service s) = service_policies_config svc
   \<and> (\<forall>ca \<in> set (live s). anchored w (service_tca_client svc) ca (sys_trace s))
   \<and> (\<forall>(key, csr) \<in> set (sys_issuing s). csr_made key csr (sys_trace s))
   \<and> all_calls (accounted w oak b svc) (sys_trace s)"

text \<open>One run of a program in a state that satisfies the invariant, and what it may add.\<close>

lemma chain_inv_run:
  assumes "chain_inv w oak b svc s" and "run_state m (sys_trace s) = (r, tr')"
    and "obeys (accounted w oak b svc) m (sys_trace s)"
    and "sys_trace s' = tr'"
    and "service_tca_client (sys_service s') = service_tca_client (sys_service s)"
      "service_policies_config (sys_service s') = service_policies_config (sys_service s)"
    and "\<And>ca. ca \<in> set (live s') \<Longrightarrow> ca \<in> set (live s) \<or> anchored w (service_tca_client svc) ca tr'"
    and "\<And>key csr. (key, csr) \<in> set (sys_issuing s') \<Longrightarrow> (key, csr) \<in> set (sys_issuing s) \<or> csr_made key csr tr'"
  shows "chain_inv w oak b svc s'"
proof -
  have "prefix (sys_trace s) tr'"
    using obeysD(1) [OF assms(3,2)] .
  with assms(1,4-8) all_calls_run [OF _ assms(3,2)] show ?thesis
    unfolding chain_inv_def by (auto intro: anchored_mono csr_made_mono dest!: assms(7,8))
qed

lemma chain_inv_release:
  assumes "chain_inv w oak b svc s"
  shows "chain_inv w oak b svc (release ca s)"
proof (cases "ca \<in> set (live s)")
  case True
  with assms show ?thesis by (simp add: release_def)
next
  case False
  obtain u tr' where "run_state (drop_certificate_authority ca) (sys_trace s) = (u, tr')"
    by (cases "run_state (drop_certificate_authority ca) (sys_trace s)")
  from chain_inv_run [OF assms this signing.obeys_authorities(3), of "release ca s"] False this
  show ?thesis by (simp add: release_def)
qed

lemma chain_inv_release_all: "chain_inv w oak b svc s \<Longrightarrow> chain_inv w oak b svc (release_all cas s)"
  unfolding release_all_def by (induction cas arbitrary: s) (simp_all add: chain_inv_release)

lemma chain_inv_shrink:
  assumes "chain_inv w oak b svc s" and "sys_trace s' = sys_trace s"
    and "service_tca_client (sys_service s') = service_tca_client (sys_service s)"
      "service_policies_config (sys_service s') = service_policies_config (sys_service s)"
    and "set (live s') \<subseteq> set (live s)" "set (sys_issuing s') \<subseteq> set (sys_issuing s)"
  shows "chain_inv w oak b svc s'"
  using assms unfolding chain_inv_def by auto

lemma issuable_live:
  assumes "chain_inv w oak b svc s" and "ca \<in> set (live s)"
    and "run_state (validate_csr_request w oak b csr ev en nonce name profile info
      (service_policies_config (sys_service s))) (sys_trace s) = (Ok (i, tlogs), tr1)"
  shows "issuable w oak b svc tr1 ca i"
  using assms anchored_mono [OF _ growing_run [OF growing.obeys_validate assms(3)]]
  unfolding issuable_def validated_def chain_inv_def by metis

lemma chain_inv_step:
  assumes "sys_step w oak b s s'" and "chain_inv w oak b svc s"
  shows "chain_inv w oak b svc s'"
  using assms
proof (cases rule: sys_step.cases)
  case (unary req r tr')
  have "obeys (accounted w oak b svc) (certify_attestation w oak b (sys_service s) req) (sys_trace s)"
    by (rule signing.obeys_certify_attestation) (auto simp: set_live intro: issuable_live [OF assms(2)])
  then show ?thesis
    unfolding unary(1) by (rule chain_inv_run [OF assms(2) unary(2)]) simp_all
next
  case (open_stream st)
  then show ?thesis
    by (auto simp: set_live certify_attestation_stream_def outcome_simps intro: chain_inv_shrink [OF assms(2)])
next
  case (turn i st sent item alive st' out tr')
  let ?s = "s\<lparr>sys_streams := (sys_streams s)[i := (st', sent @ out)], sys_trace := tr'\<rparr>"
  have mem: "(st, sent) \<in> set (sys_streams s)"
    using turn(2,3) by (metis nth_mem)
  have "ca \<in> set (live s)" if "ca \<in> set (state_cas st)" for ca
    using mem that by (force simp: set_live)
  note live = this
  have "obeys (accounted w oak b svc)
      (stream_step w oak b (service_policies_config (sys_service s)) st item alive) (sys_trace s)"
    by (rule signing.obeys_stream_step) (auto intro: issuable_live [OF assms(2) live])
  moreover have "set (live ?s) \<subseteq> set (live s)"
    using live stream_step_cas [OF turn(4)] set_update_subset_insert [of "sys_streams s" i "(st', sent @ out)"]
    by (fastforce simp: set_live)
  ultimately have "chain_inv w oak b svc ?s"
    by (intro chain_inv_run [OF assms(2) turn(4)]) auto
  then show ?thesis
    unfolding turn(1) by (rule chain_inv_release_all)
next
  case (create_root r tr')
  with assms(2) have tca: "service_tca_client svc = None" by (simp add: chain_inv_def)
  have "anchored w (service_tca_client svc) ca tr'" if "ca \<in> set (created r)" for ca
    using that create_root(3) anchored_new_root [of w "sys_trace s" ca tr'] tca by (cases r) auto
  then show ?thesis
    unfolding create_root(1)
    by (intro chain_inv_run [OF assms(2) create_root(3) signing.obeys_new_root [OF tca]]) (auto simp: set_live)
next
  case (request_tca client r tr')
  have "csr_made key csr tr'" if "(key, csr) \<in> set (created r)" for key csr
    using that request_tca(3) csr_made_create [of w "sys_trace s" key csr tr'] by (cases r) auto
  then show ?thesis
    unfolding request_tca(1)
    by (intro chain_inv_run [OF assms(2) request_tca(3) signing.obeys_authorities(1)]) (auto simp: set_live)
next
  case (answer_tca client before key csr after r tr')
  have tca: "service_tca_client svc = Some client" and csr: "csr_made key csr (sys_trace s)"
    using assms(2) answer_tca(2,3) by (auto simp: chain_inv_def)
  have "anchored w (service_tca_client svc) ca tr'" if "ca \<in> set (created r)" for ca
    using that answer_tca(4) anchored_finish [of w key client "sys_trace s" csr ca tr'] csr tca by (cases r) auto
  then show ?thesis
    unfolding answer_tca(1)
    by (intro chain_inv_run [OF assms(2) answer_tca(4) signing.obeys_authorities(2)])
      (auto simp: set_live answer_tca(3))
next
  case (install before ca after)
  show ?thesis
    unfolding install(1)
    by (intro chain_inv_release_all chain_inv_shrink [OF assms(2)])
      (auto simp: set_live install(2) install_authority_def)
next
  case (cancel_issuing before key csr after u tr')
  then show ?thesis
    unfolding cancel_issuing(1)
    by (intro chain_inv_run [OF assms(2) cancel_issuing(3) signing.obeys_key_pair(1)]) (auto simp: set_live)
next
  case (cancel_install before ca after)
  show ?thesis
    unfolding cancel_install(1)
    by (intro chain_inv_release_all chain_inv_shrink [OF assms(2)]) (auto simp: set_live cancel_install(2))
qed

lemma reachable_chain_inv:
  assumes "reachable w oak b svc s" and "service_ca svc = None"
  shows "chain_inv w oak b svc s"
  using assms(1)
proof (induction rule: reachable.induct)
  case init
  with assms(2) show ?case
    by (simp add: chain_inv_def system_init_def live_def all_calls_def)
qed (rule chain_inv_step)

section \<open>Properties\<close>

text \<open>C6: every authority that the running service refers to is anchored in what it did before.  A
  self-signed one holds one certificate, made for its own key and its issuer name and signed with that
  key; one of the TCA holds the chain that the TCA answered to a request signed with its key, takes its
  issuer name from the subject of the first certificate of that chain and its trust domain from the
  alternative name there.  So the certificates it issues, which carry that issuer name and are signed
  with that key, are followed in a response by the certificate of their issuer.\<close>

theorem authorities_are_anchored:
  assumes "reachable w oak b svc s" and "service_ca svc = None" and "ca \<in> set (live s)"
  shows "case service_tca_client svc of
      None \<Rightarrow> self_signed ca (sys_trace s)
    | Some client \<Rightarrow> tca_issued w client ca (sys_trace s)"
  using reachable_chain_inv [OF assms(1,2)] assms(3)
  unfolding chain_inv_def anchored_def by blast

lemma authorities_are_anchored_witness:
  "\<exists>s ca. reachable (obliging_world 1000) (sample_oak []) cbt_build (service_new None) s \<and> live s = [ca]
     \<and> self_signed ca (sys_trace s)"
proof -
  obtain s ca where "reachable (obliging_world 1000) (sample_oak []) cbt_build (service_new None) s" "live s = [ca]"
    using sample_reachable [OF new_service_simps] by blast
  with authorities_are_anchored [OF this(1), of ca] show ?thesis
    by (auto simp: service_new_def)
qed

text \<open>C5: every certificate that the running service signs, whether or not the rest of the request
  succeeds, is accounted for: it is the service's own certificate, which exists only without a TCA, or
  a leaf certificate (not an authority, for digital signatures) with exactly the fields of an identity
  that validation returned at that moment, signed with the key of an anchored authority.\<close>

theorem signatures_are_accounted_for:
  assumes "reachable w oak b svc s" and "service_ca svc = None"
    and "sys_trace s = pre @ (X509_sign x k, r) # post"
  shows "(service_tca_client svc = None \<and> (\<exists>name st t. pre = root_fields k name st x t))
    \<or> (\<exists>ca i pushed t. pre = leaf_fields ca i pushed x t \<and> k = guarded (ca_key ca)
        \<and> anchored w (service_tca_client svc) ca t
        \<and> (\<exists>csr ev en nonce name profile info tlogs t0.
            run_state (validate_csr_request w oak b csr ev en nonce name profile info (service_policies_config svc)) t0 =
              (Ok (i, tlogs), t)))"
proof -
  from reachable_chain_inv [OF assms(1,2)] assms(3) have "accounted w oak b svc pre (fst (X509_sign x k, r))"
    unfolding chain_inv_def all_calls_def by blast
  then show ?thesis
    unfolding accounted_def issuable_def validated_def by simp
qed

lemma signatures_are_accounted_for_witness:
  "\<exists>s pre x k r post. reachable (obliging_world 1000) (sample_oak []) cbt_build (service_new None) s
     \<and> sys_trace s = pre @ (X509_sign x k, r) # post
     \<and> ((\<exists>name st t. pre = root_fields k name st x t)
        \<or> (\<exists>ca i pushed t. pre = leaf_fields ca i pushed x t \<and> k = guarded (ca_key ca)))"
proof -
  obtain s ca where s: "reachable (obliging_world 1000) (sample_oak []) cbt_build (service_new None) s" "live s = [ca]"
    using sample_reachable [OF new_service_simps] by blast
  have "chain_inv (obliging_world 1000) (sample_oak []) cbt_build (service_new None) s"
    by (rule reachable_chain_inv [OF s(1)]) (simp add: service_new_def)
  with s(2) have "self_signed ca (sys_trace s)"
    by (simp add: chain_inv_def anchored_def service_new_def)
  then obtain pre x k r post where "sys_trace s = pre @ (X509_sign x k, r) # post"
    unfolding self_signed_def signed_and_encoded_def prefix_def by force
  with signatures_are_accounted_for [OF s(1) _ this] s(1) show ?thesis
    by (fastforce simp: service_new_def)
qed

end
