(* ===== verification/Trust_Domain.thy ===== *)
theory Trust_Domain
  imports Cert_Content
begin

text \<open>
  How an authority of the TCA learns its trust domain: \<open>extract_spiffe_trust_domain\<close> of \<open>ca.rs\<close> scans
  the raw bytes of the alternative name for a SPIFFE URI.  The lemmas show that the scan finds the
  URI between any bytes that hold no other, and returns its trust domain: lossy decoding never
  swallows the start of the URI, an occurrence cannot overlap another, and what follows is cut off at
  the first byte that is not printable.
\<close>

section \<open>Lossy decoding up to an ASCII byte\<close>

lemma utf8_seq_cut:
  "\<not> is_cont b \<Longrightarrow> \<not> is_cont b' \<Longrightarrow> utf8_seq a b c d = utf8_seq a b' c' d'"
  "\<not> is_cont c \<Longrightarrow> \<not> is_cont c' \<Longrightarrow> utf8_seq a b c d = utf8_seq a b c' d'"
  "\<not> is_cont d \<Longrightarrow> \<not> is_cont d' \<Longrightarrow> utf8_seq a b c d = utf8_seq a b c d'"
  by (simp_all add: utf8_seq_def second_ok3_def second_ok4_def)

lemma not_cont: "\<not> is_cont 0" "y < 128 \<Longrightarrow> \<not> is_cont y"
  by (simp_all add: is_cont_def)

lemma utf8_next_append:
  assumes "y < 128"
  shows "utf8_next a (r @ y # ys) = utf8_next a r"
proof -
  consider "r = []" | x where "r = [x]" | x x' where "r = [x, x']" | x x' x'' r' where "r = x # x' # x'' # r'"
    by (metis neq_Nil_conv)
  then show ?thesis
    using assms
    by cases (simp_all add: utf8_next_def, (rule utf8_seq_cut; simp add: not_cont)+)
qed

lemma utf8_next_length: "snd (utf8_next a r) \<le> length r"
proof -
  consider "r = []" | x where "r = [x]" | x x' where "r = [x, x']" | x x' x'' r' where "r = x # x' # x'' # r'"
    by (metis neq_Nil_conv)
  then show ?thesis
    by cases (simp_all add: utf8_next_def utf8_seq_def second_ok3_def second_ok4_def is_cont_def)
qed

lemma utf8_decode_append:
  assumes "y < 128"
  shows "utf8_decode (xs @ y # ys) = utf8_decode xs @ utf8_decode (y # ys)"
proof (induction xs rule: utf8_decode.induct)
  case 1
  then show ?case by simp
next
  case (2 a r)
  obtain cp n where n: "utf8_next a r = (cp, n)" by fastforce
  with utf8_next_length [of a r] have "n \<le> length r" by simp
  with 2 [OF n [symmetric]] n show ?case
    by (simp add: utf8_next_append [OF assms])
qed

lemma concat_encode_ascii: "\<forall>c \<in> set cs. c < 128 \<Longrightarrow> concat (map utf8_encode cs) = cs"
  by (induction cs) (simp_all add: utf8_encode_def)

lemma unat_of_char: "code c < 128 \<Longrightarrow> unat (of_char c :: 8 word) = code c"
proof -
  assume "code c < 128"
  then have "unat (of_nat (code c) :: 8 word) = code c"
    by (simp add: unat_of_nat)
  then show ?thesis by (simp only: of_nat_of_char)
qed

text \<open>ASCII text between other bytes is decoded by itself.\<close>

lemma from_utf8_lossy_around_ascii:
  assumes "\<forall>c \<in> set s. code c < 128" and "s \<noteq> []"
  shows "from_utf8_lossy (bs @ as_bytes s @ cs) = from_utf8_lossy bs @ s @ from_utf8_lossy cs"
proof -
  obtain c t where s: "s = c # t" using assms(2) by (cases s) simp_all
  have bytes: "map unat (as_bytes s) = map code s"
    using assms by (auto simp: as_bytes_def unat_of_char)
  have "utf8_decode (map unat (bs @ as_bytes s @ cs)) =
      utf8_decode (map unat bs) @ utf8_decode (map code s @ map unat cs)"
    using assms s bytes utf8_decode_append [of "code c" "map unat bs" "map code t @ map unat cs"] by simp
  moreover have "utf8_decode (map code s @ map unat cs) = map code s @ utf8_decode (map unat cs)"
    using assms by (intro utf8_decode_ascii_prefix) auto
  moreover have "concat (map utf8_encode (map code s)) = map code s"
    using assms by (intro concat_encode_ascii) auto
  ultimately show ?thesis
    by (simp add: from_utf8_lossy_def comp_def)
qed

text \<open>A byte that is not printable is not decoded to a printable character.\<close>

lemma utf8_seq_bound: "fst (utf8_seq a b c d) < 2097152"
proof -
  have two: "(a - 192) * 64 + (b - 128) < 2097152" if "a \<le> 223" "is_cont b"
    using that unfolding is_cont_def by linarith
  have three: "(a - 224) * 4096 + (b - 128) * 64 + (c - 128) < 2097152" if "a \<le> 239" "second_ok3 a b" "is_cont c"
    using that unfolding is_cont_def second_ok3_def by linarith
  have four: "(a - 240) * 262144 + (b - 128) * 4096 + (c - 128) * 64 + (d - 128) < 2097152"
    if "a \<le> 244" "second_ok4 a b" "is_cont c" "is_cont d"
    using that unfolding is_cont_def second_ok4_def by linarith
  show ?thesis
    using two three four by (simp add: utf8_seq_def)
qed

lemma utf8_encode_high:
  assumes "128 \<le> cp" "cp < 2097152"
  shows "\<exists>x xs. utf8_encode cp = x # xs \<and> 128 \<le> x \<and> x < 256"
  using assms by (simp add: utf8_encode_def div_less_iff_less_mult)

lemma utf8_next_bound: "fst (utf8_next a r) < 2097152"
  unfolding utf8_next_def by (rule utf8_seq_bound)

lemma lossy_first_unprintable:
  assumes "\<not> is_ascii_graphic (unat b)"
  shows "\<exists>c cs. from_utf8_lossy (b # bs) = c # cs \<and> \<not> is_ascii_graphic (code c)"
proof -
  obtain cp n where n: "utf8_next (unat b) (map unat bs) = (cp, n)" by fastforce
  have "\<exists>x xs. utf8_encode cp = x # xs \<and> x < 256 \<and> \<not> is_ascii_graphic x"
  proof (cases "unat b < 128")
    case True
    with n assms show ?thesis by (auto simp: utf8_next_ascii utf8_encode_def)
  next
    case False
    with n utf8_next_high [of "unat b" "map unat bs"] utf8_next_bound [of "unat b" "map unat bs"]
    have "128 \<le> cp" "cp < 2097152" by simp_all
    from utf8_encode_high [OF this] show ?thesis
      by (auto simp: is_ascii_graphic_def)
  qed
  with n show ?thesis
    by (auto simp: from_utf8_lossy_def)
qed

section \<open>Occurrences of the scheme\<close>

lemma SPIFFE_Cons: "SPIFFE = CHR ''s'' # ''piffe://''"
  by (simp add: SPIFFE_def)

text \<open>The scheme has no border: an occurrence that starts before another ends before it.\<close>

lemma SPIFFE_no_border:
  assumes "prefix SPIFFE (xs @ SPIFFE @ rest)" and "xs \<noteq> []"
  shows "prefix SPIFFE xs"
proof (cases "length xs \<ge> length SPIFFE")
  case True
  with assms(1) show ?thesis
    by (metis prefixI prefix_length_prefix)
next
  case False
  then have "length xs \<in> set [1 ..< 9]"
    using assms(2) by (cases xs) (auto simp: SPIFFE_def)
  moreover obtain zs where "xs @ SPIFFE @ rest = SPIFFE @ zs"
    using assms(1) by (auto simp: prefix_def)
  then have "(xs @ SPIFFE @ rest) ! length xs = (SPIFFE @ zs) ! length xs" by simp
  with False have "SPIFFE ! 0 = SPIFFE ! length xs"
    by (simp add: nth_append SPIFFE_Cons [THEN arg_cong [of _ _ "\<lambda>s. s = []"]])
  moreover have "list_all (\<lambda>k. SPIFFE ! 0 \<noteq> SPIFFE ! k) [1 ..< 9]"
    by code_simp
  ultimately show ?thesis
    unfolding list_all_iff by blast
qed

lemma spiffe_matches_first:
  assumes "spiffe_matches xs = []"
  shows "spiffe_matches (xs @ SPIFFE @ rest) = (SPIFFE @ rest) # spiffe_matches rest"
  using assms
proof (induction xs)
  case Nil
  then show ?case
    by (simp add: SPIFFE_def)
next
  case (Cons x xs)
  then have "\<not> prefix SPIFFE (x # xs)" "spiffe_matches xs = []"
    by (auto split: if_splits)
  with SPIFFE_no_border [of "x # xs" rest] Cons.IH show ?case
    by auto
qed

text \<open>A string without two slashes in a row holds no further occurrence.\<close>

definition single_slashes :: "string \<Rightarrow> bool" where
  "single_slashes s \<longleftrightarrow> successively (\<lambda>a b. \<not> (a = CHR ''/'' \<and> b = CHR ''/'')) s"

lemma single_slashes_no_match: "single_slashes s \<Longrightarrow> spiffe_matches s = []"
proof (induction s)
  case (Cons c s)
  have "\<not> prefix SPIFFE (c # s)"
    using Cons.prems by (auto simp: prefix_def SPIFFE_def single_slashes_def)
  moreover have "single_slashes s"
    using Cons.prems by (cases s) (auto simp: single_slashes_def)
  ultimately show ?case
    using Cons.IH by simp
qed simp

lemma single_slashes_append:
  assumes "CHR ''/'' \<notin> set td" and "single_slashes path"
  shows "single_slashes (td @ path)"
  using assms
proof (induction td)
  case (Cons c td)
  then show ?case
    by (cases "td @ path") (auto simp: single_slashes_def)
qed simp

section \<open>The round trip\<close>

lemma trust_domain_before_path:
  assumes "CHR ''/'' \<notin> set td" and "path = [] \<or> hd path = CHR ''/''"
  shows "hd (split_on CHR ''/'' (td @ path)) = td"
  using assms by (cases path) (auto simp: split_on_no_sep split_on_append_sep)

lemma graphic_is_ascii: "is_ascii_graphic n \<Longrightarrow> n < 128"
  by (simp add: is_ascii_graphic_def)

lemma SPIFFE_graphic: "\<forall>c \<in> set SPIFFE. is_ascii_graphic (code c)"
  by (simp add: SPIFFE_def is_ascii_graphic_def)

text \<open>No occurrence reaches over a character that is not printable.\<close>

lemma spiffe_matches_cut:
  assumes "spiffe_matches s = []" and "\<not> is_ascii_graphic (code c)" and "spiffe_matches (c # t) = []"
  shows "spiffe_matches (s @ c # t) = []"
  using assms(1)
proof (induction s)
  case Nil
  then show ?case using assms(3) by simp
next
  case (Cons x s)
  then have no: "\<not> prefix SPIFFE (x # s)" "spiffe_matches s = []"
    by (auto split: if_splits)
  have "\<not> prefix SPIFFE (x # s @ c # t)"
  proof
    assume "prefix SPIFFE (x # s @ c # t)"
    with no(1) obtain us where us: "SPIFFE = (x # s) @ us" "prefix us (c # t)"
      using prefix_append [of SPIFFE "x # s" "c # t"] by auto
    with no(1) have "c \<in> set us"
      by (cases us) auto
    then have "c \<in> set SPIFFE"
      unfolding us(1) by simp
    with SPIFFE_graphic assms(2) show False by blast
  qed
  with Cons.IH [OF no(2)] show ?case by simp
qed

lemma trust_domain_found_between:
  assumes "spiffe_matches (from_utf8_lossy header) = []"
    and "valid_trust_domain td" and "path = [] \<or> hd path = CHR ''/''"
    and "\<forall>c \<in> set path. is_ascii_graphic (code c)" and "single_slashes path"
    and "trailer = [] \<or> \<not> is_ascii_graphic (unat (hd trailer))" and "spiffe_matches (from_utf8_lossy trailer) = []"
  shows "extract_spiffe_trust_domain (header @ as_bytes (''spiffe://'' @ td @ path) @ trailer) = Ok td"
proof -
  let ?uri = "SPIFFE @ td @ path"
  have td: "CHR ''/'' \<notin> set td" "td \<noteq> []" "\<forall>c \<in> set td. is_ascii_graphic (code c)"
    using assms(2) by (auto simp: valid_trust_domain_def)
  have graphic: "\<forall>c \<in> set ?uri. is_ascii_graphic (code c)"
    using td(3) assms(4) SPIFFE_graphic by auto
  then have decoded: "from_utf8_lossy (header @ as_bytes ?uri @ trailer) =
      from_utf8_lossy header @ ?uri @ from_utf8_lossy trailer"
    by (intro from_utf8_lossy_around_ascii) (auto simp: td(2) dest: graphic_is_ascii)
  have none: "spiffe_matches (td @ path) = []"
    using single_slashes_append [OF td(1) assms(5)] by (rule single_slashes_no_match)
  have "spiffe_matches ((td @ path) @ from_utf8_lossy trailer) = []
    \<and> graphic_prefix (?uri @ from_utf8_lossy trailer) = ?uri"
  proof (cases trailer)
    case Nil
    with none graphic show ?thesis
      by (simp add: from_utf8_lossy_def graphic_prefix_def takeWhile_eq_all_conv)
  next
    case (Cons y ys)
    with assms(6) lossy_first_unprintable [of y ys] obtain c cs where
      c: "from_utf8_lossy trailer = c # cs" "\<not> is_ascii_graphic (code c)" by auto
    with none assms(7) have "spiffe_matches ((td @ path) @ c # cs) = []"
      by (intro spiffe_matches_cut) simp_all
    moreover have "graphic_prefix (?uri @ c # cs) = ?uri"
      unfolding graphic_prefix_def using graphic c(2) by (subst takeWhile_append2) auto
    ultimately show ?thesis using c(1) by simp
  qed
  with spiffe_matches_first [OF assms(1), of "(td @ path) @ from_utf8_lossy trailer"]
  have "map graphic_prefix (spiffe_matches (from_utf8_lossy (header @ as_bytes ?uri @ trailer))) = [?uri]"
    by (simp add: decoded)
  then have "extract_spiffe_trust_domain (header @ as_bytes ?uri @ trailer) = Ok td"
    using td(2) trust_domain_before_path [OF td(1) assms(3)]
    by (simp add: extract_spiffe_trust_domain_def)
  then show ?thesis
    by (simp add: SPIFFE_def)
qed

lemma from_utf8_lossy_Nil [simp]: "from_utf8_lossy [] = []"
  by (simp add: from_utf8_lossy_def)

lemma trust_domain_found:
  assumes "spiffe_matches (from_utf8_lossy header) = []"
    and "valid_trust_domain td" and "path = [] \<or> hd path = CHR ''/''"
    and "\<forall>c \<in> set path. is_ascii_graphic (code c)" and "single_slashes path"
  shows "extract_spiffe_trust_domain (header @ as_bytes (''spiffe://'' @ td @ path)) = Ok td"
  using trust_domain_found_between [OF assms, of "[]"] by simp

section \<open>Properties\<close>

text \<open>C26: the trust domain of a SPIFFE URI is found in the bytes that hold it: whatever precedes and
  follows the URI in the encoded alternative name, as long as it holds no other SPIFFE URI and does not
  go on with a printable character, the extraction returns the trust domain that was put into the URI,
  for a path of printable characters without two slashes in a row.\<close>

theorem extract_trust_domain_roundtrip:
  assumes "spiffe_matches (from_utf8_lossy header) = []"
    and "valid_trust_domain td" and "path = [] \<or> hd path = CHR ''/''"
    and "\<forall>c \<in> set path. is_ascii_graphic (code c)" and "single_slashes path"
    and "trailer = [] \<or> \<not> is_ascii_graphic (unat (hd trailer))" and "spiffe_matches (from_utf8_lossy trailer) = []"
  shows "extract_spiffe_trust_domain (header @ as_bytes (''spiffe://'' @ td @ path) @ trailer) = Ok td"
  using assms by (rule trust_domain_found_between)

lemma extract_trust_domain_roundtrip_witness:
  "extract_spiffe_trust_domain ([0x30, 0x2b, 0x86, 0x1c] @ as_bytes (''spiffe://'' @ ''prod.google.com'' @ ''/avs'')
     @ [0x82, 0x0b]) = Ok ''prod.google.com''"
proof (rule extract_trust_domain_roundtrip)
  show "spiffe_matches (from_utf8_lossy [0x30, 0x2b, 0x86, 0x1c]) = []" "spiffe_matches (from_utf8_lossy [0x82, 0x0b]) = []"
    by (simp_all add: from_utf8_lossy_def utf8_next_def utf8_seq_def utf8_encode_def SPIFFE_def)
  show "valid_trust_domain ''prod.google.com''"
    by (simp add: valid_trust_domain_def is_ascii_graphic_def)
qed (simp_all add: is_ascii_graphic_def single_slashes_def)

end
