(* ===== verification/Avs_Bringup.thy ===== *)
theory Avs_Bringup
  imports Avs_Liveness Avs_Startup Chain_Of_Trust Trust_Domain
begin

text \<open>
  From start-up to the first certificate: key generation succeeds when the library calls do, for a
  self-signed authority and for one of the TCA, and the service then certifies honest clients under
  the new authority; and later, in any reachable state from which on the library calls succeed, it
  certifies them again, whatever failed before.
\<close>

section \<open>Key generation succeeds\<close>

lemma succeeds_call_part:
  assumes "library_succeeds w" and "succeeds (f (Into p q)) Q"
  shows "succeeds (State_Monad.bind (call_part w c p q) f) Q"
  using assms(2) by (simp add: succeeds_after_def run_calls library_succeedsD(1) [OF assms(1)])

lemma succeeds_keypair_and_name [succeeding]:
  assumes "library_succeeds w"
  shows "succeeds (create_ca_keypair w) (\<lambda>_. True)"
    and "succeeds (create_issuer_x509_name w ISSUER_NAME) (\<lambda>_. True)"
    and "succeeds (create_ca_csr w key name) (\<lambda>_. True)"
  unfolding create_ca_keypair_def create_issuer_x509_name_def create_ca_csr_def
  by (intro succeeds_call [OF assms] succeeds_if; simp add: ISSUER_NAME_def)+

lemma succeeds_ca_setters [succeeding]:
  assumes "library_succeeds w"
  shows "succeeds (set_x509_validity w x days) (\<lambda>_. True)"
    and "succeeds (set_x509_ca_basic_constraints w x) (\<lambda>_. True)"
    and "succeeds (set_x509_subject_key_identifier w x) (\<lambda>_. True)"
  unfolding set_x509_validity_def set_x509_ca_basic_constraints_def set_x509_subject_key_identifier_def
  by (intro succeeds_call [OF assms] succeeds_if succeeds_add_ext_and_free [OF assms]; simp)+

lemma succeeds_create_ca_x509:
  assumes "library_succeeds w"
  shows "succeeds (create_ca_x509 w key name) (\<lambda>_. True)"
  unfolding create_ca_x509_def
  by (intro succeeds_call [OF assms] succeeds_if succeeding [OF assms, THEN succeeds_or_cleanup]) simp_all

lemma succeeds_new_root:
  assumes "library_succeeds w"
  shows "succeeds (new_root w) (\<lambda>ca. trust_domain ca = SELF_SIGNED_TRUST_DOMAIN)"
  unfolding new_root_def
  by (intro succeeds_bindE [OF succeeds_keypair_and_name(1) [OF assms]] succeeds_call [OF assms]
      succeeding [OF assms, THEN succeeds_or_cleanup] succeeds_create_ca_x509 [OF assms, THEN succeeds_or_cleanup])
    (simp_all add: mk_ca_def)

lemma succeeds_create_key_and_csr:
  assumes "library_succeeds w"
  shows "succeeds (create_key_and_csr w) (\<lambda>_. True)"
  unfolding create_key_and_csr_def
  by (intro succeeds_bindE [OF succeeds_keypair_and_name(2) [OF assms]] succeeds_call [OF assms]
      succeeding [OF assms, THEN succeeds_or_cleanup]) simp_all

text \<open>The bytes that the library reports as the alternative name of a certificate.\<close>

definition alternative_name_is :: "world \<Rightarrow> bytes \<Rightarrow> bool" where
  "alternative_name_is w san \<longleftrightarrow>
     (\<forall>tr x. says_int w tr (ASN1_STRING_length x) = int (length san))
     \<and> (\<forall>tr p. says_bytes w tr (Read_slice p (int (length san))) = Some san)"

lemma succeeds_subject_name [succeeding]:
  assumes "library_succeeds w"
  shows "succeeds (extract_subject_name_from_cert w der) (\<lambda>_. True)"
  unfolding extract_subject_name_from_cert_def
  by (intro succeeds_call [OF assms] succeeds_call_part [OF assms] succeeds_if) simp_all

lemma succeeds_trust_domain:
  assumes lib: "library_succeeds w" and san: "alternative_name_is w san"
    and td: "extract_spiffe_trust_domain san = Ok td"
  shows "succeeds (extract_trust_domain_from_cert w der) (\<lambda>t. t = td)"
proof -
  have length: "succeeds (g (int (length san))) Q \<Longrightarrow> succeeds (State_Monad.bind (call_int w (ASN1_STRING_length x)) g) Q"
    for g :: "int \<Rightarrow> (anyhow, string) outcome ffi" and x Q
    using san by (simp add: succeeds_after_def run_calls alternative_name_is_def)
  have slice: "succeeds (h (Some san)) Q \<Longrightarrow>
      succeeds (State_Monad.bind (call_bytes w (Read_slice p (int (length san)))) h) Q"
    for h :: "bytes option \<Rightarrow> (anyhow, string) outcome ffi" and p Q
    using san by (simp add: succeeds_after_def run_calls alternative_name_is_def)
  have "san \<noteq> []"
    using td by (auto simp: extract_spiffe_trust_domain_def from_utf8_lossy_def bail_def)
  then show ?thesis
    unfolding extract_trust_domain_from_cert_def
    by (intro succeeds_call(1,5) [OF lib] succeeds_call(2) [OF lib, where c = "X509_get_ext_by_NID _ _"]
        succeeds_call_part [OF lib] succeeds_if length slice)
      (simp_all add: filled_exact td)
qed

text \<open>A TCA that always answers with a chain for a certificate that names the trust domain.\<close>

definition tca_serves :: "world \<Rightarrow> tca_client \<Rightarrow> string \<Rightarrow> bool" where
  "tca_serves w client td \<longleftrightarrow>
     (\<forall>tr csr. \<exists>d ds. client tr csr = Ok (d # ds))
     \<and> (\<exists>san. alternative_name_is w san \<and> extract_spiffe_trust_domain san = Ok td)"

lemma succeeds_finish_intermediate:
  assumes lib: "library_succeeds w" and "alternative_name_is w san" "extract_spiffe_trust_domain san = Ok td"
  shows "succeeds (finish_intermediate w key (Ok (d # ds))) (\<lambda>ca. trust_domain ca = td)"
  unfolding finish_intermediate_def map_err.simps
  by (rule succeeds_or_cleanup [where P = "\<lambda>chain. chain = d # ds"], simp,
      simp only: list.case, intro succeeds_or_cleanup [OF succeeds_trust_domain [OF assms]]
        succeeds_subject_name [OF lib, THEN succeeds_or_cleanup])
    (simp add: mk_ca_def)

lemma succeeds_new_intermediate:
  assumes lib: "library_succeeds w" and "tca_serves w client td"
  shows "succeeds (new_intermediate w client) (\<lambda>ca. trust_domain ca = td)"
proof -
  from assms(2) obtain san where san: "alternative_name_is w san" "extract_spiffe_trust_domain san = Ok td"
    and client: "\<And>tr csr. \<exists>d ds. client tr csr = Ok (d # ds)"
    unfolding tca_serves_def by blast
  have "succeeds (do { answer \<leftarrow> ask (\<lambda>tr. client tr csr); finish_intermediate w key answer })
      (\<lambda>ca. trust_domain ca = td)" for key csr
  proof (rule succeedsI)
    fix tr
    obtain d ds where "client tr csr = Ok (d # ds)" using client by blast
    with succeedsD [OF succeeds_finish_intermediate [OF lib san], of key d ds tr]
    show "\<exists>a tr'. run_state (do { answer \<leftarrow> ask (\<lambda>tr. client tr csr); finish_intermediate w key answer }) tr =
        (Ok a, tr') \<and> prefix [] tr' \<and> trust_domain a = td"
      by (simp add: run_calls)
  qed
  then show ?thesis
    unfolding new_intermediate_def
    by (intro succeeds_bindE [OF succeeds_create_key_and_csr [OF lib]]) (auto split: prod.split)
qed

text \<open>The trust domain of the authority that key generation installs.\<close>

definition expected_trust_domain :: "world \<Rightarrow> tca_client option \<Rightarrow> string \<Rightarrow> bool" where
  "expected_trust_domain w tca td \<longleftrightarrow>
     (case tca of None \<Rightarrow> td = SELF_SIGNED_TRUST_DOMAIN | Some client \<Rightarrow> tca_serves w client td)"

lemma succeeds_create_authority:
  assumes "library_succeeds w" and "expected_trust_domain w tca td"
  shows "succeeds (create_authority w tca) (\<lambda>ca. trust_domain ca = td)"
  unfolding create_authority_def
  using assms(2) succeeds_new_root [OF assms(1)] succeeds_new_intermediate [OF assms(1)]
  by (cases tca) (auto simp: expected_trust_domain_def intro!: succeeds_map_err)

lemma library_assigns_rsa: "library_succeeds w \<Longrightarrow> assign_rsa_succeeds w"
  unfolding assign_rsa_succeeds_def using library_succeedsD(3) [where h = "[]" and c = "EVP_PKEY_assign_RSA _ _"] by simp

lemma generated_authority:
  assumes "library_succeeds w" and "expected_trust_domain w (service_tca_client svc) td"
    and "\<And>client. service_tca_client svc = Some client \<Longrightarrow> tca_answers client"
  shows "\<exists>ca tr. run_state (generate_avs_signing_key w svc) [] =
      (Ok (\<lparr>new_certificate_chain = ca_cert_chain_der ca\<rparr>, install_authority ca svc), tr)
    \<and> ca_wf ca \<and> trust_domain ca = td"
proof -
  from succeedsD [OF succeeds_create_authority [OF assms(1,2)]] obtain ca tr where
    ca: "run_state (create_authority w (service_tca_client svc)) [] = (Ok ca, tr)" "trust_domain ca = td"
    by blast
  have "owns {} (create_authority w (service_tca_client svc)) (\<lambda>r S'. case r of
      Ok ca \<Rightarrow> ca_wf ca \<and> ca_objects ca \<inter> {} = {} \<and> S' = ca_objects ca \<union> {}
    | Err e \<Rightarrow> S' = {} | Panicked s \<Rightarrow> False)"
    by (rule gives_ca_create_authority [OF library_assigns_rsa [OF assms(1)] assms(3)])
  then have "ca_wf ca"
    unfolding owns_def by (auto simp: ca(1) ownership_def own_init_def dest!: spec [of _ "[]"])
  with ca show ?thesis
    by (auto simp: generate_avs_signing_key_def bindE_def Let_def get_ca_cert_chain_der_def)
qed

section \<open>Properties\<close>

text \<open>C12: a started service comes up and serves: when the library calls succeed, the certificate files are
  readable and, where a TCA is configured, it answers with a certificate that names a trust domain,
  then key generation succeeds and installs an authority of that trust domain (the fixed one when the
  certificate is self-signed); a client that opens a stream then is sent a challenge of 32 bytes, and
  when it answers for an operator that the policy authorises with evidence that the policy accepts,
  bound to the challenge, it is sent a certificate followed by the chain that key generation returned.\<close>

theorem service_comes_up_and_certifies:
  assumes start: "Serve addr svc \<in> set (fst (avs_main env))"
    and lib: "library_succeeds w" and files: "certificate_files_readable w"
    and tca: "expected_trust_domain w (service_tca_client svc) td"
    and pol: "policy_bundle_decode b (POLICY_BUNDLE b) = Some pb" "name \<noteq> []"
      "find (\<lambda>p. policy_name p = name) (rev (policies pb)) = Some p"
      "name = ''development'' \<longrightarrow> include_development_policy (service_policies_config svc)"
    and rule: "policy_operator_policy p = Some opol"
      "\<lparr>rule_domain = oi_domain info, rule_role = oi_role info\<rparr> \<in> set (rules opol)"
    and info: "operator_info_try_from proto = Ok info"
    and sel: "resolve_policy_request sel (oi_role info) = Ok (name, profile)"
    and req: "\<And>nonce. req_evidence (client nonce) = Some (ev nonce) \<and> req_endorsements (client nonce) = Some en
      \<and> req_operator_info (client nonce) = Some proto \<and> req_selector (client nonce) = sel"
    and att: "\<And>nonce kset. length nonce = 32 \<Longrightarrow> attests w oak
      (loaded_policy (service_policies_config svc) (PROD_VERIFIER_POLICY b) kset p) (ev nonce) en (Some nonce)"
  shows "\<exists>key svc' tr ca nonce tr1 resp tr2.
      run_state (generate_avs_signing_key w svc) [] = (Ok (key, svc'), tr)
    \<and> certify_attestation_stream svc' = Ok (AwaitChallenge ca) \<and> trust_domain ca = td \<and> length nonce = 32
    \<and> run_state (stream_step w oak b (service_policies_config svc') (AwaitChallenge ca)
          (Received (Some ChallengeRequest)) True) tr = ((AwaitFinish ca nonce, [Ok (ChallengeResponse nonce)]), tr1)
    \<and> run_state (stream_step w oak b (service_policies_config svc') (AwaitFinish ca nonce)
          (Received (Some (CertifyRequest (client nonce)))) True) tr1 = ((Finished, [Ok (CertifyResponse resp)]), tr2)
    \<and> tl (certificate_chain resp) = new_certificate_chain key"
proof -
  have "tca_answers c" if "service_tca_client svc = Some c" for c
    using served_service_initial [of env svc] start that by (simp add: served_service)
  from generated_authority [OF lib tca this] obtain ca tr where
    gen: "run_state (generate_avs_signing_key w svc) [] =
      (Ok (\<lparr>new_certificate_chain = ca_cert_chain_der ca\<rparr>, install_authority ca svc), tr)"
      "ca_wf ca" "trust_domain ca = td"
    by blast
  have svc': "certify_attestation_stream (install_authority ca svc) = Ok (AwaitChallenge ca)"
    "service_policies_config (install_authority ca svc) = service_policies_config svc"
    by (simp_all add: certify_attestation_stream_def install_authority_def)
  obtain nonce tr1 resp tr2 where "length nonce = 32"
    "run_state (stream_step w oak b (service_policies_config svc) (AwaitChallenge ca)
        (Received (Some ChallengeRequest)) True) tr = ((AwaitFinish ca nonce, [Ok (ChallengeResponse nonce)]), tr1)"
    "run_state (stream_step w oak b (service_policies_config svc) (AwaitFinish ca nonce)
        (Received (Some (CertifyRequest (client nonce)))) True) tr1 = ((Finished, [Ok (CertifyResponse resp)]), tr2)"
    "tl (certificate_chain resp) = ca_cert_chain_der ca"
    using honest_client_served [OF lib files gen(2) pol rule info sel req att] by blast
  with gen svc' show ?thesis
    by (intro exI conjI) (assumption | simp)+
qed

text \<open>A start-up with self-signed certificates and the development policy switched off.\<close>

definition self_signed_startup :: startup_environment where
  "self_signed_startup = sample_startup\<lparr>application_config := Some [123],
     json_from_str := (\<lambda>_. Some \<lparr>json_use_self_signed_cert = Some True, json_tca_endpoint = None,
       json_include_development_policy = Some False, json_enable_c2sp_tlog = None\<rparr>)\<rparr>"

lemma self_signed_served:
  "Serve ''[::]:8080'' (service_new None) \<in> set (fst (avs_main self_signed_startup))"
proof -
  have "from_utf8 [123] = Some ''{''"
    by code_simp
  then have "load_config self_signed_startup = Ok \<lparr>use_self_signed_cert = True,
      tca_endpoint = default_tca_endpoint, config_include_development_policy = False,
      config_enable_c2sp_tlog = False\<rparr>"
    by (simp add: load_config_def self_signed_startup_def app_config_deserialize_def
        default_enable_c2sp_tlog_def)
  then show ?thesis
    by (simp add: served_service build_service_def startup_tca_client_def service_new_with_policies_config_def
        startup_policies_config_def service_new_def policies_config_default_def self_signed_startup_def
        sample_startup_def)
qed

text \<open>A world and a TCA for which key generation goes the other way.\<close>

definition tca_world :: "bytes \<Rightarrow> world" where
  "tca_world san = (obliging_world 1000)\<lparr>
     says_int := (\<lambda>_ c. case c of ASN1_STRING_length _ \<Rightarrow> int (length san) | _ \<Rightarrow> 1),
     says_bytes := (\<lambda>_ _. Some san)\<rparr>"

lemma tca_setting:
  assumes "spiffe_matches (from_utf8_lossy header) = []" and "valid_trust_domain td"
  defines "san \<equiv> header @ as_bytes (''spiffe://'' @ td @ ''/avs'')"
  shows "library_succeeds (tca_world san)" and "tca_serves (tca_world san) (\<lambda>_ _. Ok [[1]]) td"
proof -
  have "accepted c (case c of ASN1_STRING_length _ \<Rightarrow> int (length san) | _ \<Rightarrow> 1)" for c
    by (cases c) (simp_all add: san_def as_bytes_def)
  then show "library_succeeds (tca_world san)"
    by (simp add: library_succeeds_after_def tca_world_def)
  have "extract_spiffe_trust_domain san = Ok td"
    unfolding san_def using assms(1,2)
    by (rule trust_domain_found) (simp_all add: is_ascii_graphic_def single_slashes_def)
  moreover have "alternative_name_is (tca_world san) san"
    by (simp add: alternative_name_is_def tca_world_def)
  ultimately show "tca_serves (tca_world san) (\<lambda>_ _. Ok [[1]]) td"
    by (auto simp: tca_serves_def)
qed

text \<open>So with such a TCA key generation installs an authority of the trust domain that the TCA certified.\<close>

lemma tca_bringup:
  assumes "valid_trust_domain td"
  defines "w \<equiv> tca_world (as_bytes (''spiffe://'' @ td @ ''/avs''))"
    and "svc \<equiv> service_new (Some (\<lambda>_ _. Ok [[1]]))"
  shows "\<exists>ca tr. run_state (generate_avs_signing_key w svc) [] =
      (Ok (\<lparr>new_certificate_chain = ca_cert_chain_der ca\<rparr>, install_authority ca svc), tr)
    \<and> ca_wf ca \<and> trust_domain ca = td"
proof (rule generated_authority)
  have "spiffe_matches (from_utf8_lossy []) = []"
    by code_simp
  note setting = tca_setting [OF this assms(1), simplified]
  show "library_succeeds w"
    unfolding w_def using setting(1) by simp
  show "expected_trust_domain w (service_tca_client svc) td"
    using setting(2) by (simp add: expected_trust_domain_def w_def svc_def service_new_def)
  show "tca_answers client" if "service_tca_client svc = Some client" for client
    using that by (auto simp: svc_def service_new_def tca_answers_def)
qed

lemma service_comes_up_and_certifies_witness:
  "\<exists>key svc' tr ca nonce tr1 resp tr2.
      run_state (generate_avs_signing_key (obliging_world 1000) (service_new None)) [] = (Ok (key, svc'), tr)
    \<and> trust_domain ca = SELF_SIGNED_TRUST_DOMAIN
    \<and> run_state (stream_step (obliging_world 1000) echo_oak cbt_build (service_policies_config svc')
          (AwaitFinish ca nonce) (Received (Some (CertifyRequest (echo_client nonce)))) True) tr1 =
        ((Finished, [Ok (CertifyResponse resp)]), tr2)
    \<and> tl (certificate_chain resp) = new_certificate_chain key"
proof -
  have tca: "expected_trust_domain (obliging_world 1000) (service_tca_client (service_new None)) SELF_SIGNED_TRUST_DOMAIN"
    by (simp add: expected_trust_domain_def service_new_def)
  have config: "service_policies_config (service_new None) = policies_config_default"
    by (simp add: service_new_def)
  have req: "req_evidence (echo_client nonce) = Some (echo_evidence nonce)
      \<and> req_endorsements (echo_client nonce) = Some sample_endorsements
      \<and> req_operator_info (echo_client nonce) =
          Some \<lparr>operator_domain = ''prod.google.com'', operator_role = ''prober''\<rparr>
      \<and> req_selector (echo_client nonce) = req_selector (echo_client [])" for nonce
    by (simp add: echo_client_def)
  have rule: "\<lparr>rule_domain = oi_domain sample_operator, rule_role = oi_role sample_operator\<rparr>
      \<in> set (rules \<lparr>rules = [\<lparr>rule_domain = ''prod.google.com'', rule_role = ''prober''\<rparr>]\<rparr>)"
    by (simp add: sample_operator_def)
  have att: "attests (obliging_world 1000) echo_oak (loaded_policy (service_policies_config (service_new None))
      (PROD_VERIFIER_POLICY cbt_build) kset cbt_policy) (echo_evidence nonce) sample_endorsements (Some nonce)"
    if "length nonce = 32" for nonce kset
    unfolding config by (rule echo_attests) (simp_all add: that)
  show ?thesis
    using service_comes_up_and_certifies [OF self_signed_served echo_setting(1,2) tca echo_setting(3) _
        echo_setting(4) _ echo_setting(5) rule echo_setting(6,7) req att]
    by fastforce
qed

text \<open>A reachable state in which a stream has been challenged.\<close>

lemma sample_challenged:
  "\<exists>s ca nonce. reachable (obliging_world 1000) echo_oak cbt_build (service_new None) s
     \<and> sys_streams s = [(AwaitFinish ca nonce, [Ok (ChallengeResponse nonce)])] \<and> length nonce = 32"
proof -
  obtain s ca where s: "reachable (obliging_world 1000) echo_oak cbt_build (service_new None) s"
    "sys_streams s = [(AwaitChallenge ca, [])]"
    using sample_stream [OF new_service_simps] by blast
  obtain nonce tr' where nonce: "run_state (generate_nonce (obliging_world 1000)) (sys_trace s) = (nonce, tr')"
    by fastforce
  then have "run_state (stream_step (obliging_world 1000) echo_oak cbt_build
      (service_policies_config (sys_service s)) (AwaitChallenge ca) (Received (Some ChallengeRequest)) True)
      (sys_trace s) = ((AwaitFinish ca nonce, [Ok (ChallengeResponse nonce)]), tr')"
    by (simp add: expect_message_def)
  from reachable.step [OF s(1) sys_step.turn [OF _ _ this, of 0 "[]"]] s(2) length_generate_nonce [OF nonce]
  show ?thesis
    by (intro exI conjI) auto
qed

text \<open>An authority that is anchored in the trace can sign.\<close>

lemma reachable_can_sign:
  assumes "reachable w oak b svc s" and "service_ca svc = None" and "ca \<in> set (live s)"
  shows "can_sign ca"
proof -
  have "anchored w (service_tca_client svc) ca (sys_trace s)"
    using reachable_chain_inv [OF assms(1,2)] assms(3) by (simp add: chain_inv_def)
  then show ?thesis
    unfolding anchored_def self_signed_def tca_issued_def
    by (auto simp: can_sign_def mk_ca_def split: option.splits)
qed

text \<open>C13: the service keeps serving.  In every reachable state, whatever it did before and whatever the
  libraries answered until then (refused signing requests, keys that did not match, failed allocations
  and failed key generations included): when from that moment on the library calls succeed, the
  certificate files are readable and the verifier of the policy accepts the evidence, then an authorised
  operator is certified, by the unary handler as soon as an authority is installed, and by each open
  stream that has sent its challenge, for an answer bound to that challenge; the chain of the authority
  of the request follows the certificate.\<close>

theorem service_keeps_serving:
  assumes reach: "reachable w oak b svc s" and svc: "service_ca svc = None"
    and lib: "library_succeeds_after (sys_trace s) w" and files: "certificate_files_readable_after (sys_trace s) w"
    and pol: "policy_bundle_decode b (POLICY_BUNDLE b) = Some pb" "name \<noteq> []"
      "find (\<lambda>p. policy_name p = name) (rev (policies pb)) = Some p"
      "name = ''development'' \<longrightarrow> include_development_policy (service_policies_config svc)"
    and rule: "policy_operator_policy p = Some opol" "is_operator_authorized opol info"
    and info: "operator_info_try_from proto = Ok info"
    and sel: "resolve_policy_request sel (oi_role info) = Ok (name, profile)"
    and req: "\<And>nonce. req_evidence (client nonce) = Some (ev nonce) \<and> req_endorsements (client nonce) = Some en
      \<and> req_operator_info (client nonce) = Some proto \<and> req_selector (client nonce) = sel"
    and att: "\<And>nonce kset. nonce = None \<or> length (the nonce) = 32 \<Longrightarrow> attests_after (sys_trace s) w oak
      (loaded_policy (service_policies_config svc) (PROD_VERIFIER_POLICY b) kset p) (ev nonce) en nonce"
  shows "(\<forall>ca. service_ca (sys_service s) = Some ca \<longrightarrow>
      (\<exists>resp tr'. run_state (certify_attestation w oak b (sys_service s) (client None)) (sys_trace s) = (Ok resp, tr')
        \<and> tl (certificate_chain resp) = ca_cert_chain_der ca))
    \<and> (\<forall>ca nonce sent. (AwaitFinish ca nonce, sent) \<in> set (sys_streams s) \<longrightarrow>
      (\<exists>resp tr'. run_state (stream_step w oak b (service_policies_config (sys_service s)) (AwaitFinish ca nonce)
          (Received (Some (CertifyRequest (client (Some nonce))))) True) (sys_trace s) =
          ((Finished, [Ok (CertifyResponse resp)]), tr')
        \<and> tl (certificate_chain resp) = ca_cert_chain_der ca))"
proof -
  have valid: "succeeds_after (sys_trace s) (validate_csr_request w oak b csr (ev nonce) en nonce name profile info
      (service_policies_config svc)) (\<lambda>a. certificate_profile (fst a) = profile)"
    if "nonce = None \<or> length (the nonce) = 32" for csr nonce
    by (rule succeeds_validate [OF lib files pol rule att [OF that]])
  note signs = reachable_can_sign [OF reach svc] and config = reachable_config [OF reach]
  have unary: "succeeds_after (sys_trace s) (certify_attestation w oak b (sys_service s) (client None))
      (\<lambda>resp. tl (certificate_chain resp) = ca_cert_chain_der ca)" if "service_ca (sys_service s) = Some ca" for ca
    using req [of None] sel valid [of None] that signs
    by (intro succeeds_certify_attestation [OF lib that _ _ _ _ info]) (auto simp: config set_live)
  have finish: "succeeds_after (sys_trace s)
      (certify_finish w oak b (service_policies_config svc) ca nonce (client (Some nonce)))
      (\<lambda>resp. tl (certificate_chain resp) = ca_cert_chain_der ca)"
    if stream: "(AwaitFinish ca nonce, sent) \<in> set (sys_streams s)" for ca nonce sent
  proof -
    have "can_sign ca"
      using stream by (intro signs) (force simp: set_live)
    moreover have "length nonce = 32"
      using reachable_streams_ok [OF reach] stream by (auto simp: streams_ok_def)
    ultimately show ?thesis
      using req [of "Some nonce"] sel valid [of "Some nonce"]
      by (intro succeeds_certify_finish [OF lib _ _ _ _ info]) auto
  qed
  have turn: "run_state (stream_step w oak b (service_policies_config (sys_service s)) (AwaitFinish ca nonce)
      (Received (Some (CertifyRequest r))) True) (sys_trace s) = ((Finished, [Ok (CertifyResponse resp)]), tr')"
    if "run_state (certify_finish w oak b (service_policies_config svc) ca nonce r) (sys_trace s) = (Ok resp, tr')"
    for ca nonce r resp tr'
    using that by (simp add: config expect_message_def)
  show ?thesis
    using succeeds_afterD [OF unary prefix_order.refl] succeeds_afterD [OF finish prefix_order.refl] turn by meson
qed

text \<open>
  A world that refuses the first signing request, whatever it is, and a reachable state of the service in
  it: a stream has been challenged, and a unary request has been refused in the meantime.
\<close>

fun is_csr_verification :: "bssl_call \<Rightarrow> bool" where
  "is_csr_verification (X509_REQ_verify x k) = True"
| "is_csr_verification c = False"

definition wary_world :: world where
  "wary_world = (obliging_world 1000)\<lparr>says_int := (\<lambda>tr c.
     if is_csr_verification c \<and> \<not> list_ex (is_csr_verification \<circ> fst) tr then 0 else 1)\<rparr>"

lemma wary_simps [simp]:
  "says_ptr wary_world tr c" "says_bytes wary_world tr c = Some [1]" "unix_time wary_world tr = Some 1000"
  "says_int wary_world tr c =
     (if is_csr_verification c \<and> \<not> list_ex (is_csr_verification \<circ> fst) tr then 0 else 1)"
  by (simp_all add: wary_world_def)

lemma wary_new_root:
  "\<exists>ca tr'. run_state (new_root wary_world) [] = (Ok ca, tr') \<and> \<not> list_ex (is_csr_verification \<circ> fst) tr'"
  by (simp add: new_root_programs bindE_def or_cleanup_def run_calls mk_ca_def filled_def ISSUER_NAME_def)

lemma wary_refuses:
  assumes "\<not> list_ex (is_csr_verification \<circ> fst) tr" and "service_ca svc = Some ca"
  shows "\<exists>e tr' x k. run_state (certify_attestation wary_world echo_oak cbt_build svc (echo_client [])) tr = (Err e, tr')
    \<and> (X509_REQ_verify x k, RInt 0) \<in> set tr'"
proof -
  have "\<exists>e tr' x k. run_state (verify_csr_and_get_public_key wary_world []) tr = (Err e, tr')
      \<and> (X509_REQ_verify x k, RInt 0) \<in> set tr'"
    using assms(1) by (simp add: verify_csr_and_get_public_key_def run_calls bail_def) blast
  then obtain e tr' x k where "run_state (verify_csr_and_get_public_key wary_world []) tr = (Err e, tr')"
    "(X509_REQ_verify x k, RInt 0) \<in> set tr'"
    by blast
  then show ?thesis
    using assms(2) echo_setting(6,7)
    by (auto simp: certify_attestation_def validate_csr_request_def echo_client_def bindE_def)
qed

lemma sample_recovery:
  "\<exists>s ca nonce x k. reachable wary_world echo_oak cbt_build (service_new None) s
     \<and> service_ca (sys_service s) = Some ca \<and> length nonce = 32
     \<and> sys_streams s = [(AwaitFinish ca nonce, [Ok (ChallengeResponse nonce)])]
     \<and> (X509_REQ_verify x k, RInt 0) \<in> set (sys_trace s)"
proof -
  let ?R = "reachable wary_world echo_oak cbt_build (service_new None)" and ?svc = "service_new None"
  obtain ca tr where root: "run_state (new_root wary_world) [] = (Ok ca, tr)"
    "\<not> list_ex (is_csr_verification \<circ> fst) tr"
    using wary_new_root by blast
  define s1 where "s1 = (system_init ?svc)\<lparr>sys_pending := [ca], sys_trace := tr\<rparr>"
  have "?R s1"
    using reachable.step [OF reachable.init sys_step.create_root [of "system_init ?svc" wary_world "Ok ca" tr]] root(1)
    by (simp add: s1_def system_init_def service_new_def)
  from reachable.step [OF this sys_step.install [of s1 "[]" ca "[]"]]
  have s2: "?R (s1\<lparr>sys_service := install_authority ca ?svc, sys_pending := []\<rparr>)"
    by (simp add: s1_def system_init_def service_new_def release_all_def)
  let ?s2 = "s1\<lparr>sys_service := install_authority ca ?svc, sys_pending := []\<rparr>"
  let ?s3 = "?s2\<lparr>sys_streams := [(AwaitChallenge ca, [])]\<rparr>"
  from reachable.step [OF s2 sys_step.open_stream [of ?s2 "AwaitChallenge ca"]]
  have s3: "?R ?s3"
    by (simp add: s1_def system_init_def certify_attestation_stream_def install_authority_def)
  obtain nonce tr1 where nonce: "run_state (generate_nonce wary_world) tr = (nonce, tr1)" "length nonce = 32"
    by (metis length_generate_nonce surj_pair)
  then have fresh: "\<not> list_ex (is_csr_verification \<circ> fst) tr1"
    using root(2) by (auto simp: generate_nonce_def run_calls)
  from nonce have "run_state (stream_step wary_world echo_oak cbt_build (service_policies_config (sys_service ?s3))
      (AwaitChallenge ca) (Received (Some ChallengeRequest)) True) (sys_trace ?s3) =
      ((AwaitFinish ca nonce, [Ok (ChallengeResponse nonce)]), tr1)"
    by (simp add: expect_message_def s1_def)
  from reachable.step [OF s3 sys_step.turn [OF _ _ this, of 0 "[]"]]
  obtain s4 where s4: "?R s4" "service_ca (sys_service s4) = Some ca" "sys_trace s4 = tr1"
    "sys_streams s4 = [(AwaitFinish ca nonce, [Ok (ChallengeResponse nonce)])]"
    by (simp add: s1_def system_init_def release_all_def release_def live_def install_authority_def)
  from wary_refuses [OF fresh s4(2)] obtain e tr2 x k where
    "run_state (certify_attestation wary_world echo_oak cbt_build (sys_service s4) (echo_client [])) (sys_trace s4) =
      (Err e, tr2)" "(X509_REQ_verify x k, RInt 0) \<in> set tr2"
    unfolding s4(3) by blast
  with reachable.step [OF s4(1) sys_step.unary [OF this(1)]] s4(2,4) nonce(2) show ?thesis
    by (intro exI conjI) (assumption | simp)+
qed

lemma service_keeps_serving_witness:
  "\<exists>s ca nonce x k resp tr' resp' tr''. reachable wary_world echo_oak cbt_build (service_new None) s
     \<and> (X509_REQ_verify x k, RInt 0) \<in> set (sys_trace s)
     \<and> run_state (certify_attestation wary_world echo_oak cbt_build (sys_service s) (echo_client [])) (sys_trace s) =
        (Ok resp, tr')
     \<and> sys_streams s = [(AwaitFinish ca nonce, [Ok (ChallengeResponse nonce)])]
     \<and> run_state (stream_step wary_world echo_oak cbt_build (service_policies_config (sys_service s))
          (AwaitFinish ca nonce) (Received (Some (CertifyRequest (echo_client nonce)))) True) (sys_trace s) =
        ((Finished, [Ok (CertifyResponse resp')]), tr'')"
proof -
  let ?svc = "service_new None" and ?client = "\<lambda>nonce. echo_client (unwrap_or [] nonce)"
  obtain s ca nonce x k where s: "reachable wary_world echo_oak cbt_build ?svc s"
    "sys_streams s = [(AwaitFinish ca nonce, [Ok (ChallengeResponse nonce)])]" "length nonce = 32"
    "service_ca (sys_service s) = Some ca" "(X509_REQ_verify x k, RInt 0) \<in> set (sys_trace s)"
    using sample_recovery by blast
  have accepted: "accepted c 1" for c
    by (cases c) simp_all
  have "list_ex (is_csr_verification \<circ> fst) t" if "prefix (sys_trace s) t" for t
    using s(5) that by (force simp: list_ex_iff prefix_def)
  then have lib: "library_succeeds_after (sys_trace s) wary_world"
    by (simp add: library_succeeds_after_def accepted)
  have files: "certificate_files_readable_after (sys_trace s) wary_world"
    by (simp add: certificate_files_readable_after_def wary_world_def obliging_world_def)
  have req: "req_evidence (?client n) = Some (echo_evidence (unwrap_or [] n))
      \<and> req_endorsements (?client n) = Some sample_endorsements
      \<and> req_operator_info (?client n) = Some \<lparr>operator_domain = ''prod.google.com'', operator_role = ''prober''\<rparr>
      \<and> req_selector (?client n) = req_selector (echo_client [])" for n
    by (simp add: echo_client_def)
  have att: "attests_after (sys_trace s) wary_world echo_oak (loaded_policy (service_policies_config ?svc)
      (PROD_VERIFIER_POLICY cbt_build) kset cbt_policy) (echo_evidence (unwrap_or [] n)) sample_endorsements n"
    if "n = None \<or> length (the n) = 32" for n kset
  proof -
    have "service_policies_config ?svc = policies_config_default" by (simp add: service_new_def)
    with echo_attests [of n "unwrap_or [] n" wary_world] that show ?thesis by (cases n) auto
  qed
  have auth: "is_operator_authorized \<lparr>rules = [\<lparr>rule_domain = ''prod.google.com'', rule_role = ''prober''\<rparr>]\<rparr> sample_operator"
    by (simp add: is_operator_authorized_def sample_operator_def)
  have dev: "''prober'' = ''development'' \<longrightarrow> include_development_policy (service_policies_config ?svc)"
    by simp
  from service_keeps_serving [OF s(1) new_service_simps(2) lib files echo_setting(3) _ echo_setting(4) dev
      echo_setting(5) auth echo_setting(6,7) req att] s show ?thesis
    by fastforce
qed

end
