(* ===== verification/Avs_Spec.thy ===== *)
theory Avs_Spec
  imports Chain_Of_Trust
begin

text \<open>
  What the service promises its clients, without foreign objects, messages or errors: at any time
  there is at most one current chain; key generation makes a chain, which becomes current when it is
  installed or is discarded; a session is bound to the chain that was current when it was opened, is challenged
  once with a 32-byte nonce, and then ends with a certificate under its chain or without one.  The
  transition system of \<open>Avs_System\<close> is shown to implement this, step by step.
\<close>

section \<open>The abstract service\<close>

type_synonym chain = "bytes list"

datatype session =
    Opened chain
  | Challenged chain bytes
  | Certified chain bytes
  | Ended

record spec_state =
  current_chain :: "chain option"
  new_chains :: "chain list"
  sessions :: "session list"

definition spec_init :: spec_state where
  "spec_init = \<lparr>current_chain = None, new_chains = [], sessions = []\<rparr>"

inductive spec_step :: "spec_state \<Rightarrow> spec_state \<Rightarrow> bool" where
  generated: "c \<noteq> [] \<Longrightarrow> spec_step a (a\<lparr>new_chains := new_chains a @ [c]\<rparr>)"
| installed: "new_chains a = before @ c # after \<Longrightarrow>
    spec_step a (a\<lparr>current_chain := Some c, new_chains := before @ after\<rparr>)"
| discarded: "new_chains a = before @ c # after \<Longrightarrow> spec_step a (a\<lparr>new_chains := before @ after\<rparr>)"
| opened: "current_chain a = Some c \<Longrightarrow> spec_step a (a\<lparr>sessions := sessions a @ [Opened c]\<rparr>)"
| challenged: "i < length (sessions a) \<Longrightarrow> sessions a ! i = Opened c \<Longrightarrow> length nonce = 32 \<Longrightarrow>
    spec_step a (a\<lparr>sessions := (sessions a)[i := Challenged c nonce]\<rparr>)"
| certified: "i < length (sessions a) \<Longrightarrow> sessions a ! i = Challenged c nonce \<Longrightarrow>
    spec_step a (a\<lparr>sessions := (sessions a)[i := Certified c nonce]\<rparr>)"
| ended: "i < length (sessions a) \<Longrightarrow> (\<And>c nonce. sessions a ! i \<noteq> Certified c nonce) \<Longrightarrow>
    spec_step a (a\<lparr>sessions := (sessions a)[i := Ended]\<rparr>)"

section \<open>Forward simulation\<close>

text \<open>
  A concrete system, the invariant its steps keep, and an abstraction under which each step is a
  step of the abstract system or changes nothing there.
\<close>

locale forward_simulation =
  fixes cstep :: "'c \<Rightarrow> 'c \<Rightarrow> bool"
    and astep :: "'a \<Rightarrow> 'a \<Rightarrow> bool"
    and abs_of :: "'c \<Rightarrow> 'a"
    and inv :: "'c \<Rightarrow> bool"
  assumes inv_step: "inv s \<Longrightarrow> cstep s s' \<Longrightarrow> inv s'"
    and simulates: "inv s \<Longrightarrow> cstep s s' \<Longrightarrow> abs_of s' = abs_of s \<or> astep (abs_of s) (abs_of s')"
begin

lemma inv_steps: "cstep\<^sup>*\<^sup>* s s' \<Longrightarrow> inv s \<Longrightarrow> inv s'"
  by (induction rule: rtranclp_induct) (auto intro: inv_step)

lemma simulates_steps:
  assumes "cstep\<^sup>*\<^sup>* s s'" and "inv s"
  shows "astep\<^sup>*\<^sup>* (abs_of s) (abs_of s')"
  using assms(1)
proof (induction rule: rtranclp_induct)
  case (step t u)
  with inv_steps [OF step.hyps(1) assms(2)] simulates [of t u] show ?case
    by (metis rtranclp.rtrancl_into_rtrancl)
qed simp

lemma transfer:
  assumes "\<And>a a'. P a \<Longrightarrow> astep a a' \<Longrightarrow> P a'" and "cstep\<^sup>*\<^sup>* s s'" "inv s" "P (abs_of s)"
  shows "P (abs_of s')"
  using simulates_steps [OF assms(2,3)] assms(4)
  by (induction rule: rtranclp_induct) (auto intro: assms(1))

end

section \<open>The abstraction\<close>

text \<open>What a finished stream was: certified if its second message is a certificate.\<close>

fun session_of :: "stream_state \<Rightarrow> outgoing list \<Rightarrow> session" where
  "session_of (AwaitChallenge ca) sent = Opened (ca_cert_chain_der ca)"
| "session_of (AwaitFinish ca nonce) sent = Challenged (ca_cert_chain_der ca) nonce"
| "session_of Finished sent =
     (case sent of
        [Ok (ChallengeResponse nonce), Ok (CertifyResponse reply)] \<Rightarrow>
          Certified (tl (certificate_chain reply)) nonce
      | _ \<Rightarrow> Ended)"

definition spec_of :: "avs_system \<Rightarrow> spec_state" where
  "spec_of s =
     \<lparr>current_chain = get_ca_certificate_chain (sys_service s),
      new_chains = map ca_cert_chain_der (sys_pending s),
      sessions = map (\<lambda>(st, sent). session_of st sent) (sys_streams s)\<rparr>"

lemma spec_of_release [simp]: "spec_of (release_all cas s) = spec_of s"
  by (simp add: spec_of_def)

lemma spec_of_trace [simp]: "spec_of (s\<lparr>sys_trace := tr\<rparr>) = spec_of s"
  by (simp add: spec_of_def)

lemma spec_of_streams:
  "spec_of (s\<lparr>sys_streams := sts\<rparr>) =
     (spec_of s)\<lparr>sessions := map (\<lambda>(st, sent). session_of st sent) sts\<rparr>"
  by (simp add: spec_of_def)

lemma chain_of_answer:
  assumes "run_state (certify_finish w oak b config ca nonce req) tr = (Ok resp, tr')"
  shows "tl (certificate_chain resp) = ca_cert_chain_der ca"
  using certify_finish_Ok [OF assms] by auto

text \<open>A turn of a stream is one step of its session, or none.\<close>

lemma session_of_turn:
  assumes "protocol_ok st sent"
    and run: "run_state (stream_step w oak b config st item alive) tr = ((st', out), tr')"
  shows "session_of st' (sent @ out) = session_of st sent
    \<or> session_of st' (sent @ out) = Ended \<and> st \<noteq> Finished
    \<or> (\<exists>c nonce. session_of st sent = Opened c \<and> length nonce = 32
         \<and> session_of st' (sent @ out) = Challenged c nonce)
    \<or> (\<exists>c nonce. session_of st sent = Challenged c nonce
         \<and> session_of st' (sent @ out) = Certified c nonce)"
proof (cases st)
  case (AwaitChallenge ca)
  with assms show ?thesis
    by (auto split: outcome.splits prod.splits if_splits dest: length_generate_nonce)
next
  case (AwaitFinish ca nonce)
  with assms show ?thesis
    by (auto split: outcome.splits prod.splits if_splits dest: chain_of_answer)
next
  case Finished
  with assms show ?thesis by simp
qed

lemma spec_step_session:
  assumes "i < length (sessions a)"
    and "x = sessions a ! i
      \<or> x = Ended \<and> (\<forall>c nonce. sessions a ! i \<noteq> Certified c nonce)
      \<or> (\<exists>c nonce. sessions a ! i = Opened c \<and> length nonce = 32 \<and> x = Challenged c nonce)
      \<or> (\<exists>c nonce. sessions a ! i = Challenged c nonce \<and> x = Certified c nonce)"
  shows "a\<lparr>sessions := (sessions a)[i := x]\<rparr> = a \<or> spec_step a (a\<lparr>sessions := (sessions a)[i := x]\<rparr>)"
  using assms by (auto intro: spec_step.intros)

lemma simulates_turn:
  assumes inv: "streams_ok s" and i: "i < length (sys_streams s)" "sys_streams s ! i = (st, sent)"
    and run: "run_state (stream_step w oak b config st item alive) tr = ((st', out), tr')"
  shows "spec_of (s\<lparr>sys_streams := (sys_streams s)[i := (st', sent @ out)]\<rparr>) = spec_of s
    \<or> spec_step (spec_of s) (spec_of (s\<lparr>sys_streams := (sys_streams s)[i := (st', sent @ out)]\<rparr>))"
proof -
  have "(st, sent) \<in> set (sys_streams s)"
    using i by (metis nth_mem)
  with inv have ok: "protocol_ok st sent"
    by (auto simp: streams_ok_def)
  have eq: "spec_of (s\<lparr>sys_streams := (sys_streams s)[i := (st', sent @ out)]\<rparr>) =
      (spec_of s)\<lparr>sessions := (sessions (spec_of s))[i := session_of st' (sent @ out)]\<rparr>"
    unfolding spec_of_streams map_update by (simp add: spec_of_def)
  have "st \<noteq> Finished \<Longrightarrow> session_of st sent \<noteq> Certified c nonce" for c nonce
    by (cases st) simp_all
  then show ?thesis
    unfolding eq using session_of_turn [OF ok run] i
    by (intro spec_step_session) (auto simp: spec_of_def)
qed

lemma created_chain:
  assumes "owns_live (s\<lparr>sys_issuing := xs, sys_pending := sys_pending s @ created r, sys_trace := tr\<rparr>)"
  shows "spec_of (s\<lparr>sys_issuing := xs, sys_pending := sys_pending s @ created r, sys_trace := tr\<rparr>) = spec_of s
    \<or> spec_step (spec_of s)
        (spec_of (s\<lparr>sys_issuing := xs, sys_pending := sys_pending s @ created r, sys_trace := tr\<rparr>))"
proof (cases r)
  case (Ok ca)
  with assms have "ca_cert_chain_der ca \<noteq> []"
    by (auto simp: owns_live_def owns_exactly_def separate_def set_live ca_wf_def)
  from spec_step.generated [OF this, of "spec_of s"] Ok show ?thesis
    by (simp add: spec_of_def)
qed (simp_all add: spec_of_def)

lemma simulates_step:
  assumes "system_inv w oak b s" and step: "sys_step w oak b s s'"
  shows "spec_of s' = spec_of s \<or> spec_step (spec_of s) (spec_of s')"
proof -
  have inv': "owns_live s'" and ok: "streams_ok s"
    using system_inv_step [OF step assms(1)] assms(1) by (simp_all add: system_inv_def)
  from step show ?thesis
  proof cases
    case (unary req r tr')
    then show ?thesis by simp
  next
    case (open_stream st)
    then obtain ca where "service_ca (sys_service s) = Some ca" "st = AwaitChallenge ca"
      by (auto simp: certify_attestation_stream_def outcome_simps)
    with open_stream spec_step.opened [of "spec_of s"] show ?thesis
      by (simp add: spec_of_def get_ca_certificate_chain_def get_ca_cert_chain_der_def)
  next
    case (turn i st sent item alive st' out tr')
    with simulates_turn [OF ok turn(2-4)] show ?thesis
      by (simp add: spec_of_def)
  next
    case (create_root r tr')
    with inv' created_chain [where s = s and xs = "sys_issuing s" and r = r and tr = tr'] show ?thesis by simp
  next
    case (request_tca client r tr')
    then show ?thesis by (simp add: spec_of_def)
  next
    case (answer_tca client before key csr after r tr')
    with inv' created_chain [where s = s and xs = "before @ after" and r = r and tr = tr'] show ?thesis by simp
  next
    case (install before ca after)
    with spec_step.installed [of "spec_of s" "map ca_cert_chain_der before" "ca_cert_chain_der ca"
        "map ca_cert_chain_der after"]
    show ?thesis
      by (simp add: spec_of_def get_ca_certificate_chain_def get_ca_cert_chain_der_def install_authority_def)
  next
    case (cancel_issuing before key csr after u tr')
    then show ?thesis by (simp add: spec_of_def)
  next
    case (cancel_install before ca after)
    with spec_step.discarded [of "spec_of s" "map ca_cert_chain_der before" "ca_cert_chain_der ca"
        "map ca_cert_chain_der after"]
    show ?thesis by (simp add: spec_of_def)
  qed
qed

interpretation avs_refines: forward_simulation "sys_step w oak b" spec_step spec_of "system_inv w oak b"
  for w oak b
  by unfold_locales (auto intro: system_inv_step dest: simulates_step)

lemma reachable_steps: "reachable w oak b svc s \<Longrightarrow> (sys_step w oak b)\<^sup>*\<^sup>* (system_init svc) s"
  by (induction rule: reachable.induct) (auto intro: rtranclp.rtrancl_into_rtrancl)

section \<open>An invariant of the specification\<close>

text \<open>No chain is empty and every challenge has 32 bytes.\<close>

fun session_ok :: "session \<Rightarrow> bool" where
  "session_ok (Opened c) \<longleftrightarrow> c \<noteq> []"
| "session_ok (Challenged c nonce) \<longleftrightarrow> c \<noteq> [] \<and> length nonce = 32"
| "session_ok (Certified c nonce) \<longleftrightarrow> c \<noteq> [] \<and> length nonce = 32"
| "session_ok Ended \<longleftrightarrow> True"

definition spec_ok :: "spec_state \<Rightarrow> bool" where
  "spec_ok a \<longleftrightarrow> current_chain a \<noteq> Some [] \<and> [] \<notin> set (new_chains a) \<and> list_all session_ok (sessions a)"

lemma list_all_update: "list_all P xs \<Longrightarrow> P x \<Longrightarrow> list_all P (xs[i := x])"
  using set_update_subset_insert [of xs i x] by (auto simp: list_all_iff)

lemma spec_ok_step:
  assumes "spec_step a a'" and "spec_ok a"
  shows "spec_ok a'"
  using assms
proof cases
  case (opened c)
  with assms(2) show ?thesis by (auto simp: spec_ok_def)
next
  case (challenged i c nonce)
  with assms(2) have "session_ok (sessions a ! i)" unfolding spec_ok_def list_all_length by blast
  with challenged assms(2) show ?thesis by (simp add: spec_ok_def list_all_update)
next
  case (certified i c nonce)
  with assms(2) have "session_ok (sessions a ! i)" unfolding spec_ok_def list_all_length by blast
  with certified assms(2) show ?thesis by (simp add: spec_ok_def list_all_update)
qed (auto simp: spec_ok_def list_all_update)

section \<open>Properties\<close>

text \<open>C11: the service refines its specification: however requests interleave, every reachable state
  is, seen through the abstraction, a reachable state of the abstract service, so a session that
  ends with a certificate was opened under a chain that was current, was challenged once with 32
  bytes, and its certificate comes with that very chain, which is not empty.\<close>

theorem service_refines_specification:
  assumes "reachable w oak b svc s" and "service_ca svc = None" and "system_environment w oak b svc"
  shows "spec_step\<^sup>*\<^sup>* spec_init (spec_of s) \<and> spec_ok (spec_of s)"
proof -
  note start = reachable_steps [OF assms(1)] system_inv_init [OF assms(2,3)]
  have init: "spec_of (system_init svc) = spec_init"
    using assms(2) by (simp add: spec_of_def spec_init_def system_init_def get_ca_certificate_chain_def)
  from avs_refines.simulates_steps [OF start] have "spec_step\<^sup>*\<^sup>* spec_init (spec_of s)"
    by (simp only: init)
  moreover have "spec_ok (spec_of s)"
    using spec_ok_step avs_refines.transfer [of spec_ok, OF _ start]
    by (simp add: init spec_ok_def spec_init_def)
  ultimately show ?thesis ..
qed

lemma service_refines_specification_witness:
  "\<exists>s c. spec_step\<^sup>*\<^sup>* spec_init (spec_of s) \<and> sessions (spec_of s) = [Opened c]"
proof -
  obtain s ca where "reachable (obliging_world 0) (sample_oak []) cbt_build (service_new None) s"
    "sys_streams s = [(AwaitChallenge ca, [])]"
    using sample_stream [OF new_service_simps] by blast
  moreover from this have "sessions (spec_of s) = [Opened (ca_cert_chain_der ca)]"
    by (simp add: spec_of_def)
  moreover have "service_ca (service_new None) = None"
    by (simp add: service_new_def)
  ultimately show ?thesis
    using service_refines_specification [OF _ _ sample_environment] by blast
qed

text \<open>Making an authority is a path of the transition system: one step without a TCA, and otherwise
  two, around the TCA's answer.\<close>

lemma create_authority_path:
  assumes "run_state (create_authority w (service_tca_client (sys_service s))) (sys_trace s) = (r, tr')"
  shows "(sys_step w oak b)\<^sup>*\<^sup>* s (s\<lparr>sys_pending := sys_pending s @ created r, sys_trace := tr'\<rparr>)"
proof (cases "service_tca_client (sys_service s)")
  case None
  with assms obtain r0 where root: "run_state (new_root w) (sys_trace s) = (r0, tr')" "created r = created r0"
    by (cases "run_state (new_root w) (sys_trace s)", cases "fst (run_state (new_root w) (sys_trace s))")
      (auto simp: create_authority_def)
  from sys_step.create_root [OF None root(1), of oak b] root(2) show ?thesis by auto
next
  case (Some client)
  obtain r1 tr1 where key: "run_state (create_key_and_csr w) (sys_trace s) = (r1, tr1)" by fastforce
  have request: "sys_step w oak b s (s\<lparr>sys_issuing := sys_issuing s @ created r1, sys_trace := tr1\<rparr>)"
    by (rule sys_step.request_tca [OF Some key])
  show ?thesis
  proof (cases r1)
    case (Ok made)
    obtain k csr where made: "made = (k, csr)" by fastforce
    let ?t = "s\<lparr>sys_issuing := sys_issuing s @ [(k, csr)], sys_trace := tr1\<rparr>"
    obtain r2 where fin: "run_state (finish_intermediate w k (client tr1 csr)) tr1 = (r2, tr')" "created r = created r2"
      using assms Some key Ok made
      by (cases "run_state (finish_intermediate w k (client tr1 csr)) tr1",
          cases "fst (run_state (finish_intermediate w k (client tr1 csr)) tr1)")
        (auto simp: create_authority_def new_intermediate_def bindE_def run_calls)
    have "sys_step w oak b ?t (s\<lparr>sys_pending := sys_pending s @ created r, sys_trace := tr'\<rparr>)"
      using sys_step.answer_tca [of ?t client "sys_issuing s" k csr "[]" w r2 tr'] Some fin by simp
    with request Ok made show ?thesis by (auto intro: converse_rtranclp_into_rtranclp)
  qed (use request assms Some key in \<open>auto simp: create_authority_def new_intermediate_def bindE_def\<close>)
qed

lemma create_authority_anchored:
  assumes "run_state (create_authority w tca) tr = (Ok ca, tr')"
  shows "anchored w tca ca tr'"
proof (cases tca)
  case None
  with assms show ?thesis
    by (auto simp: create_authority_def outcome_simps split: prod.splits intro: anchored_new_root)
next
  case (Some client)
  with assms obtain key csr tr1 where "run_state (create_key_and_csr w) tr = (Ok (key, csr), tr1)"
    "run_state (finish_intermediate w key (client tr1 csr)) tr1 = (Ok ca, tr')"
    by (auto simp: create_authority_def new_intermediate_def outcome_simps bindE_run_Ok ask_def split: prod.splits)
  with Some show ?thesis
    using anchored_finish csr_made_create by metis
qed

lemma generate_avs_signing_key_runs:
  assumes "run_state (generate_avs_signing_key w svc) tr = (r, tr')"
  obtains (installed) ca where "run_state (create_authority w (service_tca_client svc)) tr = (Ok ca, tr')"
      "r = Ok (\<lparr>new_certificate_chain = ca_cert_chain_der ca\<rparr>, install_authority ca svc)"
  | (refused) e where "run_state (create_authority w (service_tca_client svc)) tr = (Err e, tr')" "r = Err e"
  | (panicked) m where "run_state (create_authority w (service_tca_client svc)) tr = (Panicked m, tr')" "r = Panicked m"
proof -
  obtain r0 t where run: "run_state (create_authority w (service_tca_client svc)) tr = (r0, t)" by fastforce
  with assms that show thesis
    by (cases r0) (auto simp: generate_avs_signing_key_def bindE_def Let_def get_ca_cert_chain_der_def)
qed

text \<open>What key generation does to the objects of the service.\<close>

lemma create_authority_objects:
  assumes "reachable w oak b svc s" and "service_ca svc = None" and "system_environment w oak b svc"
    and "run_state (create_authority w (service_tca_client (sys_service s))) (sys_trace s) = (r, tr')"
  shows "case r of Ok ca \<Rightarrow> ca_objects ca \<inter> owned (ownership (sys_trace s)) = {}
    | Err e \<Rightarrow> owned (ownership tr') = owned (ownership (sys_trace s))
    | Panicked m \<Rightarrow> False"
proof -
  have inv: "system_inv w oak b s"
    using assms(1-3) by (rule reachable_inv)
  then have "assign_rsa_succeeds w" "\<And>client. service_tca_client (sys_service s) = Some client \<Longrightarrow> tca_answers client"
    "safe (ownership (sys_trace s))"
    by (auto simp: system_inv_def system_environment_def owns_live_def owns_exactly_def)
  from ownsD [OF gives_ca_create_authority [OF this(1,2)] this(3) refl assms(4)] show ?thesis
    by (auto split: outcome.splits)
qed

text \<open>C34: key generation replaces the authority of the running service, or changes nothing.  Run without
  interruption in a reachable state, the handler does not panic.  When it answers, the chain in its
  answer is the chain of the authority now installed, whose key and name were not alive before and which
  is anchored in the calls made (self-signed, or issued by the TCA for a request signed with its key); the
  run is a path of the transition system after which the abstract service has that chain as current chain
  and is otherwise as it was, and open streams and other key generations are untouched.  When it
  refuses, the service is as it was and owns what it owned.\<close>

theorem key_generation_replaces_the_authority:
  assumes "reachable w oak b svc s" and "service_ca svc = None" and "system_environment w oak b svc"
    and "run_state (generate_avs_signing_key w (sys_service s)) (sys_trace s) = (r, tr')"
  shows "case r of
      Ok (resp, svc') \<Rightarrow> (\<exists>s' ca. (sys_step w oak b)\<^sup>*\<^sup>* s s' \<and> sys_service s' = svc'
        \<and> service_ca svc' = Some ca \<and> new_certificate_chain resp = ca_cert_chain_der ca
        \<and> anchored w (service_tca_client svc) ca tr' \<and> ca_objects ca \<inter> owned (ownership (sys_trace s)) = {}
        \<and> spec_of s' = (spec_of s)\<lparr>current_chain := Some (new_certificate_chain resp)\<rparr>
        \<and> sys_streams s' = sys_streams s \<and> sys_pending s' = sys_pending s \<and> sys_issuing s' = sys_issuing s)
    | Err e \<Rightarrow> (sys_step w oak b)\<^sup>*\<^sup>* s (s\<lparr>sys_trace := tr'\<rparr>)
        \<and> owned (ownership tr') = owned (ownership (sys_trace s))
    | Panicked m \<Rightarrow> False"
  using assms(4)
proof (cases rule: generate_avs_signing_key_runs)
  case (installed ca)
  let ?t = "s\<lparr>sys_pending := sys_pending s @ [ca], sys_trace := tr'\<rparr>"
  let ?u = "release_all (case service_ca (sys_service s) of None \<Rightarrow> [] | Some old \<Rightarrow> [old])
      (s\<lparr>sys_trace := tr', sys_service := install_authority ca (sys_service s)\<rparr>)"
  have "sys_step w oak b ?t ?u"
    using sys_step.install [of ?t "sys_pending s" ca "[]"] by simp
  with create_authority_path [OF installed(1), of oak b] have path: "(sys_step w oak b)\<^sup>*\<^sup>* s ?u"
    by (auto intro: rtranclp.rtrancl_into_rtrancl)
  have "spec_of ?u = (spec_of s)\<lparr>current_chain := Some (ca_cert_chain_der ca)\<rparr>"
    by (simp add: spec_of_def install_authority_def get_ca_certificate_chain_def get_ca_cert_chain_der_def)
  moreover have "anchored w (service_tca_client svc) ca tr'"
    using create_authority_anchored [OF installed(1)] reachable_chain_inv [OF assms(1,2)]
    by (simp add: chain_inv_def)
  moreover have "ca_objects ca \<inter> owned (ownership (sys_trace s)) = {}"
    using create_authority_objects [OF assms(1-3) installed(1)] by simp
  ultimately show ?thesis
    unfolding installed(2) outcome.case prod.case
    by (intro exI [of _ ?u] exI [of _ ca] conjI path) (simp_all add: install_authority_def)
next
  case (refused e)
  with create_authority_path [OF refused(1), of oak b] create_authority_objects [OF assms(1-3) refused(1)]
  show ?thesis by simp
next
  case (panicked m)
  with create_authority_objects [OF assms(1-3) panicked(1)] show ?thesis by simp
qed

lemma key_generation_replaces_the_authority_witness:
  "\<exists>s' ca. (sys_step (obliging_world 0) (sample_oak []) cbt_build)\<^sup>*\<^sup>* (system_init (service_new None)) s'
     \<and> service_ca (sys_service s') = Some ca \<and> self_signed ca (sys_trace s')
     \<and> current_chain (spec_of s') = Some [[1]]"
proof -
  let ?s = "system_init (service_new None)"
  obtain ca tr' where ca: "run_state (create_authority (obliging_world 0) None) [] = (Ok ca, tr')"
    "ca_cert_chain_der ca = [[1]]"
    using sample_create_authority by blast
  then have "run_state (generate_avs_signing_key (obliging_world 0) (sys_service ?s)) (sys_trace ?s) =
      (Ok (\<lparr>new_certificate_chain = [[1]]\<rparr>, install_authority ca (service_new None)), tr')"
    by (simp add: generate_avs_signing_key_def bindE_run_Ok service_new_def get_ca_cert_chain_der_def
        system_init_def)
  from key_generation_replaces_the_authority [OF reachable.init new_service_simps(2)
      sample_environment [where p = "[]"] this]
  obtain s' where s': "(sys_step (obliging_world 0) (sample_oak []) cbt_build)\<^sup>*\<^sup>* ?s s'"
    "service_ca (sys_service s') = Some ca" "spec_of s' = (spec_of ?s)\<lparr>current_chain := Some [[1]]\<rparr>"
    by (auto simp: install_authority_def)
  have "reachable (obliging_world 0) (sample_oak []) cbt_build (service_new None) s'"
    using s'(1) by (induction rule: rtranclp_induct) (auto intro: reachable.intros)
  from reachable_chain_inv [OF this new_service_simps(2)] s'(2)
  have "self_signed ca (sys_trace s')"
    by (simp add: chain_inv_def anchored_def service_new_def set_live)
  with s' show ?thesis by auto
qed

end
