(* ===== verification/Bundled_Policies.thy ===== *)
theory Bundled_Policies
  imports Avs_Liveness
begin

text \<open>
  The policies that the repository ships: the text files under \<open>avs_server/policies\<close> in the order
  in which its \<open>BUILD\<close> file bundles them.  Each is modelled with its names, its operator rules and
  the shape of its reference values.  What the server never reads of them (endorser keys, required
  claims, firmware versions, the choice between \<open>any\<close> and \<open>all\<close> logs) is the argument \<open>unread\<close>,
  the bytes of those fields.

  The lemmas say who can be certified under these policies, that the names certified under the
  development policy are no other policy's, and that no transparency-log field is left empty.
\<close>

section \<open>Shapes of reference values\<close>

record unread =
  endorsement_unread :: "slot \<Rightarrow> bytes"
  tlog_unread :: "slot \<Rightarrow> bytes"
  skip_unread :: "slot \<Rightarrow> bytes"
  amd_unread :: bytes
  root_unread :: bytes
  kernel_unread :: bytes

text \<open>The three forms of a \<open>tlog\<close> block: \<open>any\<close> of C2SP and PES, PES alone, Rekor alone.\<close>

definition c2sp_or_pes :: "bytes \<Rightarrow> tlog_reference_values" where
  "c2sp_or_pes u = \<lparr>pes = Some \<lparr>key_set = None\<rparr>, c2sp = Some \<lparr>c2sp_policy = []\<rparr>, tlog_rest = u\<rparr>"

definition pes_only :: "bytes \<Rightarrow> tlog_reference_values" where
  "pes_only u = \<lparr>pes = Some \<lparr>key_set = None\<rparr>, c2sp = None, tlog_rest = u\<rparr>"

definition rekor_only :: "bytes \<Rightarrow> tlog_reference_values" where
  "rekor_only u = \<lparr>pes = None, c2sp = None, tlog_rest = u\<rparr>"

definition endorsed :: "unread \<Rightarrow> (bytes \<Rightarrow> tlog_reference_values) \<Rightarrow> slot \<Rightarrow> reference_type option" where
  "endorsed u logs s = Some (Endorsement
     \<lparr>tlog = Some (logs (tlog_unread u s)), endorsement_rest = endorsement_unread u s\<rparr>)"

definition skipped :: "unread \<Rightarrow> slot \<Rightarrow> reference_type option" where
  "skipped u s = Some (OtherReference (skip_unread u s))"

text \<open>
  The common shape of all files, from the value of each place and the number of \<open>binary_mpms\<close>:
  \<open>intel_tdx\<close> is present and empty, \<open>runtime_agent\<close> and \<open>binary_mpm\<close> are absent.
\<close>

definition cbt_values :: "unread \<Rightarrow> (slot \<Rightarrow> reference_type option) \<Rightarrow> nat \<Rightarrow> reference_values" where
  "cbt_values u at mpms =
     \<lparr>rv_type = Some (Cbt
       \<lparr>cbt_root_layer = Some
          \<lparr>amd_sev = Some \<lparr>amd_stage0 = Some \<lparr>brv_type = at CbtStage0\<rparr>, amd_rest = amd_unread u\<rparr>,
           intel_tdx = Some \<lparr>tdx_stage0 = None, tdx_rest = []\<rparr>,
           root_rest = root_unread u\<rparr>,
        cbt_kernel_layer = Some
          \<lparr>kernel = Some \<lparr>kbrv_type = at CbtKernel\<rparr>,
           init_ram_fs = Some \<lparr>brv_type = at CbtInitRamFs\<rparr>,
           kernel_rest = kernel_unread u\<rparr>,
        layer1 = Some
          \<lparr>runtime_agent = None,
           runtime_agent_binary = Some \<lparr>brv_type = at CbtRuntimeAgentBinary\<rparr>,
           userspace = Some \<lparr>brv_type = at CbtUserspace\<rparr>\<rparr>,
        layer2 = Some
          \<lparr>binary_mpm = None,
           binary_mpms = map (\<lambda>i. \<lparr>mpm_type = at (CbtBinaryMpms i)\<rparr>) [0 ..< mpms]\<rparr>\<rparr>)\<rparr>"

text \<open>Everything endorsed in the same form, but the userspace, which is skipped.\<close>

definition endorsed_values ::
  "unread \<Rightarrow> (bytes \<Rightarrow> tlog_reference_values) \<Rightarrow> nat \<Rightarrow> reference_values" where
  "endorsed_values u logs mpms =
     cbt_values u (\<lambda>s. if s = CbtUserspace then skipped u s else endorsed u logs s) mpms"

section \<open>The policy files\<close>

definition google_policy :: "string \<Rightarrow> string \<Rightarrow> string \<Rightarrow> reference_values \<Rightarrow> policy" where
  "google_policy name workload role rvs =
     \<lparr>publisher_domain = ''google.com'', publisher_role = ''pcit-release-bot'',
      workload_name = workload, oak_reference_values = Some rvs,
      policy_operator_policy = Some \<lparr>rules = [\<lparr>rule_domain = ''prod.google.com'', rule_role = role\<rparr>]\<rparr>,
      policy_name = name\<rparr>"

definition encrypted_zone_policy :: "unread \<Rightarrow> policy" where
  "encrypted_zone_policy u = google_policy ''encrypted_zone'' ''encrypted-zone'' ''pa-frontend''
     (cbt_values u (\<lambda>s. if s = CbtUserspace then skipped u s
        else if s = CbtBinaryMpms 0 then endorsed u rekor_only s
        else endorsed u c2sp_or_pes s) 4)"

definition pa_frontend_nonprod_policy :: "unread \<Rightarrow> policy" where
  "pa_frontend_nonprod_policy u =
     google_policy ''pa-frontend-nonprod'' ''pa-frontend-nonprod'' ''pa-frontend-nonprod''
       (endorsed_values u c2sp_or_pes 4)"

definition prober_policy :: "unread \<Rightarrow> policy" where
  "prober_policy u = google_policy ''prober'' ''attestation-verification-service-prober'' ''prober''
     (endorsed_values u c2sp_or_pes 2)"

definition prober_ez_policy :: "unread \<Rightarrow> policy" where
  "prober_ez_policy u =
     google_policy ''prober_ez'' ''attestation-verification-service-prober-ez'' ''prober''
       (endorsed_values u c2sp_or_pes 4)"

definition development_roles :: "string list" where
  "development_roles =
     [''dev'', ''dev-pa-2481dfc23b'', ''dev-pa-eba5b05bf8'', ''dev-pa-014c68966d'', ''dev-pa-3b327f803b'']"

definition development_policy :: "unread \<Rightarrow> policy" where
  "development_policy u =
     \<lparr>publisher_domain = ''untrusted.com'', publisher_role = ''none'',
      workload_name = ''unendorsed-development'',
      oak_reference_values = Some (cbt_values u (skipped u) 1),
      policy_operator_policy = Some
        \<lparr>rules = map (\<lambda>r. \<lparr>rule_domain = ''prod.google.com'', rule_role = r\<rparr>) development_roles\<rparr>,
      policy_name = ''development''\<rparr>"

text \<open>The files of the directories \<open>pa-*\<close>: name, workload and role are the same.\<close>

definition pa_policy :: "string \<Rightarrow> unread \<Rightarrow> policy" where
  "pa_policy name u = google_policy name name name (endorsed_values u pes_only 2)"

definition pa_names :: "string list" where
  "pa_names =
     [''pa-014c68966d'', ''pa-014c68966d-nonprod'',
      ''pa-2481dfc23b'', ''pa-2481dfc23b-nonprod'',
      ''pa-45468cbcc9'', ''pa-45468cbcc9-nonprod'',
      ''pa-bfee2c4a65'', ''pa-bfee2c4a65-nonprod'',
      ''pa-eba5b05bf8'', ''pa-eba5b05bf8-nonprod'']"

definition bundled_policies :: "(string \<Rightarrow> unread) \<Rightarrow> policy list" where
  "bundled_policies us =
     [encrypted_zone_policy (us ''encrypted_zone''), pa_frontend_nonprod_policy (us ''pa-frontend-nonprod''),
      prober_policy (us ''prober''), prober_ez_policy (us ''prober_ez''),
      development_policy (us ''development'')]
     @ map (\<lambda>name. pa_policy name (us name)) pa_names"

text \<open>The policies published by Google: name, workload and the one role that is authorised.\<close>

definition google_entitlements :: "(string \<times> string \<times> string) list" where
  "google_entitlements =
     [(''encrypted_zone'', ''encrypted-zone'', ''pa-frontend''),
      (''pa-frontend-nonprod'', ''pa-frontend-nonprod'', ''pa-frontend-nonprod''),
      (''prober'', ''attestation-verification-service-prober'', ''prober''),
      (''prober_ez'', ''attestation-verification-service-prober-ez'', ''prober'')]
     @ map (\<lambda>n. (n, n, n)) pa_names"

section \<open>Looking up a bundled policy\<close>

lemma google_policy_simps [simp]:
  "policy_name (google_policy name workload role rvs) = name"
  "workload_name (google_policy name workload role rvs) = workload"
  "publisher_domain (google_policy name workload role rvs) = ''google.com''"
  "publisher_role (google_policy name workload role rvs) = ''pcit-release-bot''"
  "oak_reference_values (google_policy name workload role rvs) = Some rvs"
  "policy_operator_policy (google_policy name workload role rvs) =
     Some \<lparr>rules = [\<lparr>rule_domain = ''prod.google.com'', rule_role = role\<rparr>]\<rparr>"
  by (simp_all add: google_policy_def)

lemma development_policy_simps [simp]:
  "policy_name (development_policy u) = ''development''"
  "workload_name (development_policy u) = ''unendorsed-development''"
  "publisher_domain (development_policy u) = ''untrusted.com''"
  "publisher_role (development_policy u) = ''none''"
  "oak_reference_values (development_policy u) = Some (cbt_values u (skipped u) 1)"
  "policy_operator_policy (development_policy u) = Some
     \<lparr>rules = map (\<lambda>r. \<lparr>rule_domain = ''prod.google.com'', rule_role = r\<rparr>) development_roles\<rparr>"
  by (simp_all add: development_policy_def)

lemmas google_files = encrypted_zone_policy_def pa_frontend_nonprod_policy_def prober_policy_def
  prober_ez_policy_def pa_policy_def

lemma policy_name_bundled:
  "map policy_name (bundled_policies us) =
     [''encrypted_zone'', ''pa-frontend-nonprod'', ''prober'', ''prober_ez'', ''development''] @ pa_names"
  by (simp add: bundled_policies_def google_files comp_def)

lemma bundled_cases:
  assumes "p \<in> set (bundled_policies us)"
  obtains (google) name workload role rvs where "p = google_policy name workload role rvs"
      "(name, workload, role) \<in> set google_entitlements"
  | (development) "p = development_policy (us ''development'')"
proof -
  from assms consider (ez) "p = encrypted_zone_policy (us ''encrypted_zone'')"
    | (nonprod) "p = pa_frontend_nonprod_policy (us ''pa-frontend-nonprod'')"
    | (prober) "p = prober_policy (us ''prober'')"
    | (prober_ez) "p = prober_ez_policy (us ''prober_ez'')"
    | (dev) "p = development_policy (us ''development'')"
    | (pa) n where "n \<in> set pa_names" "p = pa_policy n (us n)"
    by (auto simp: bundled_policies_def)
  then show thesis
  proof cases
    case ez
    show thesis by (rule google [OF ez [unfolded encrypted_zone_policy_def]]) (simp add: google_entitlements_def)
  next
    case nonprod
    show thesis by (rule google [OF nonprod [unfolded pa_frontend_nonprod_policy_def]]) (simp add: google_entitlements_def)
  next
    case prober
    show thesis by (rule google [OF prober [unfolded prober_policy_def]]) (simp add: google_entitlements_def)
  next
    case prober_ez
    show thesis by (rule google [OF prober_ez [unfolded prober_ez_policy_def]]) (simp add: google_entitlements_def)
  next
    case dev
    then show thesis by (rule development)
  next
    case pa
    show thesis by (rule google [OF pa(2) [unfolded pa_policy_def]]) (use pa(1) in \<open>simp add: google_entitlements_def\<close>)
  qed
qed

lemma find_SomeD: "find P xs = Some x \<Longrightarrow> x \<in> set xs \<and> P x"
  by (induction xs) (auto split: if_splits)

lemma registry_of_distinct:
  assumes "distinct (map policy_name ps)" and "[] \<notin> policy_name ` set ps"
  shows "registry_of ps name = Some p \<longleftrightarrow> p \<in> set ps \<and> policy_name p = name"
proof -
  have "p \<in> set ps \<and> policy_name p = name \<Longrightarrow> find (\<lambda>p. policy_name p = name) (rev ps) = Some p"
    using assms(1)
  proof (induction ps rule: rev_induct)
    case Nil
    then show ?case by simp
  next
    case (snoc q ps)
    then show ?case by (auto simp: image_iff)
  qed
  moreover have "find (\<lambda>p. policy_name p = name) (rev ps) = Some p \<Longrightarrow> p \<in> set ps \<and> policy_name p = name"
    using find_SomeD [of "\<lambda>p. policy_name p = name" "rev ps" p] by simp
  ultimately have "find (\<lambda>p. policy_name p = name) (rev ps) = Some p \<longleftrightarrow> p \<in> set ps \<and> policy_name p = name"
    by (rule iffI [rotated])
  moreover from assms(2) have "p \<in> set ps \<Longrightarrow> policy_name p \<noteq> []"
    by (metis imageI)
  ultimately show ?thesis
    by (auto simp: registry_of_lookup)
qed

lemma bundled_registry:
  "registry_of (bundled_policies us) name = Some p \<longleftrightarrow>
     p \<in> set (bundled_policies us) \<and> policy_name p = name"
proof (rule registry_of_distinct)
  show "distinct (map policy_name (bundled_policies us))"
    unfolding policy_name_bundled pa_names_def by simp
  have "[] \<notin> set (map policy_name (bundled_policies us))"
    unfolding policy_name_bundled pa_names_def by simp
  then show "[] \<notin> policy_name ` set (bundled_policies us)" by simp
qed

lemma bundled_find:
  assumes "find (\<lambda>p. policy_name p = name) (rev (bundled_policies us)) = Some p"
  shows "p \<in> set (bundled_policies us) \<and> policy_name p = name"
  using find_SomeD [OF assms] by simp

section \<open>Who is entitled\<close>

definition entitled :: "policy \<Rightarrow> operator_rule \<Rightarrow> bool" where
  "entitled p rule \<longleftrightarrow> rule_domain rule = ''prod.google.com'' \<and>
     ((publisher_domain p, publisher_role p) = (''google.com'', ''pcit-release-bot'')
        \<and> (policy_name p, workload_name p, rule_role rule) \<in> set google_entitlements
      \<or> (publisher_domain p, publisher_role p) = (''untrusted.com'', ''none'')
        \<and> policy_name p = ''development'' \<and> workload_name p = ''unendorsed-development''
        \<and> rule_role rule \<in> set development_roles)"

lemma bundled_rules:
  assumes "p \<in> set (bundled_policies us)" and "policy_operator_policy p = Some opol"
    and "rule \<in> set (rules opol)"
  shows "entitled p rule"
  using assms(1)
proof (cases rule: bundled_cases)
  case google
  with assms(2,3) show ?thesis by (auto simp: entitled_def)
next
  case development
  with assms(2,3) show ?thesis by (auto simp: entitled_def)
qed

text \<open>The hints that reach a policy which authorises the role, by number.\<close>

definition legacy_roles :: "(int \<times> string) list" where
  "legacy_roles =
     [(2, ''pa-frontend''), (2, ''pa-frontend-nonprod''), (2, ''prober''),
      (3, ''pa-frontend''), (3, ''pa-frontend-nonprod''), (4, ''prober'')]
     @ map (Pair 5) development_roles @ map (Pair 6) development_roles @ map (Pair 7) development_roles"

lemma entitlement_bundled:
  assumes "(name, workload, role) \<in> set google_entitlements"
  shows "\<exists>rvs. google_policy name workload role rvs \<in> set (bundled_policies us)"
  using assms unfolding google_entitlements_def
  by (simp add: bundled_policies_def image_iff)
    (elim disjE; (auto simp: google_files)?)

lemma development_bundled: "development_policy (us ''development'') \<in> set (bundled_policies us)"
  by (simp add: bundled_policies_def)

lemma bundled_authorises:
  "(\<exists>p opol. registry_of (bundled_policies us) name = Some p \<and> policy_operator_policy p = Some opol
      \<and> is_operator_authorized opol info) \<longleftrightarrow>
   oi_domain info = ''prod.google.com'' \<and>
     ((\<exists>workload. (name, workload, oi_role info) \<in> set google_entitlements)
      \<or> name = ''development'' \<and> oi_role info \<in> set development_roles)"
  (is "?auth \<longleftrightarrow> ?entitled")
proof
  assume ?auth
  then obtain p opol where p: "p \<in> set (bundled_policies us)" "policy_name p = name"
    "policy_operator_policy p = Some opol"
    and "\<lparr>rule_domain = oi_domain info, rule_role = oi_role info\<rparr> \<in> set (rules opol)"
    by (auto simp: bundled_registry is_operator_authorized_def list_ex_iff) (metis operator_rule.surjective old.unit.exhaust)
  from bundled_rules [OF p(1,3) this(4)] p(2) show ?entitled
    by (auto simp: entitled_def)
next
  assume e: ?entitled
  then consider (google) workload where "(name, workload, oi_role info) \<in> set google_entitlements"
    | (development) "name = ''development''" "oi_role info \<in> set development_roles"
    by blast
  then show ?auth
  proof cases
    case google
    from entitlement_bundled [OF this, of us] obtain rvs where
      "google_policy name workload (oi_role info) rvs \<in> set (bundled_policies us)" by blast
    with e show ?thesis
      unfolding bundled_registry by (intro exI) (auto simp: is_operator_authorized_def)
  next
    case development
    with e development_bundled [of us] show ?thesis
      unfolding bundled_registry by (intro exI) (auto simp: is_operator_authorized_def list_ex_iff)
  qed
qed

lemma entitled_roles:
  "(\<exists>w. (''encrypted_zone'', w, r) \<in> set google_entitlements) \<longleftrightarrow> r = ''pa-frontend''"
  "(\<exists>w. (''pa-frontend-nonprod'', w, r) \<in> set google_entitlements) \<longleftrightarrow> r = ''pa-frontend-nonprod''"
  "(\<exists>w. (''prober'', w, r) \<in> set google_entitlements) \<longleftrightarrow> r = ''prober''"
  "(\<exists>w. (''prober_ez'', w, r) \<in> set google_entitlements) \<longleftrightarrow> r = ''prober''"
  "(''development'', w, r) \<notin> set google_entitlements"
  unfolding google_entitlements_def pa_names_def by simp_all

lemma resolve_hint:
  "resolve_policy_request (Some (PolicyHintSelector n)) role = Ok np \<longleftrightarrow>
     resolve_legacy_hint (unwrap_or HintUnspecified (policy_hint_try_from n)) role = Ok np"
  by (simp add: resolve_policy_request_def outcome_simps)

lemma hint_roles:
  "(\<exists>name profile. resolve_legacy_hint (unwrap_or HintUnspecified (policy_hint_try_from n)) r = Ok (name, profile)
      \<and> ((\<exists>w. (name, w, r) \<in> set google_entitlements) \<or> name = ''development'' \<and> r \<in> set development_roles)) \<longleftrightarrow>
   (n, r) \<in> set legacy_roles"
proof (cases "n \<in> {2 .. 7}")
  case True
  then consider "n = 2" | "n = 3" | "n = 4" | "n = 5" | "n = 6" | "n = 7" by fastforce
  then show ?thesis
    by cases (simp_all add: policy_hint_try_from_def entitled_roles legacy_roles_def image_iff
        conj_disj_distribL ex_disj_distrib)
next
  case False
  then have "unwrap_or HintUnspecified (policy_hint_try_from n) = HintUnspecified"
    using policy_hint_try_from_known [of n] by blast
  with False show ?thesis
    by (auto simp: legacy_roles_def bail_def)
qed

section \<open>No field is left empty\<close>

lemma tlog_of_reference:
  "tlog_of_binary (Some \<lparr>brv_type = t\<rparr>) = Option.bind t endorsed_tlog"
  "tlog_of_kernel_binary (Some \<lparr>kbrv_type = t\<rparr>) = Option.bind t endorsed_tlog"
  "tlog_of_mpm (Some \<lparr>mpm_type = t\<rparr>) = Option.bind t endorsed_tlog"
  by (simp_all add: tlog_of_binary_def tlog_of_kernel_binary_def tlog_of_mpm_def)

lemma bundled_no_runtime_agent:
  assumes "p \<in> set (bundled_policies us)"
  shows "tlog_at p CbtRuntimeAgent = None"
proof -
  have "type_tlog_at t CbtRuntimeAgent = None" if "rv_type (cbt_values u at n) = Some t" for u at n t
    using that by (auto simp: cbt_values_def tlog_of_binary_def)
  then have cbt: "tlog_at q CbtRuntimeAgent = None" if "oak_reference_values q = Some (cbt_values u at n)" for q u at n
    using that by (auto simp: tlog_at_def cbt_values_def tlog_of_binary_def)
  from assms show ?thesis
    by (auto simp: bundled_policies_def google_files endorsed_values_def intro: cbt)
qed

text \<open>
  A policy as served has no empty field: every PES field holds the key set and, when C2SP logs are
  switched on, every C2SP field holds the verifier policy.
\<close>

definition fields_filled :: "policies_config \<Rightarrow> string \<Rightarrow> verifying_key_set \<Rightarrow> policy \<Rightarrow> bool" where
  "fields_filled config text ks q \<longleftrightarrow>
     (\<forall>s v. pes_at q s = Some v \<longrightarrow> key_set v = Some ks)
   \<and> (enable_c2sp_tlog config \<longrightarrow> (\<forall>s v. c2sp_at q s = Some v \<longrightarrow> c2sp_policy v = text))"

lemma pes_at_modify_c2sp: "pes_at (modify_c2sp s f p) t = pes_at p t"
  by (simp add: pes_at_def modify_c2sp_def tlog_at_modify_tlog bind_map_option)

lemma c2sp_at_modify_pes: "c2sp_at (modify_pes s f p) t = c2sp_at p t"
  by (simp add: c2sp_at_def modify_pes_def tlog_at_modify_tlog bind_map_option)

lemma pes_at_c2sp_writes: "pes_at (fold (\<lambda>s. modify_c2sp s f) ss p) t = pes_at p t"
  by (induction ss arbitrary: p) (simp_all add: pes_at_modify_c2sp)

lemma c2sp_at_pes_writes: "c2sp_at (fold (\<lambda>s. modify_pes s f) ss p) t = c2sp_at p t"
  by (induction ss arbitrary: p) (simp_all add: c2sp_at_modify_pes)

lemma loaded_policy_filled:
  assumes agent: "c2sp_at p CbtRuntimeAgent = None"
  shows "fields_filled config text ks (loaded_policy config text (Some ks) p)"
proof -
  let ?q = "write_pes_key_set ks p"
  let ?c2sp = "fold (\<lambda>s. modify_c2sp s (c2sp_policy_update (\<lambda>_. text))) (get_c2sp_fields ?q) ?q"
  have q: "loaded_policy config text (Some ks) p = (if enable_c2sp_tlog config then ?c2sp else ?q)"
    by (simp add: loaded_policy_def write_c2sp_fields) (simp add: write_pes_key_set_def write_pes_fields)
  have pes: "pes_at ?q s = Some v \<Longrightarrow> key_set v = Some ks" for s v
    by (auto simp: write_pes_key_set_complete)
  have "c2sp_at ?q CbtRuntimeAgent = None"
    using agent by (simp add: write_pes_key_set_def c2sp_at_pes_writes)
  then have "c2sp_at ?c2sp s = Some v \<Longrightarrow> c2sp_policy v = text" for s v
    by (cases "s = CbtRuntimeAgent") (auto simp: c2sp_refs.deref_write_refs in_c2sp_fields split: if_splits)
  with pes show ?thesis
    unfolding q fields_filled_def by (auto simp: pes_at_c2sp_writes)
qed

section \<open>Every policy gives a verifier\<close>

definition verifiable :: "policy \<Rightarrow> bool" where
  "verifiable p \<longleftrightarrow> (\<exists>rvs c root amd. oak_reference_values p = Some rvs \<and> rv_type rvs = Some (Cbt c)
     \<and> cbt_root_layer c = Some root \<and> amd_sev root = Some amd \<and> amd_stage0 amd \<noteq> None
     \<and> cbt_kernel_layer c \<noteq> None \<and> layer1 c \<noteq> None \<and> layer2 c \<noteq> None)"

lemma verifiable_policy_map: "verifiable p \<Longrightarrow> verifiable (policy_map agent f p)"
  by (auto simp: verifiable_def policy_map_def cbt_map_def root_map_def on_binary_def)

lemma verifiable_loaded: "verifiable p \<Longrightarrow> verifiable (loaded_policy config text kset p)"
  by (auto simp: loaded_policy_def verifiable_policy_map split: option.split)

lemma bundled_verifiable:
  assumes "p \<in> set (bundled_policies us)"
  shows "verifiable p"
proof -
  have cbt: "verifiable q" if "oak_reference_values q = Some (cbt_values u at n)" for q u at n
    using that by (auto simp: verifiable_def cbt_values_def)
  from assms show ?thesis
    by (auto simp: bundled_policies_def google_files endorsed_values_def intro: cbt)
qed

lemma verifiable_verifier:
  assumes "verifiable p"
  shows "\<exists>rvs amd firmware kernel_rvs layer1_rvs layer2_rvs. oak_reference_values p = Some rvs
    \<and> create_verifier oak rvs platform =
        Ok (create_transparent_verifier oak amd firmware kernel_rvs layer1_rvs layer2_rvs)"
  using assms by (auto simp: verifiable_def create_verifier_def create_cbt_verifier_def) blast

section \<open>Names of the entitled\<close>

lemma entitled_role_disjoint:
  assumes "r \<in> set development_roles" and "(n, wl, r') \<in> set google_entitlements"
  shows "r \<noteq> r'"
proof -
  have "list_all (\<lambda>(_, _, r'). r' \<notin> set development_roles) google_entitlements"
    by code_simp
  with assms show ?thesis
    by (auto simp: list_all_iff)
qed

lemma entitled_role_plain:
  assumes "r \<in> set development_roles \<or> (n, wl, r) \<in> set google_entitlements"
  shows "CHR ''/'' \<notin> set r \<and> CHR ''.'' \<notin> set r"
proof -
  have "list_all (\<lambda>r. CHR ''/'' \<notin> set r \<and> CHR ''.'' \<notin> set r) development_roles"
    "list_all (\<lambda>(_, _, r). CHR ''/'' \<notin> set r \<and> CHR ''.'' \<notin> set r) google_entitlements"
    by code_simp+
  with assms show ?thesis
    by (auto simp: list_all_iff)
qed

lemma alt_name_role:
  assumes "alt_name ca i = alt_name ca' i'"
    and "valid_trust_domain (trust_domain ca)" "valid_trust_domain (trust_domain ca')"
    and "operator_domain_of i = ''prod.google.com''" "operator_domain_of i' = ''prod.google.com''"
    and "CHR ''/'' \<notin> set (operator_role_of i) \<and> CHR ''.'' \<notin> set (operator_role_of i)"
    and "CHR ''/'' \<notin> set (operator_role_of i') \<and> CHR ''.'' \<notin> set (operator_role_of i')"
  shows "operator_role_of i = operator_role_of i'"
proof (cases "certificate_profile i = Tls")
  case True
  then have "operator_role_of i @ CHR ''.'' # (operator_domain_of i @ ''.'' @ trust_domain ca) =
      operator_role_of i' @ CHR ''.'' # (operator_domain_of i' @ ''.'' @ trust_domain ca')"
    using assms(1) by (auto simp: alt_name_def dns_name_def split: if_splits)
  from append_sep_inj [OF _ _ this] assms(6,7) show ?thesis by blast
next
  case False
  then have "spiffe_id (trust_domain ca) i = spiffe_id (trust_domain ca') i'"
    using assms(1) by (auto simp: alt_name_def split: if_splits)
  moreover have "CHR ''/'' \<notin> set (trust_domain ca)" "CHR ''/'' \<notin> set (trust_domain ca')"
    using assms(2,3) by (auto simp: valid_trust_domain_def)
  ultimately show ?thesis
    using spiffe_prefix_inj assms(4-7) by simp
qed

lemma development_not_google: "(''development'', wl, r) \<notin> set google_entitlements"
proof -
  have "list_all (\<lambda>(n, _, _). n \<noteq> ''development'') google_entitlements"
    by code_simp
  then show ?thesis
    by (auto simp: list_all_iff)
qed

lemma certified_entitled:
  assumes "policy_bundle_decode b (POLICY_BUNDLE b) = Some \<lparr>policies = bundled_policies us\<rparr>"
    and "run_state (validate_csr_request w oak b csr_der ev en nonce name profile info config) tr =
      (Ok (identity, tlogs), tr')"
  shows "operator_domain_of identity = ''prod.google.com''
    \<and> (publisher_domain_of identity = ''google.com'' \<and> publisher_role_of identity = ''pcit-release-bot''
         \<and> (name, workload_name_of identity, operator_role_of identity) \<in> set google_entitlements
       \<or> publisher_domain_of identity = ''untrusted.com'' \<and> publisher_role_of identity = ''none''
         \<and> workload_name_of identity = ''unendorsed-development''
         \<and> name = ''development'' \<and> include_development_policy config
         \<and> operator_role_of identity \<in> set development_roles)"
proof -
  from validated_operator [OF assms(2)] assms(1) obtain p opol where
    p: "find (\<lambda>p. policy_name p = name) (rev (bundled_policies us)) = Some p"
    and dev: "name = ''development'' \<longrightarrow> include_development_policy config"
    and rule: "policy_operator_policy p = Some opol"
      "\<lparr>rule_domain = oi_domain info, rule_role = oi_role info\<rparr> \<in> set (rules opol)"
    and id: "operator_domain_of identity = oi_domain info" "operator_role_of identity = oi_role info"
      "publisher_domain_of identity = publisher_domain p" "publisher_role_of identity = publisher_role p"
      "workload_name_of identity = workload_name p"
    unfolding authorised_by_bundle_def by auto
  from bundled_find [OF p] bundled_rules [OF _ rule] have "policy_name p = name"
    "entitled p \<lparr>rule_domain = oi_domain info, rule_role = oi_role info\<rparr>" by blast+
  with dev show ?thesis
    unfolding id entitled_def by auto
qed

section \<open>Properties\<close>

text \<open>C7: the service with the bundle of the repository certifies only operators of
  \<open>prod.google.com\<close>, each under a policy that lists its role: a certificate that names the publisher
  \<open>google.com\<close> is for one of fourteen pairs of workload and role, and one under the development policy
  names the publisher \<open>untrusted.com\<close> and the workload \<open>unendorsed-development\<close>, is for a development
  role and exists only where that policy is switched on.\<close>

theorem repository_certifies_only_entitled:
  assumes "policy_bundle_decode b (POLICY_BUNDLE b) = Some \<lparr>policies = bundled_policies us\<rparr>"
    and "run_state (validate_csr_request w oak b csr_der ev en nonce name profile info config) tr =
      (Ok (identity, tlogs), tr')"
  shows "operator_domain_of identity = ''prod.google.com''
    \<and> (publisher_domain_of identity = ''google.com'' \<and> publisher_role_of identity = ''pcit-release-bot''
         \<and> (name, workload_name_of identity, operator_role_of identity) \<in> set google_entitlements
       \<or> publisher_domain_of identity = ''untrusted.com'' \<and> publisher_role_of identity = ''none''
         \<and> workload_name_of identity = ''unendorsed-development''
         \<and> name = ''development'' \<and> include_development_policy config
         \<and> operator_role_of identity \<in> set development_roles)"
  using assms by (rule certified_entitled)

text \<open>C8: a certificate under the development policy of the repository, for which no binary is
  endorsed, never carries a name that a certificate under another policy can carry: whatever the
  profiles and the trust domains of the two authorities, the subject alternative names differ.\<close>

theorem development_names_are_distinct:
  assumes "policy_bundle_decode b (POLICY_BUNDLE b) = Some \<lparr>policies = bundled_policies us\<rparr>"
    and dev: "run_state (validate_csr_request w oak b csr_der ev en nonce ''development'' profile info config) tr =
      (Ok (identity, tlogs), tr')"
    and other: "run_state (validate_csr_request w2 oak2 b csr_der2 ev2 en2 nonce2 name profile2 info2 config2) tr2 =
      (Ok (identity2, tlogs2), tr2')" "name \<noteq> ''development''"
    and "valid_trust_domain (trust_domain ca)" "valid_trust_domain (trust_domain ca2)"
  shows "alt_name ca identity \<noteq> alt_name ca2 identity2"
proof -
  from certified_entitled [OF assms(1) dev] have 1: "operator_domain_of identity = ''prod.google.com''"
    "operator_role_of identity \<in> set development_roles"
    using development_not_google by blast+
  from certified_entitled [OF assms(1) other(1)] other(2) have 2: "operator_domain_of identity2 = ''prod.google.com''"
    "(name, workload_name_of identity2, operator_role_of identity2) \<in> set google_entitlements"
    by blast+
  show ?thesis
    using alt_name_role [OF _ assms(5,6) 1(1) 2(1)] entitled_role_plain 1(2) 2(2)
      entitled_role_disjoint [OF 1(2) 2(2)] by blast
qed

text \<open>A build with the bundle of the repository, and a client that its prober policy certifies.\<close>

definition repository_build :: "(string \<Rightarrow> unread) \<Rightarrow> build" where
  "repository_build us = \<lparr>policy_bundle_decode = (\<lambda>_. Some \<lparr>policies = bundled_policies us\<rparr>),
     POLICY_BUNDLE = [], PROD_VERIFIER_POLICY = ''v''\<rparr>"

definition no_unread :: "string \<Rightarrow> unread" where
  "no_unread _ = \<lparr>endorsement_unread = (\<lambda>_. []), tlog_unread = (\<lambda>_. []), skip_unread = (\<lambda>_. []),
     amd_unread = [], root_unread = [], kernel_unread = []\<rparr>"

lemma repository_build_simps:
  "policy_bundle_decode (repository_build us) (POLICY_BUNDLE (repository_build us)) =
     Some \<lparr>policies = bundled_policies us\<rparr>"
  "PROD_VERIFIER_POLICY (repository_build us) = ''v''"
  by (simp_all add: repository_build_def)

lemma prober_found:
  "find (\<lambda>p. policy_name p = ''prober'') (rev (policies \<lparr>policies = bundled_policies us\<rparr>)) =
     Some (prober_policy (us ''prober''))"
proof -
  have "registry_of (bundled_policies us) ''prober'' = Some (prober_policy (us ''prober''))"
    unfolding bundled_registry by (simp add: bundled_policies_def prober_policy_def)
  then show ?thesis by (simp add: registry_of_lookup)
qed

lemma repository_echo_attests:
  assumes "p \<in> set (bundled_policies us)" and "\<And>n. expected = Some n \<Longrightarrow> n = nonce \<and> length nonce < 2 ^ 32"
  shows "attests (obliging_world 1000) echo_oak
     (loaded_policy config text kset p) (echo_evidence nonce) sample_endorsements expected"
proof -
  have "accepts_after [] (obliging_world 1000) echo_oak expected (echo_results (echo_evidence nonce))"
    using assms(2) by (intro echo_accepts) auto
  with verifiable_verifier [OF verifiable_loaded [OF bundled_verifiable [OF assms(1)]]] show ?thesis
    unfolding attests_after_def
    by (fastforce simp: create_transparent_verifier_def echo_oak_def)
qed

lemma repository_run:
  assumes p: "p \<in> set (bundled_policies no_unread)"
    and rule: "policy_operator_policy p = Some opol" "is_operator_authorized opol info"
    and dev: "policy_name p = ''development'' \<longrightarrow> include_development_policy config"
  shows "\<exists>identity tlogs tr'. run_state (validate_csr_request (obliging_world 1000) echo_oak
      (repository_build no_unread) [] (echo_evidence []) sample_endorsements (Some []) (policy_name p) profile
      info config) [] = (Ok (identity, tlogs), tr')"
proof -
  from p have reg: "registry_of (bundled_policies no_unread) (policy_name p) = Some p"
    unfolding bundled_registry by simp
  have found: "policy_name p \<noteq> []"
    "find (\<lambda>q. policy_name q = policy_name p) (rev (policies \<lparr>policies = bundled_policies no_unread\<rparr>)) = Some p"
    using reg by (auto simp: registry_of_lookup split: if_splits)
  have "succeeds (validate_csr_request (obliging_world 1000) echo_oak
      (repository_build no_unread) [] (echo_evidence []) sample_endorsements (Some []) (policy_name p) profile
      info config) (\<lambda>a. certificate_profile (fst a) = profile)"
    by (rule succeeds_validate [OF echo_setting(1,2) repository_build_simps(1) found dev rule
        repository_echo_attests [OF p]]) simp_all
  from succeedsD [OF this, of "[]"] show ?thesis by force
qed

lemma repository_validation:
  "\<exists>identity tlogs tr'. run_state (validate_csr_request (obliging_world 1000) echo_oak
      (repository_build no_unread) [] (echo_evidence []) sample_endorsements (Some []) ''prober'' Mtls
      sample_operator policies_config_default) [] = (Ok (identity, tlogs), tr')"
  using repository_run [of "prober_policy (no_unread ''prober'')"]
  by (simp add: bundled_policies_def prober_policy_def is_operator_authorized_def sample_operator_def)

lemma development_validation:
  "\<exists>identity tlogs tr'. run_state (validate_csr_request (obliging_world 1000) echo_oak
      (repository_build no_unread) [] (echo_evidence []) sample_endorsements (Some []) ''development'' Mtls
      \<lparr>oi_domain = ''prod.google.com'', oi_role = ''dev''\<rparr>
      (policies_config_default\<lparr>include_development_policy := True\<rparr>)) [] = (Ok (identity, tlogs), tr')"
  using repository_run [of "development_policy (no_unread ''development'')"]
  by (simp add: bundled_policies_def development_roles_def is_operator_authorized_def)

lemma repository_certifies_only_entitled_witness:
  "\<exists>identity :: provisioned_identity. operator_domain_of identity = ''prod.google.com''
     \<and> publisher_domain_of identity = ''google.com''
     \<and> (''prober'', workload_name_of identity, operator_role_of identity) \<in> set google_entitlements"
proof -
  obtain identity tlogs tr' where "run_state (validate_csr_request (obliging_world 1000) echo_oak
      (repository_build no_unread) [] (echo_evidence []) sample_endorsements (Some []) ''prober'' Mtls
      sample_operator policies_config_default) [] = (Ok (identity, tlogs), tr')"
    using repository_validation by blast
  from repository_certifies_only_entitled [OF repository_build_simps(1) this] show ?thesis
    by (intro exI [of _ identity]) simp
qed

lemma sample_trust_domain_valid: "valid_trust_domain (trust_domain sample_ca)"
  by (simp add: sample_ca_def mk_ca_def valid_trust_domain_def is_ascii_graphic_def)

lemma development_names_are_distinct_witness:
  "\<exists>identity identity2 tlogs tlogs2 tr tr2.
     run_state (validate_csr_request (obliging_world 1000) echo_oak
       (repository_build no_unread) [] (echo_evidence []) sample_endorsements (Some []) ''development'' Mtls
       \<lparr>oi_domain = ''prod.google.com'', oi_role = ''dev''\<rparr>
       (policies_config_default\<lparr>include_development_policy := True\<rparr>)) [] = (Ok (identity, tlogs), tr)
   \<and> run_state (validate_csr_request (obliging_world 1000) echo_oak
       (repository_build no_unread) [] (echo_evidence []) sample_endorsements (Some []) ''prober'' Mtls
       sample_operator policies_config_default) [] = (Ok (identity2, tlogs2), tr2)
   \<and> alt_name sample_ca identity \<noteq> alt_name sample_ca identity2"
  using development_validation repository_validation
    development_names_are_distinct [OF repository_build_simps(1) _ _ _
      sample_trust_domain_valid sample_trust_domain_valid, where name = "''prober''"]
  by fastforce

text \<open>C23: a deprecated policy hint leads to a policy of the repository that authorises the operator
  exactly for the listed pairs of hint number and role in \<open>prod.google.com\<close>.  The role
  \<open>prober-staging\<close>, which \<open>resolve_legacy_hint\<close> names, is not among them.\<close>

theorem legacy_hints_serve_exactly:
  "(\<exists>name profile p opol. resolve_policy_request (Some (PolicyHintSelector n)) (oi_role info) = Ok (name, profile)
      \<and> registry_of (bundled_policies us) name = Some p \<and> policy_operator_policy p = Some opol
      \<and> is_operator_authorized opol info) \<longleftrightarrow>
   oi_domain info = ''prod.google.com'' \<and> (n, oi_role info) \<in> set legacy_roles"
  (is "?served \<longleftrightarrow> _")
proof -
  let ?hint = "unwrap_or HintUnspecified (policy_hint_try_from n)"
  have "?served \<longleftrightarrow> (\<exists>name profile. resolve_legacy_hint ?hint (oi_role info) = Ok (name, profile)
      \<and> (\<exists>p opol. registry_of (bundled_policies us) name = Some p \<and> policy_operator_policy p = Some opol
          \<and> is_operator_authorized opol info))"
    unfolding resolve_hint by blast
  then show ?thesis
    unfolding bundled_authorises hint_roles [symmetric] by blast
qed

text \<open>C22: a policy of the repository that the service loads where certificates of the endorsement
  service are installed has no empty field: every PES field holds the key set, one key for each
  certificate, and every C2SP field holds the verifier policy when C2SP logs are switched on (the place
  that the C2SP traversal leaves out is absent from all of them).  And it gives an attestation verifier,
  whatever the platform in the evidence: no reference value that \<open>create_verifier\<close> asks for is missing.\<close>

theorem repository_policies_are_complete:
  assumes "policy_bundle_decode b (POLICY_BUNDLE b) = Some \<lparr>policies = bundled_policies us\<rparr>"
    and run: "run_state (get_policy_with_config_and_c2sp_policy w b name config text) tr = (Ok q, tr')"
    and certs: "run_state (load_certificates w ''etc/pes-certs/**/*.pem'') tr = (Ok certs, tr1)" "certs \<noteq> []"
  shows "(\<exists>ks. length (keys ks) = length certs \<and> fields_filled config text ks q)
    \<and> (\<exists>rvs verifier. oak_reference_values q = Some rvs \<and> create_verifier oak rvs platform = Ok verifier)"
proof -
  from get_policy_run_Ok [OF run] certs(1) obtain m p kset where
    p: "policy_registry b = Ok m" "m name = Some p"
    and k: "run_state (load_rsa_sha2_256_keyset w certs) tr1 = (Ok kset, tr')"
    and q: "q = loaded_policy config text kset p"
    by auto
  from k certs(2) obtain ks where ks: "kset = Some \<lparr>keys = ks, signed_timestamp = None\<rparr>"
    "run_state (load_keys w 0 certs) tr1 = (Ok ks, tr')"
    by (auto simp: load_rsa_sha2_256_keyset_def bindE_run_Ok)
  from p assms(1) have bundled: "p \<in> set (bundled_policies us)"
    by (auto simp: policy_registry_def build_policy_registry_def bundled_registry)
  from bundled_no_runtime_agent [OF this] have "c2sp_at p CbtRuntimeAgent = None"
    by (simp add: c2sp_at_def)
  from loaded_policy_filled [OF this] load_keys_Ok [OF ks(2)]
  have "\<exists>ks. length (keys ks) = length certs \<and> fields_filled config text ks q"
    unfolding q ks(1) by (intro exI [of _ "\<lparr>keys = ks, signed_timestamp = None\<rparr>"]) simp
  with verifiable_verifier [OF verifiable_loaded [OF bundled_verifiable [OF bundled]]] show ?thesis
    unfolding q by blast
qed

definition certificates_world :: world where
  "certificates_world = (obliging_world 1000)\<lparr>glob_paths := (\<lambda>_ _. Some [Some ''etc/pes-certs/a.pem'']),
     path_is_file := (\<lambda>_ _. True), read_to_string := (\<lambda>_ _. Some ''pem'')\<rparr>"

lemma repository_policies_are_complete_witness:
  "\<exists>ks q. length (keys ks) = 1 \<and> fields_filled policies_config_default ''v'' ks q"
proof -
  have "library_succeeds certificates_world" "certificate_files_readable certificates_world"
    using echo_setting(1)
    by (simp_all add: library_succeeds_after_def certificate_files_readable_after_def certificates_world_def)
  from succeedsD [OF succeeds_get_policy [OF this repository_build_simps(1) _ prober_found,
      of policies_config_default]] obtain q tr' where
    "run_state (get_policy_with_config_and_c2sp_policy certificates_world (repository_build no_unread)
      ''prober'' policies_config_default ''v'') [] = (Ok q, tr')"
    by (fastforce simp: get_policy_with_config_def repository_build_simps)
  moreover have "run_state (load_certificates certificates_world ''etc/pes-certs/**/*.pem'') [] =
      (Ok [''pem''], [])"
    by (simp add: load_certificates_def certificates_world_def run_calls bindE_def)
  ultimately show ?thesis
    using repository_policies_are_complete [OF repository_build_simps(1)] by fastforce
qed

end
