(* ===== verification/Tests_Identity.thy ===== *)
theory Tests_Identity
  imports Avs_Startup
begin

text \<open>
  The unit tests of \<open>operator_info.rs\<close>, \<open>server.rs\<close> and \<open>config.rs\<close>, each as a proposition about the
  model that is the conjunction of the test's assertions, and the proof that it holds.  The model
  gives the answers that the authors of the code expect of it, on their own examples.
\<close>

section \<open>Reading an outcome\<close>

text \<open>\<open>unwrap\<close> followed by assertions on the value, and \<open>unwrap_err\<close> compared with an error.\<close>

fun unwrap_satisfies :: "('e, 'a) outcome \<Rightarrow> ('a \<Rightarrow> bool) \<Rightarrow> bool" where
  "unwrap_satisfies (Ok a) P = P a"
| "unwrap_satisfies _ P = False"

fun unwrap_err_satisfies :: "('e, 'a) outcome \<Rightarrow> ('e \<Rightarrow> bool) \<Rightarrow> bool" where
  "unwrap_err_satisfies (Err e) P = P e"
| "unwrap_err_satisfies _ P = False"

definition str_contains :: "string \<Rightarrow> string \<Rightarrow> bool" where
  "str_contains s t \<longleftrightarrow> list_ex (\<lambda>i. take (length t) (drop i s) = t) [0 ..< Suc (length s)]"

lemma str_contains_append [simp]: "str_contains (a @ t @ b) t"
  by (auto simp: str_contains_def list_ex_iff intro!: bexI [of _ "length a"])

section \<open>Tests of the operator identities\<close>

definition test_reject_empty_domain :: bool where
  "test_reject_empty_domain \<longleftrightarrow>
     unwrap_err_satisfies (operator_info_new [] ''role'') (\<lambda>err. err = EmptyDomain)"

definition test_reject_empty_role :: bool where
  "test_reject_empty_role \<longleftrightarrow>
     unwrap_err_satisfies (operator_info_new ''google.com'' []) (\<lambda>err. err = EmptyRole)"

definition test_valid_operator_info_multi_segment :: bool where
  "test_valid_operator_info_multi_segment \<longleftrightarrow>
     unwrap_satisfies (operator_info_new ''corp.google.com'' ''encrypted-zone'') (\<lambda>op.
       oi_domain op = ''corp.google.com'' \<and> oi_role op = ''encrypted-zone'')"

definition test_valid_operator_info_single_segment_domain :: bool where
  "test_valid_operator_info_single_segment_domain \<longleftrightarrow>
     unwrap_satisfies (operator_info_new ''google'' ''prober'') (\<lambda>op.
       oi_domain op = ''google'' \<and> oi_role op = ''prober'')"

definition test_valid_operator_info_underscores_and_hyphens :: bool where
  "test_valid_operator_info_underscores_and_hyphens \<longleftrightarrow>
     unwrap_satisfies (operator_info_new ''my_cluster_01.sub-domain.org'' ''worker_node-1'') (\<lambda>op.
       oi_domain op = ''my_cluster_01.sub-domain.org'' \<and> oi_role op = ''worker_node-1'')"

definition test_valid_operator_info_max_lengths :: bool where
  "test_valid_operator_info_max_lengths \<longleftrightarrow>
     (let label_63 = replicate 63 CHR ''a''; role_63 = replicate 63 CHR ''b''; domain_63 = label_63;
          label_61 = replicate 61 CHR ''c'';
          domain_253 = label_63 @ ''.'' @ label_63 @ ''.'' @ label_63 @ ''.'' @ label_61
      in unwrap_satisfies (operator_info_new domain_63 role_63) (\<lambda>op.
           oi_domain op = domain_63 \<and> oi_role op = role_63)
       \<and> length domain_253 = 253
       \<and> unwrap_satisfies (operator_info_new domain_253 ''role'') (\<lambda>op253.
           oi_domain op253 = domain_253))"

definition test_reject_domain_too_long :: bool where
  "test_reject_domain_too_long \<longleftrightarrow>
     (let label_63 = replicate 63 CHR ''a''; label_62 = replicate 62 CHR ''c'';
          domain_254 = label_63 @ ''.'' @ label_63 @ ''.'' @ label_63 @ ''.'' @ label_62
      in length domain_254 = 254
       \<and> unwrap_err_satisfies (operator_info_new domain_254 ''role'') (\<lambda>err. err = DomainTooLong 254))"

definition test_reject_domain_label_too_long :: bool where
  "test_reject_domain_label_too_long \<longleftrightarrow>
     (let label_64 = replicate 64 CHR ''a''
      in unwrap_err_satisfies (operator_info_new label_64 ''role'')
           (\<lambda>err. err = InvalidDomainLabelTooLong label_64 64))"

definition test_reject_role_too_long :: bool where
  "test_reject_role_too_long \<longleftrightarrow>
     (let role_64 = replicate 64 CHR ''r''
      in unwrap_err_satisfies (operator_info_new ''google.com'' role_64) (\<lambda>err. err = RoleTooLong 64))"

definition test_reject_domain_consecutive_dots :: bool where
  "test_reject_domain_consecutive_dots \<longleftrightarrow>
     unwrap_err_satisfies (operator_info_new ''google..com'' ''role'') (\<lambda>err. err = InvalidDomainLabelEmpty)"

definition test_reject_domain_leading_dot :: bool where
  "test_reject_domain_leading_dot \<longleftrightarrow>
     unwrap_err_satisfies (operator_info_new ''.google.com'' ''role'') (\<lambda>err. err = InvalidDomainLabelEmpty)"

definition test_reject_domain_trailing_dot :: bool where
  "test_reject_domain_trailing_dot \<longleftrightarrow>
     unwrap_err_satisfies (operator_info_new ''google.com.'' ''role'') (\<lambda>err. err = InvalidDomainLabelEmpty)"

definition test_reject_domain_with_slashes :: bool where
  "test_reject_domain_with_slashes \<longleftrightarrow>
     unwrap_err_satisfies (operator_info_new ''google.com/evil'' ''role'')
       (\<lambda>err. err = InvalidDomainCharacter (code CHR ''/''))"

text \<open>The characters of \<open>test_reject_invalid_characters\<close>, by code point, and \<open>format!\<close> with one of them.\<close>

definition invalid_chars :: "nat list" where
  "invalid_chars =
     map code ([CHR '':'', CHR '' '', CHR '','', CHR 0x22, CHR 0x27, CHR 0x5C] @ ''@#$%^&*()+=[]{}|<>?!'')
       @ [0, 10, 0xE9]"

definition around :: "string \<Rightarrow> nat \<Rightarrow> string \<Rightarrow> string" where
  "around s c t = s @ map char_of (utf8_encode c) @ t"

definition test_reject_invalid_characters :: bool where
  "test_reject_invalid_characters \<longleftrightarrow>
     list_all (\<lambda>c.
       unwrap_err_satisfies (operator_info_new (around ''google'' c ''com'') ''role'')
         (\<lambda>err. err = InvalidDomainCharacter c)
       \<and> unwrap_err_satisfies (operator_info_new ''google.com'' (around ''role'' c ''admin''))
         (\<lambda>err. err = InvalidRoleCharacter c)) invalid_chars
   \<and> list_all (\<lambda>c.
       unwrap_err_satisfies (operator_info_new ''google.com'' (around ''role'' c ''admin''))
         (\<lambda>err. err = InvalidRoleCharacter c)) [code CHR ''.'', code CHR ''/'']"

definition test_reject_hyphen_boundaries :: bool where
  "test_reject_hyphen_boundaries \<longleftrightarrow>
     unwrap_err_satisfies (operator_info_new ''-google.com'' ''role'')
       (\<lambda>err. err = DomainLabelHyphenBoundary ''-google'')
   \<and> unwrap_err_satisfies (operator_info_new ''google-.com'' ''role'')
       (\<lambda>err. err = DomainLabelHyphenBoundary ''google-'')
   \<and> unwrap_err_satisfies (operator_info_new ''corp.-sub-.com'' ''role'')
       (\<lambda>err. err = DomainLabelHyphenBoundary ''-sub-'')
   \<and> unwrap_err_satisfies (operator_info_new ''google.com'' ''-role'') (\<lambda>err. err = RoleHyphenBoundary ''-role'')
   \<and> unwrap_err_satisfies (operator_info_new ''google.com'' ''role-'') (\<lambda>err. err = RoleHyphenBoundary ''role-'')
   \<and> unwrap_err_satisfies (operator_info_new ''google.com'' ''-'') (\<lambda>err. err = RoleHyphenBoundary ''-'')"

definition test_proto_try_from_conversions :: bool where
  "test_proto_try_from_conversions \<longleftrightarrow>
     (let proto = \<lparr>operator_domain = ''google.com'', operator_role = ''encrypted-zone''\<rparr>;
          bad_proto = \<lparr>operator_domain = [], operator_role = ''none''\<rparr>
      in unwrap_satisfies (operator_info_try_from proto) (\<lambda>op.
           oi_domain op = ''google.com'' \<and> oi_role op = ''encrypted-zone'')
       \<and> operator_info_try_from bad_proto = Err EmptyDomain)"

definition test_tonic_status_conversion :: bool where
  "test_tonic_status_conversion \<longleftrightarrow>
     (case operator_status EmptyDomain of Status c t \<Rightarrow> c = InvalidArgument
        \<and> (case t of Text m \<Rightarrow> str_contains m ''operator_domain must not be empty'' | _ \<Rightarrow> False))"

section \<open>Tests of the hints and of the configuration\<close>

definition test_resolve_legacy_hint :: bool where
  "test_resolve_legacy_hint \<longleftrightarrow>
     unwrap_satisfies (resolve_legacy_hint EzEnforcerCbCertificate ''pa-frontend'') (\<lambda>r. r = (''encrypted_zone'', Mtls))
   \<and> unwrap_satisfies (resolve_legacy_hint EzEnforcerCbCertificate ''pa-frontend-staging'') (\<lambda>r. r = (''encrypted_zone'', Mtls))
   \<and> unwrap_satisfies (resolve_legacy_hint EzEnforcerCbCertificate ''pa-frontend-nonprod'') (\<lambda>r. r = (''pa-frontend-nonprod'', Mtls))
   \<and> unwrap_satisfies (resolve_legacy_hint EzEnforcerCbCertificate ''prober'') (\<lambda>r. r = (''prober_ez'', Mtls))
   \<and> unwrap_satisfies (resolve_legacy_hint EzEnforcerCbCertificate ''prober-staging'') (\<lambda>r. r = (''prober_ez'', Mtls))
   \<and> unwrap_satisfies (resolve_legacy_hint EzTsmCbFrontendCertificate ''pa-frontend'') (\<lambda>r. r = (''encrypted_zone'', Tls))
   \<and> unwrap_satisfies (resolve_legacy_hint EzTsmCbFrontendCertificate ''pa-frontend-nonprod'') (\<lambda>r. r = (''pa-frontend-nonprod'', Tls))
   \<and> unwrap_satisfies (resolve_legacy_hint ProberCbCertificate ''prober'') (\<lambda>r. r = (''prober'', Unrestricted))
   \<and> unwrap_satisfies (resolve_legacy_hint DevelopmentCbCertificate ''dev'') (\<lambda>r. r = (''development'', Unrestricted))
   \<and> unwrap_satisfies (resolve_legacy_hint DevelopmentMtlsCbCertificate ''dev'') (\<lambda>r. r = (''development'', Mtls))
   \<and> unwrap_satisfies (resolve_legacy_hint DevelopmentTlsCbCertificate ''dev'') (\<lambda>r. r = (''development'', Tls))
   \<and> unwrap_err_satisfies (resolve_legacy_hint HintUnspecified ''dev'') (\<lambda>_. True)"

text \<open>
  The JSON parser is a library; each test of the configuration starts from the fields of its text.  A
  field that \<open>AppConfig\<close> does not have is ignored by the parser.
\<close>

definition test_default_values_applied :: bool where
  "test_default_values_applied \<longleftrightarrow>
     (let config = app_config_deserialize \<lparr>json_use_self_signed_cert = None, json_tca_endpoint = None,
        json_include_development_policy = None, json_enable_c2sp_tlog = None\<rparr>
      in \<not> use_self_signed_cert config \<and> tca_endpoint config = ''http://10.0.2.100:8008''
       \<and> config_include_development_policy config \<and> \<not> config_enable_c2sp_tlog config)"

definition test_custom_values_applied :: bool where
  "test_custom_values_applied \<longleftrightarrow>
     (let config = app_config_deserialize \<lparr>json_use_self_signed_cert = Some True,
        json_tca_endpoint = Some ''http://example.com'',
        json_include_development_policy = Some False, json_enable_c2sp_tlog = Some True\<rparr>
      in use_self_signed_cert config \<and> tca_endpoint config = ''http://example.com''
       \<and> \<not> config_include_development_policy config \<and> config_enable_c2sp_tlog config)"

definition test_legacy_fields_ignored_and_defaults_applied :: bool where
  "test_legacy_fields_ignored_and_defaults_applied \<longleftrightarrow>
     (let config = app_config_deserialize \<lparr>json_use_self_signed_cert = None,
        json_tca_endpoint = Some ''http://custom-tca:9000'',
        json_include_development_policy = None, json_enable_c2sp_tlog = None\<rparr>
      in \<not> use_self_signed_cert config \<and> tca_endpoint config = ''http://custom-tca:9000'')"

section \<open>They hold\<close>

lemma operator_info_accepts:
  test_valid_operator_info_multi_segment test_valid_operator_info_single_segment_domain
  test_valid_operator_info_underscores_and_hyphens
  by code_simp+

lemma operator_info_lengths:
  test_valid_operator_info_max_lengths test_reject_domain_too_long test_reject_domain_label_too_long
  test_reject_role_too_long
  by code_simp+

lemma operator_info_rejects:
  test_reject_empty_domain test_reject_empty_role test_reject_domain_consecutive_dots
  test_reject_domain_leading_dot test_reject_domain_trailing_dot test_reject_domain_with_slashes
  test_reject_hyphen_boundaries
  by code_simp+

lemma operator_info_rejects_characters: test_reject_invalid_characters
  by code_simp

lemma operator_info_conversions: test_proto_try_from_conversions test_tonic_status_conversion
  by code_simp+

lemma hint_and_config_tests:
  test_resolve_legacy_hint test_default_values_applied test_custom_values_applied
  test_legacy_fields_ignored_and_defaults_applied
  by code_simp+

definition operator_info_suite :: bool where
  "operator_info_suite \<longleftrightarrow>
     test_reject_empty_domain \<and> test_reject_empty_role \<and> test_valid_operator_info_multi_segment
   \<and> test_valid_operator_info_single_segment_domain \<and> test_valid_operator_info_underscores_and_hyphens
   \<and> test_valid_operator_info_max_lengths \<and> test_reject_domain_too_long
   \<and> test_reject_domain_label_too_long \<and> test_reject_role_too_long
   \<and> test_reject_domain_consecutive_dots \<and> test_reject_domain_leading_dot
   \<and> test_reject_domain_trailing_dot \<and> test_reject_domain_with_slashes
   \<and> test_reject_invalid_characters \<and> test_reject_hyphen_boundaries
   \<and> test_proto_try_from_conversions \<and> test_tonic_status_conversion"

definition service_suite :: bool where
  "service_suite \<longleftrightarrow>
     test_resolve_legacy_hint \<and> test_default_values_applied \<and> test_custom_values_applied
   \<and> test_legacy_fields_ignored_and_defaults_applied"

lemma identity_suites: operator_info_suite service_suite
  unfolding operator_info_suite_def service_suite_def
  by (intro conjI operator_info_accepts operator_info_lengths operator_info_rejects
      operator_info_rejects_characters operator_info_conversions hint_and_config_tests)+

end
