(* ===== verification/Tests_Policy.thy ===== *)
theory Tests_Policy
  imports Bundled_Policies Tests_Identity
begin

text \<open>
  The unit tests of \<open>policy.rs\<close>, \<open>pes.rs\<close>, \<open>c2sp.rs\<close> and \<open>certs.rs\<close>, each as the conjunction of its
  assertions about the model.  The tests of \<open>policy.rs\<close> run on the bundle of the repository, with the
  file system of a test run, where no certificate is installed; those of \<open>pes.rs\<close> on a world that
  answers like their mocks.
\<close>

section \<open>Tests of the policy store\<close>

definition value_of :: "'a ffi \<Rightarrow> 'a" where
  "value_of m = fst (run_state m [])"

text \<open>The assertions that the tests \<open>get_policy_*_returns_valid_policy\<close> have in common.\<close>

definition returns_valid_policy ::
  "world \<Rightarrow> build \<Rightarrow> string \<Rightarrow> string \<Rightarrow> string \<Rightarrow> bool" where
  "returns_valid_policy w b name workload role \<longleftrightarrow>
     unwrap_satisfies (value_of (get_policy w b name)) (\<lambda>policy.
       policy_name policy = name \<and> workload_name policy = workload
       \<and> (case policy_operator_policy policy of
            None \<Rightarrow> False
          | Some op \<Rightarrow> length (rules op) = 1 \<and> rule_domain (rules op ! 0) = ''prod.google.com''
              \<and> rule_role (rules op ! 0) = role)
       \<and> oak_reference_values policy \<noteq> None)"

definition get_policy_encrypted_zone_returns_valid_policy :: "world \<Rightarrow> build \<Rightarrow> bool" where
  "get_policy_encrypted_zone_returns_valid_policy w b \<longleftrightarrow>
     returns_valid_policy w b ''encrypted_zone'' ''encrypted-zone'' ''pa-frontend''"

definition get_policy_pa_frontend_nonprod_returns_valid_policy :: "world \<Rightarrow> build \<Rightarrow> bool" where
  "get_policy_pa_frontend_nonprod_returns_valid_policy w b \<longleftrightarrow>
     returns_valid_policy w b ''pa-frontend-nonprod'' ''pa-frontend-nonprod'' ''pa-frontend-nonprod''"

definition get_policy_prober_returns_valid_policy :: "world \<Rightarrow> build \<Rightarrow> bool" where
  "get_policy_prober_returns_valid_policy w b \<longleftrightarrow>
     returns_valid_policy w b ''prober'' ''attestation-verification-service-prober'' ''prober''"

definition get_policy_prober_ez_returns_valid_policy :: "world \<Rightarrow> build \<Rightarrow> bool" where
  "get_policy_prober_ez_returns_valid_policy w b \<longleftrightarrow>
     returns_valid_policy w b ''prober_ez'' ''attestation-verification-service-prober-ez'' ''prober''"

text \<open>The ten tests of the \<open>pa-*\<close> policies differ only in the name.\<close>

definition get_policy_pa_returns_valid_policy :: "world \<Rightarrow> build \<Rightarrow> bool" where
  "get_policy_pa_returns_valid_policy w b \<longleftrightarrow>
     list_all (\<lambda>name. returns_valid_policy w b name name name)
       [''pa-014c68966d'', ''pa-014c68966d-nonprod'', ''pa-2481dfc23b'', ''pa-2481dfc23b-nonprod'',
        ''pa-45468cbcc9'', ''pa-45468cbcc9-nonprod'', ''pa-bfee2c4a65'', ''pa-bfee2c4a65-nonprod'',
        ''pa-eba5b05bf8'', ''pa-eba5b05bf8-nonprod'']"

definition get_policy_development_returns_error :: "world \<Rightarrow> build \<Rightarrow> bool" where
  "get_policy_development_returns_error w b \<longleftrightarrow>
     unwrap_err_satisfies (value_of (get_policy_with_config w b ''development''
         (policies_config_default\<lparr>include_development_policy := False\<rparr>)))
       (\<lambda>e. e = Msg ''policy not supported: development'')"

definition get_policy_development_enabled_returns_valid_policy :: "world \<Rightarrow> build \<Rightarrow> bool" where
  "get_policy_development_enabled_returns_valid_policy w b \<longleftrightarrow>
     unwrap_satisfies (value_of (get_policy_with_config w b ''development''
         (policies_config_default\<lparr>include_development_policy := True\<rparr>))) (\<lambda>policy.
       policy_name policy = ''development'' \<and> workload_name policy = ''unendorsed-development''
       \<and> (case policy_operator_policy policy of
            None \<Rightarrow> False
          | Some op \<Rightarrow> 0 < length (rules op) \<and> rule_domain (rules op ! 0) = ''prod.google.com''
              \<and> rule_role (rules op ! 0) = ''dev'')
       \<and> oak_reference_values policy \<noteq> None)"

definition get_policy_unrecognized_returns_error :: "world \<Rightarrow> build \<Rightarrow> bool" where
  "get_policy_unrecognized_returns_error w b \<longleftrightarrow>
     unwrap_err_satisfies (value_of (get_policy w b ''nonexistent_policy''))
       (\<lambda>e. e = Msg ''unrecognized policy name: nonexistent_policy'')"

text \<open>Without certificates a policy is served as it was bundled.\<close>

lemma get_policy_without_certificates_run:
  assumes "policy_bundle_decode b (POLICY_BUNDLE b) = Some \<lparr>policies = bundled_policies us\<rparr>"
    and "glob_paths w tr ''etc/pes-certs/**/*.pem'' = Some []" and "\<not> enable_c2sp_tlog config"
    and "name \<noteq> ''development'' \<or> include_development_policy config"
  shows "run_state (get_policy_with_config w b name config) tr =
    (ok_or (Msg (''unrecognized policy name: '' @ name)) (registry_of (bundled_policies us) name), tr)"
  using assms
  by (cases "registry_of (bundled_policies us) name")
    (auto simp: get_policy_with_config_def get_policy_with_config_and_c2sp_policy_def
      policy_registry_def build_policy_registry_def inject_pes_keys_def load_certificates_def
      load_rsa_sha2_256_keyset_def bindE_def ask_def)

lemmas get_policy_without_certificates =
  arg_cong [OF get_policy_without_certificates_run, of _ _ _ "[]" _ _ fst, folded value_of_def, unfolded fst_conv]

lemma entitlement_returns_valid_policy:
  assumes "policy_bundle_decode b (POLICY_BUNDLE b) = Some \<lparr>policies = bundled_policies us\<rparr>"
    and "glob_paths w [] ''etc/pes-certs/**/*.pem'' = Some []"
    and "(name, workload, role) \<in> set google_entitlements"
  shows "returns_valid_policy w b name workload role"
proof -
  from entitlement_bundled [OF assms(3), of us] obtain rvs where
    "registry_of (bundled_policies us) name = Some (google_policy name workload role rvs)"
    by (auto simp: bundled_registry)
  moreover have "name \<noteq> ''development''"
    using assms(3) entitled_roles(5) by blast
  ultimately have "value_of (get_policy w b name) = Ok (google_policy name workload role rvs)"
    using get_policy_without_certificates [OF assms(1,2), of policies_config_default name]
    by (simp add: get_policy_def policies_config_default_def)
  then show ?thesis
    by (simp add: returns_valid_policy_def)
qed

lemma policy_store_tests:
  assumes "policy_bundle_decode b (POLICY_BUNDLE b) = Some \<lparr>policies = bundled_policies us\<rparr>"
    and "glob_paths w [] ''etc/pes-certs/**/*.pem'' = Some []"
  shows "get_policy_encrypted_zone_returns_valid_policy w b"
    "get_policy_pa_frontend_nonprod_returns_valid_policy w b"
    "get_policy_prober_returns_valid_policy w b" "get_policy_prober_ez_returns_valid_policy w b"
    "get_policy_pa_returns_valid_policy w b" "get_policy_development_returns_error w b"
    "get_policy_development_enabled_returns_valid_policy w b" "get_policy_unrecognized_returns_error w b"
proof -
  note valid = entitlement_returns_valid_policy [OF assms]
  show "get_policy_encrypted_zone_returns_valid_policy w b"
    "get_policy_pa_frontend_nonprod_returns_valid_policy w b"
    "get_policy_prober_returns_valid_policy w b" "get_policy_prober_ez_returns_valid_policy w b"
    by (simp_all add: get_policy_encrypted_zone_returns_valid_policy_def
        get_policy_pa_frontend_nonprod_returns_valid_policy_def get_policy_prober_returns_valid_policy_def
        get_policy_prober_ez_returns_valid_policy_def valid google_entitlements_def)
  have "(name, name, name) \<in> set google_entitlements" if "name \<in> set pa_names" for name
    using that by (simp add: google_entitlements_def)
  with valid show "get_policy_pa_returns_valid_policy w b"
    by (simp add: get_policy_pa_returns_valid_policy_def pa_names_def)
  show "get_policy_development_returns_error w b"
    by (simp add: get_policy_development_returns_error_def value_of_def get_policy_with_config_def
        get_policy_with_config_and_c2sp_policy_def bail_def)
  have "registry_of (bundled_policies us) ''development'' = Some (development_policy (us ''development''))"
    by (simp add: bundled_registry development_bundled)
  then show "get_policy_development_enabled_returns_valid_policy w b"
    by (simp add: get_policy_development_enabled_returns_valid_policy_def development_roles_def
        get_policy_without_certificates [OF assms] policies_config_default_def)
  have "registry_of (bundled_policies us) ''nonexistent_policy'' = None"
  proof (cases "registry_of (bundled_policies us) ''nonexistent_policy''")
    case (Some p)
    then have "''nonexistent_policy'' \<in> set (map policy_name (bundled_policies us))"
      by (force simp: bundled_registry image_iff)
    then show ?thesis
      unfolding policy_name_bundled pa_names_def by simp
  qed
  then show "get_policy_unrecognized_returns_error w b"
    by (simp add: get_policy_unrecognized_returns_error_def get_policy_def
        get_policy_without_certificates [OF assms] policies_config_default_def)
qed

section \<open>Tests of the PES traversal\<close>

text \<open>\<open>Policy::default\<close> and the mock reference values: a log block with one of the two fields.\<close>

definition policy_default :: policy where
  "policy_default = \<lparr>publisher_domain = [], publisher_role = [], workload_name = [],
     oak_reference_values = None, policy_operator_policy = None, policy_name = []\<rparr>"

definition policy_with :: "reference_values_type \<Rightarrow> policy" where
  "policy_with t = policy_default\<lparr>oak_reference_values := Some \<lparr>rv_type = Some t\<rparr>\<rparr>"

definition mock_endorsement ::
  "pes_reference_value option \<Rightarrow> c2sp_reference_value option \<Rightarrow> reference_type option" where
  "mock_endorsement p c = Some (Endorsement
     \<lparr>tlog = Some \<lparr>pes = p, c2sp = c, tlog_rest = []\<rparr>, endorsement_rest = []\<rparr>)"

definition pes_mock :: "reference_type option" where
  "pes_mock = mock_endorsement (Some \<lparr>key_set = None\<rparr>) None"

text \<open>The policies that the tests of both traversals build, from the mock value.\<close>

definition root_of :: "reference_type option \<Rightarrow> root_layer_reference_values" where
  "root_of v = \<lparr>amd_sev = Some \<lparr>amd_stage0 = Some \<lparr>brv_type = v\<rparr>, amd_rest = []\<rparr>,
     intel_tdx = None, root_rest = []\<rparr>"

definition kernel_of :: "reference_type option \<Rightarrow> kernel_layer_reference_values" where
  "kernel_of v = \<lparr>kernel = Some \<lparr>kbrv_type = v\<rparr>, init_ram_fs = Some \<lparr>brv_type = v\<rparr>, kernel_rest = []\<rparr>"

definition cbt_all_layers :: "reference_type option \<Rightarrow> bool \<Rightarrow> cbt_reference_values" where
  "cbt_all_layers v agent =
     \<lparr>cbt_root_layer = Some (root_of v), cbt_kernel_layer = Some (kernel_of v),
      layer1 = Some \<lparr>runtime_agent = (if agent then Some \<lparr>brv_type = v\<rparr> else None),
        runtime_agent_binary = Some \<lparr>brv_type = v\<rparr>, userspace = Some \<lparr>brv_type = v\<rparr>\<rparr>,
      layer2 = Some \<lparr>binary_mpm = Some \<lparr>mpm_type = v\<rparr>, binary_mpms = [\<lparr>mpm_type = v\<rparr>, \<lparr>mpm_type = v\<rparr>]\<rparr>\<rparr>"

definition oc_all_layers :: "reference_type option \<Rightarrow> oak_containers_reference_values" where
  "oc_all_layers v =
     \<lparr>oc_root_layer = Some ((root_of v)\<lparr>intel_tdx := Some \<lparr>tdx_stage0 = Some \<lparr>brv_type = v\<rparr>, tdx_rest = []\<rparr>\<rparr>),
      oc_kernel_layer = Some (kernel_of v),
      system_layer = Some \<lparr>system_image = Some \<lparr>brv_type = v\<rparr>\<rparr>,
      container_layer = Some \<lparr>container_binary = Some \<lparr>brv_type = v\<rparr>, configuration = Some \<lparr>brv_type = v\<rparr>\<rparr>\<rparr>"

definition cbt_partial :: "reference_type option \<Rightarrow> cbt_reference_values" where
  "cbt_partial v =
     \<lparr>cbt_root_layer = None,
      cbt_kernel_layer = Some \<lparr>kernel = Some \<lparr>kbrv_type = v\<rparr>, init_ram_fs = None, kernel_rest = []\<rparr>,
      layer1 = None,
      layer2 = Some \<lparr>binary_mpm = Some \<lparr>mpm_type = v\<rparr>, binary_mpms = [\<lparr>mpm_type = v\<rparr>]\<rparr>\<rparr>"

definition cbt_root_only :: "root_layer_reference_values \<Rightarrow> cbt_reference_values" where
  "cbt_root_only r = \<lparr>cbt_root_layer = Some r, cbt_kernel_layer = None, layer1 = None, layer2 = None\<rparr>"

definition test_get_pes_fields_empty :: bool where
  "test_get_pes_fields_empty \<longleftrightarrow> get_pes_fields policy_default = []"

definition test_get_pes_fields_extracts_all_layers :: bool where
  "test_get_pes_fields_extracts_all_layers \<longleftrightarrow>
     length (get_pes_fields (policy_with (Cbt (cbt_all_layers pes_mock True)))) = 9"

definition test_get_pes_fields_oak_containers_extracts_all_layers :: bool where
  "test_get_pes_fields_oak_containers_extracts_all_layers \<longleftrightarrow>
     length (get_pes_fields (policy_with (OakContainers (oc_all_layers pes_mock)))) = 7"

definition test_get_pes_fields_partially_populated :: bool where
  "test_get_pes_fields_partially_populated \<longleftrightarrow>
     length (get_pes_fields (policy_with (Cbt (cbt_partial pes_mock)))) = 3"

text \<open>
  The mocks: \<open>load_certificates\<close> returns the certificates that a test has set, else two for the pattern of
  the server, and \<open>extract_spki_from_pem\<close> puts a prefix before the text.  The world answers so that
  the code itself returns this.
\<close>

definition last_pem :: "trace \<Rightarrow> bytes" where
  "last_pem tr = fold (\<lambda>(c, _) bs. case c of BIO_new_mem_buf pem \<Rightarrow> pem | _ \<Rightarrow> bs) tr []"

definition mock_spki :: "bytes \<Rightarrow> bytes" where
  "mock_spki pem = as_bytes ''spki_of_'' @ pem"

definition mock_certificates :: "string list option \<Rightarrow> string \<Rightarrow> string list" where
  "mock_certificates mock_certs glob_pattern =
     (case mock_certs of
        Some certs \<Rightarrow> certs
      | None \<Rightarrow> if glob_pattern = ''etc/pes-certs/**/*.pem'' then [''mock_cert_foo'', ''mock_cert_bar''] else [])"

definition mock_world :: "string list option \<Rightarrow> world" where
  "mock_world mock_certs = (obliging_world 0)
     \<lparr>says_int := (\<lambda>tr _. int (length (mock_spki (last_pem tr)))),
      says_bytes := (\<lambda>tr _. Some (mock_spki (last_pem tr))),
      glob_paths := (\<lambda>_ pattern. Some (map Some (mock_certificates mock_certs pattern))),
      path_is_file := (\<lambda>_ _. True), read_to_string := (\<lambda>_ path. Some path)\<rparr>"

lemma mock_world_simps [simp]:
  "says_ptr (mock_world m) tr c"
  "says_int (mock_world m) tr c = int (length (mock_spki (last_pem tr)))"
  "says_bytes (mock_world m) tr c = Some (mock_spki (last_pem tr))"
  "glob_paths (mock_world m) tr pattern = Some (map Some (mock_certificates m pattern))"
  "path_is_file (mock_world m) tr path" "read_to_string (mock_world m) tr path = Some path"
  by (simp_all add: mock_world_def)

lemma last_pem_append:
  "last_pem (tr @ calls) = fold (\<lambda>(c, _) bs. case c of BIO_new_mem_buf pem \<Rightarrow> pem | _ \<Rightarrow> bs) calls (last_pem tr)"
  by (simp add: last_pem_def)

lemma mock_extract_spki_from_pem:
  "\<exists>tr'. run_state (extract_spki_from_pem (mock_world m) pem) tr = (Ok (mock_spki (as_bytes pem)), tr')"
  by (simp add: extract_spki_from_pem_def run_calls last_pem_append filled_exact) (simp add: mock_spki_def as_bytes_def)

lemma mock_load_certificates:
  "run_state (load_certificates (mock_world m) pattern) tr = (Ok (mock_certificates m pattern), tr)"
proof -
  have "run_state (read_entries (mock_world m) (map Some certs)) tr = (Ok certs, tr)" for certs
    by (induction certs) (simp_all add: run_calls bindE_def)
  then show ?thesis
    by (simp add: load_certificates_def run_calls)
qed

definition test_load_rsa_sha2_256_keyset_empty :: bool where
  "test_load_rsa_sha2_256_keyset_empty \<longleftrightarrow>
     unwrap_satisfies (value_of (load_rsa_sha2_256_keyset (mock_world None) [])) (\<lambda>result. result = None)"

definition test_load_rsa_sha2_256_keyset_valid :: bool where
  "test_load_rsa_sha2_256_keyset_valid \<longleftrightarrow>
     unwrap_satisfies (value_of (load_rsa_sha2_256_keyset (mock_world None) [''cert_foo'', ''cert_bar'']))
       (\<lambda>result. case result of
          None \<Rightarrow> False
        | Some ks \<Rightarrow> length (keys ks) = 2
            \<and> vk_type (keys ks ! 0) = RsaSha2256 \<and> key_id (keys ks ! 0) = 0
            \<and> raw (keys ks ! 0) = as_bytes ''spki_of_cert_foo''
            \<and> vk_type (keys ks ! 1) = RsaSha2256 \<and> key_id (keys ks ! 1) = 1
            \<and> raw (keys ks ! 1) = as_bytes ''spki_of_cert_bar''
            \<and> signed_timestamp ks = None)"

definition test_inject_pes_keys_success :: bool where
  "test_inject_pes_keys_success \<longleftrightarrow>
     (let policy = policy_with (Cbt (cbt_root_only (root_of pes_mock)));
          expected_key_set =
            \<lparr>keys = [\<lparr>vk_type = RsaSha2256, key_id = 0, raw = as_bytes ''spki_of_mock_cert_foo''\<rparr>,
                     \<lparr>vk_type = RsaSha2256, key_id = 1, raw = as_bytes ''spki_of_mock_cert_bar''\<rparr>],
             signed_timestamp = None\<rparr>;
          expected_policy = policy_with (Cbt (cbt_root_only (root_of
            (mock_endorsement (Some \<lparr>key_set = Some expected_key_set\<rparr>) None))))
      in unwrap_satisfies (value_of (inject_pes_keys (mock_world None) policy)) (\<lambda>p. p = expected_policy))"

definition test_inject_pes_keys_no_certs :: bool where
  "test_inject_pes_keys_no_certs \<longleftrightarrow>
     (let initial_policy = policy_with (Cbt (cbt_root_only (root_of pes_mock)))
      in unwrap_satisfies (value_of (inject_pes_keys (mock_world (Some [])) initial_policy))
           (\<lambda>p. p = initial_policy))"

lemmas mock_values = policy_default_def policy_with_def mock_endorsement_def pes_mock_def root_of_def
  kernel_of_def cbt_all_layers_def oc_all_layers_def cbt_partial_def cbt_root_only_def

lemma pes_field_tests:
  test_get_pes_fields_empty test_get_pes_fields_extracts_all_layers
  test_get_pes_fields_oak_containers_extracts_all_layers test_get_pes_fields_partially_populated
  by (simp_all add: test_get_pes_fields_empty_def test_get_pes_fields_extracts_all_layers_def
      test_get_pes_fields_oak_containers_extracts_all_layers_def
      test_get_pes_fields_partially_populated_def mock_values get_pes_fields_def
      get_pes_fields_from_cbt_def get_pes_fields_from_oak_containers_def pes_getters tlog_of_reference)

lemma mock_load_keys:
  "\<exists>tr'. run_state (load_keys (mock_world m) i certs) tr =
     (Ok (map (\<lambda>(j, c). mk_verifying_key j (mock_spki (as_bytes c))) (enumerate i certs)), tr')"
proof (induction certs arbitrary: i tr)
  case (Cons c certs)
  obtain tr1 where "run_state (extract_spki_from_pem (mock_world m) c) tr = (Ok (mock_spki (as_bytes c)), tr1)"
    using mock_extract_spki_from_pem by blast
  with Cons [of "Suc i" tr1] show ?case
    by (auto simp: bindE_def)
qed simp

lemma mock_keyset:
  assumes "certs \<noteq> []"
  shows "\<exists>tr'. run_state (load_rsa_sha2_256_keyset (mock_world m) certs) tr =
     (Ok (Some \<lparr>keys = map (\<lambda>(j, c). mk_verifying_key j (mock_spki (as_bytes c))) (enumerate 0 certs),
        signed_timestamp = None\<rparr>), tr')"
  using assms mock_load_keys [of m 0 certs tr] by (auto simp: load_rsa_sha2_256_keyset_def bindE_def)

lemma pes_key_tests:
  test_load_rsa_sha2_256_keyset_empty test_load_rsa_sha2_256_keyset_valid
  test_inject_pes_keys_success test_inject_pes_keys_no_certs
proof -
  show test_load_rsa_sha2_256_keyset_empty
    by (simp add: test_load_rsa_sha2_256_keyset_empty_def value_of_def load_rsa_sha2_256_keyset_def)
  obtain tr' where k: "run_state (load_rsa_sha2_256_keyset (mock_world None) [''cert_foo'', ''cert_bar'']) [] =
     (Ok (Some \<lparr>keys = map (\<lambda>(j, c). mk_verifying_key j (mock_spki (as_bytes c)))
        (enumerate 0 [''cert_foo'', ''cert_bar'']), signed_timestamp = None\<rparr>), tr')"
    using mock_keyset [of "[''cert_foo'', ''cert_bar'']"] by blast
  show test_load_rsa_sha2_256_keyset_valid
    by (simp add: test_load_rsa_sha2_256_keyset_valid_def value_of_def k mk_verifying_key_def mock_spki_def
        as_bytes_def)
  obtain tr' where k: "run_state (load_rsa_sha2_256_keyset (mock_world None) [''mock_cert_foo'', ''mock_cert_bar'']) [] =
     (Ok (Some \<lparr>keys = map (\<lambda>(j, c). mk_verifying_key j (mock_spki (as_bytes c)))
        (enumerate 0 [''mock_cert_foo'', ''mock_cert_bar'']), signed_timestamp = None\<rparr>), tr')"
    using mock_keyset [of "[''mock_cert_foo'', ''mock_cert_bar'']"] by blast
  show test_inject_pes_keys_success
    by (simp add: test_inject_pes_keys_success_def value_of_def inject_pes_keys_def bindE_def
        mock_load_certificates mock_certificates_def k Let_def write_pes_key_set_def write_pes_fields
        policy_map_def mock_values cbt_map_def root_map_def on_binary_def mk_verifying_key_def
        mock_spki_def as_bytes_def)
  show test_inject_pes_keys_no_certs
    by (simp add: test_inject_pes_keys_no_certs_def value_of_def inject_pes_keys_def bindE_def
        mock_load_certificates mock_certificates_def load_rsa_sha2_256_keyset_def Let_def)
qed

section \<open>Tests of the C2SP traversal\<close>

definition TEST_C2SP_POLICY :: string where
  "TEST_C2SP_POLICY = ''test c2sp policy''"

definition c2sp_mock :: "reference_type option" where
  "c2sp_mock = mock_endorsement None (Some \<lparr>c2sp_policy = []\<rparr>)"

definition test_get_c2sp_fields_empty :: bool where
  "test_get_c2sp_fields_empty \<longleftrightarrow> get_c2sp_fields policy_default = []"

definition test_get_c2sp_fields_extracts_all_layers :: bool where
  "test_get_c2sp_fields_extracts_all_layers \<longleftrightarrow>
     length (get_c2sp_fields (policy_with (Cbt (cbt_all_layers c2sp_mock False)))) = 8"

definition test_get_c2sp_fields_oak_containers_extracts_all_layers :: bool where
  "test_get_c2sp_fields_oak_containers_extracts_all_layers \<longleftrightarrow>
     length (get_c2sp_fields (policy_with (OakContainers (oc_all_layers c2sp_mock)))) = 7"

definition test_get_c2sp_fields_partially_populated :: bool where
  "test_get_c2sp_fields_partially_populated \<longleftrightarrow>
     length (get_c2sp_fields (policy_with (Cbt (cbt_partial c2sp_mock)))) = 3"

definition test_inject_c2sp_policy_success :: bool where
  "test_inject_c2sp_policy_success \<longleftrightarrow>
     (let policy = policy_with (Cbt (cbt_root_only (root_of c2sp_mock)));
          expected_policy = policy_with (Cbt (cbt_root_only (root_of
            (mock_endorsement None (Some \<lparr>c2sp_policy = TEST_C2SP_POLICY\<rparr>)))))
      in unwrap_satisfies (inject_c2sp_policy policy TEST_C2SP_POLICY) (\<lambda>p. p = expected_policy))"

definition test_inject_c2sp_policy_no_c2sp_fields :: bool where
  "test_inject_c2sp_policy_no_c2sp_fields \<longleftrightarrow>
     (let initial_policy = policy_with (Cbt (cbt_root_only
            \<lparr>amd_sev = Some \<lparr>amd_stage0 = None, amd_rest = []\<rparr>, intel_tdx = None, root_rest = []\<rparr>))
      in unwrap_satisfies (inject_c2sp_policy initial_policy TEST_C2SP_POLICY) (\<lambda>p. p = initial_policy))"

lemma c2sp_tests:
  test_get_c2sp_fields_empty test_get_c2sp_fields_extracts_all_layers
  test_get_c2sp_fields_oak_containers_extracts_all_layers test_get_c2sp_fields_partially_populated
  test_inject_c2sp_policy_success test_inject_c2sp_policy_no_c2sp_fields
  by (simp_all add: test_get_c2sp_fields_empty_def test_get_c2sp_fields_extracts_all_layers_def
      test_get_c2sp_fields_oak_containers_extracts_all_layers_def
      test_get_c2sp_fields_partially_populated_def test_inject_c2sp_policy_success_def
      test_inject_c2sp_policy_no_c2sp_fields_def mock_values c2sp_mock_def get_c2sp_fields_def
      get_c2sp_fields_from_cbt_def get_c2sp_fields_from_oak_containers_def c2sp_getters tlog_of_reference
      inject_c2sp_policy_def modify_c2sp_def modify_tlog_def on_binary_def Let_def)

section \<open>Test of the certificate files\<close>

text \<open>
  A temporary directory with two certificates and two notes; the glob library lists the paths that match
  the pattern, in an order that it does not promise.  The test sorts what it reads; here the two texts
  are compared as a set of two.
\<close>

definition temp_file :: "string \<Rightarrow> string option" where
  "temp_file path =
     map_of [(''/tmp/t/cert1.pem'', ''CERT CONTENT 1''), (''/tmp/t/x/cert2.pem'', ''CERT CONTENT 2''),
             (''/tmp/t/note1.txt'', ''NOTE 1''), (''/tmp/t/x/note2.txt'', ''NOTE 2'')] path"

definition temp_world :: "string list \<Rightarrow> world" where
  "temp_world listing = (obliging_world 0)\<lparr>
     glob_paths := (\<lambda>_ pattern. if pattern = ''/tmp/t/**/*.pem'' then Some (map Some listing) else None),
     path_is_file := (\<lambda>_ path. temp_file path \<noteq> None), read_to_string := (\<lambda>_ path. temp_file path)\<rparr>"

definition test_load_certificates :: "string list \<Rightarrow> bool" where
  "test_load_certificates listing \<longleftrightarrow>
     unwrap_satisfies (value_of (load_certificates (temp_world listing) ''/tmp/t/**/*.pem'')) (\<lambda>certs.
       length certs = 2 \<and> set certs = {''CERT CONTENT 1'', ''CERT CONTENT 2''})"

lemma certificate_file_test:
  "test_load_certificates [''/tmp/t/cert1.pem'', ''/tmp/t/x/cert2.pem'']"
  "test_load_certificates [''/tmp/t/x/cert2.pem'', ''/tmp/t/cert1.pem'']"
  by (simp_all add: test_load_certificates_def value_of_def load_certificates_def temp_world_def
      temp_file_def run_calls bindE_def insert_commute)

section \<open>The suites\<close>

definition policy_suite :: "world \<Rightarrow> build \<Rightarrow> bool" where
  "policy_suite w b \<longleftrightarrow>
     get_policy_encrypted_zone_returns_valid_policy w b
   \<and> get_policy_pa_frontend_nonprod_returns_valid_policy w b
   \<and> get_policy_prober_returns_valid_policy w b \<and> get_policy_prober_ez_returns_valid_policy w b
   \<and> get_policy_pa_returns_valid_policy w b \<and> get_policy_development_returns_error w b
   \<and> get_policy_development_enabled_returns_valid_policy w b \<and> get_policy_unrecognized_returns_error w b"

definition reference_value_suite :: bool where
  "reference_value_suite \<longleftrightarrow>
     test_get_pes_fields_empty \<and> test_get_pes_fields_extracts_all_layers
   \<and> test_get_pes_fields_oak_containers_extracts_all_layers \<and> test_get_pes_fields_partially_populated
   \<and> test_load_rsa_sha2_256_keyset_empty \<and> test_load_rsa_sha2_256_keyset_valid
   \<and> test_inject_pes_keys_success \<and> test_inject_pes_keys_no_certs
   \<and> test_get_c2sp_fields_empty \<and> test_get_c2sp_fields_extracts_all_layers
   \<and> test_get_c2sp_fields_oak_containers_extracts_all_layers \<and> test_get_c2sp_fields_partially_populated
   \<and> test_inject_c2sp_policy_success \<and> test_inject_c2sp_policy_no_c2sp_fields
   \<and> test_load_certificates [''/tmp/t/cert1.pem'', ''/tmp/t/x/cert2.pem'']
   \<and> test_load_certificates [''/tmp/t/x/cert2.pem'', ''/tmp/t/cert1.pem'']"

lemma policy_suites: "policy_suite (obliging_world n) (repository_build us)" reference_value_suite
proof -
  have "glob_paths (obliging_world n) [] ''etc/pes-certs/**/*.pem'' = Some []"
    by (simp add: obliging_world_def)
  from policy_store_tests [OF repository_build_simps(1) this]
  show "policy_suite (obliging_world n) (repository_build us)"
    unfolding policy_suite_def by (intro conjI)
  show reference_value_suite
    unfolding reference_value_suite_def
    by (intro conjI pes_field_tests pes_key_tests c2sp_tests certificate_file_test)
qed

end
