(* ===== verification/Tests_Validation.thy ===== *)
theory Tests_Validation
  imports Tests_Policy
begin

text \<open>
  The unit tests of \<open>csr.rs\<close> and \<open>ca.rs\<close>, each as the conjunction of its assertions about the model.  The
  Oak library and BoringSSL are replaced by doubles: a library that reads the windows of validity
  from a list, one whose signatures are symbolic, and a world in which every call succeeds.
\<close>

section \<open>Tests of the validity window\<close>

text \<open>An event of a test is named by its number; the library reads its window from the list.\<close>

definition window_oak :: "validity option list \<Rightarrow> oak_library" where
  "window_oak windows = (sample_oak [])\<lparr>get_validity := (\<lambda>e. windows ! unat (hd (event_rest e)))\<rparr>"

definition numbered_results :: "nat \<Rightarrow> attestation_results" where
  "numbered_results n = \<lparr>results_status = 0, reason = [], event_attestation_results =
     map (\<lambda>i. \<lparr>tlog_verifications = [], event_rest = [of_nat i]\<rparr>) [0 ..< n]\<rparr>"

definition window_of :: "validity option list \<Rightarrow> int \<Rightarrow> int \<Rightarrow> (anyhow, int \<times> int) outcome" where
  "window_of windows now fallback =
     extract_validity_with_fallback (window_oak windows) (numbered_results (length windows)) now fallback"

definition between :: "int \<Rightarrow> int \<Rightarrow> validity option" where
  "between s e = Some \<lparr>not_before = Some s, not_after = Some e\<rparr>"

definition extract_validity_with_fallback_no_endorsements_uses_fallback :: bool where
  "extract_validity_with_fallback_no_endorsements_uses_fallback \<longleftrightarrow>
     (let now = 1000000 in
      unwrap_satisfies (window_of [None, None] now 500000) (\<lambda>(nb, na). nb = now \<and> na = now + 500000))"

definition extract_validity_with_fallback_single_endorsement :: bool where
  "extract_validity_with_fallback_single_endorsement \<longleftrightarrow>
     (let now = 1000000 in
      unwrap_satisfies (window_of [between 900000 2000000] now 5000000) (\<lambda>(nb, na). nb = now \<and> na = 2000000))"

definition extract_validity_with_fallback_intersects_multiple_windows :: bool where
  "extract_validity_with_fallback_intersects_multiple_windows \<longleftrightarrow>
     unwrap_satisfies (window_of [between 1050000 3000000, between 950000 2000000] 1000000 5000000)
       (\<lambda>(nb, na). nb = 1050000 \<and> na = 2000000)"

definition extract_validity_with_fallback_rejects_expired_window :: bool where
  "extract_validity_with_fallback_rejects_expired_window \<longleftrightarrow>
     unwrap_err_satisfies (window_of [between 500000 900000] 1000000 500000) (\<lambda>_. True)"

definition extract_validity_with_fallback_rejects_inverted_window :: bool where
  "extract_validity_with_fallback_rejects_inverted_window \<longleftrightarrow>
     unwrap_err_satisfies (window_of [between 2000000 3000000, between 1000000 1500000] 1000000 5000000)
       (\<lambda>_. True)"

definition collect_tlog_verification_results_flattens_events :: bool where
  "collect_tlog_verification_results_flattens_events \<longleftrightarrow>
     (let rec = (\<lambda>subject. \<lparr>tlog_subject = subject, tlog_results_rest = []\<rparr>);
          event = (\<lambda>rs. \<lparr>tlog_verifications = rs, event_rest = []\<rparr>)
      in collect_tlog_verification_results \<lparr>results_status = 0, reason = [], event_attestation_results =
           [event [rec ''stage0'', rec ''kernel''], event [], event [rec ''container'']]\<rparr> =
         [rec ''stage0'', rec ''kernel'', rec ''container''])"

lemma validity_tests:
  extract_validity_with_fallback_no_endorsements_uses_fallback
  extract_validity_with_fallback_single_endorsement
  extract_validity_with_fallback_intersects_multiple_windows
  extract_validity_with_fallback_rejects_expired_window
  extract_validity_with_fallback_rejects_inverted_window
  collect_tlog_verification_results_flattens_events
  by code_simp+

section \<open>Tests of the Oak Containers verifier\<close>

text \<open>
  Symbolic signatures: a certificate over user data is the key followed by the data, and verifies under
  a key when it begins with it.  The event that holds the signing key of the container has it as its
  bytes.
\<close>

definition signed_by :: "bytes \<Rightarrow> bytes \<Rightarrow> bytes" where
  "signed_by key payload = key @ payload"

definition symbolic_oak :: oak_library where
  "symbolic_oak = (sample_oak [])\<lparr>
     unique_signing_public_key := (\<lambda>results. case event_attestation_results results of
        [e] \<Rightarrow> Some (event_rest e) | _ \<Rightarrow> None),
     from_sec1_bytes := Some,
     verify_user_data_certificate := (\<lambda>cert key.
        if take (length key) cert = key
        then Ok \<lparr>tlog_verifications = [], event_rest = drop (length key) cert\<rparr>
        else bail ''signature mismatch''),
     create_insecure_verifier := (\<lambda>_. Ok (\<lambda>_ _ _. bail ''unused''))\<rparr>"

definition container_results :: "bytes \<Rightarrow> attestation_results" where
  "container_results key = \<lparr>results_status = status_success symbolic_oak, reason = [],
     event_attestation_results = [\<lparr>tlog_verifications = [], event_rest = key\<rparr>]\<rparr>"

definition evidence_default :: evidence where
  "evidence_default = \<lparr>root_layer = None, signed_user_data_certificate = [], evidence_rest = []\<rparr>"

definition verify_oak_containers_user_data_succeeds_and_extracts_payload :: bool where
  "verify_oak_containers_user_data_succeeds_and_extracts_payload \<longleftrightarrow>
     (let key = replicate 32 0x42; payload = as_bytes ''bound-nonce-and-public-key-payload'';
          ev = evidence_default\<lparr>signed_user_data_certificate := signed_by key payload\<rparr>
      in unwrap_satisfies (verify_oak_containers_user_data symbolic_oak ev (container_results key)) (\<lambda>results.
           payload \<in> set (map event_rest (event_attestation_results results))))"

definition verify_oak_containers_user_data_rejects_missing_or_wrong_signature :: bool where
  "verify_oak_containers_user_data_rejects_missing_or_wrong_signature \<longleftrightarrow>
     (let key = replicate 32 0x42; wrong_key = replicate 32 0x99;
          bad_evidence = evidence_default\<lparr>signed_user_data_certificate := signed_by wrong_key (as_bytes ''payload'')\<rparr>
      in unwrap_err_satisfies (verify_oak_containers_user_data symbolic_oak evidence_default (container_results key))
           (\<lambda>_. True)
       \<and> unwrap_err_satisfies (verify_oak_containers_user_data symbolic_oak bad_evidence (container_results key))
           (\<lambda>_. True))"

definition error_contains :: "anyhow \<Rightarrow> string \<Rightarrow> bool" where
  "error_contains e t \<longleftrightarrow> (case e of Msg m \<Rightarrow> str_contains m t | _ \<Rightarrow> False)"

definition oak_containers_attestation_verifier_propagates_inner_failure :: bool where
  "oak_containers_attestation_verifier_propagates_inner_failure \<longleftrightarrow>
     (let inner = (\<lambda>_ _ _. Ok \<lparr>results_status = 2, reason = ''simulated stage0 mismatch'',
            event_attestation_results = []\<rparr>)
      in unwrap_err_satisfies (oak_containers_attestation_verifier symbolic_oak inner [] evidence_default
           \<lparr>endorsements_rest = []\<rparr>) (\<lambda>err. error_contains err ''simulated stage0 mismatch''))"

definition create_verifier_oak_containers_checks_tee_platform :: bool where
  "create_verifier_oak_containers_checks_tee_platform \<longleftrightarrow>
     (let oak_ref_values = \<lparr>rv_type = Some (OakContainers
            \<lparr>oc_root_layer = Some \<lparr>amd_sev = None, intel_tdx = None, root_rest = []\<rparr>,
             oc_kernel_layer = Some \<lparr>kernel = None, init_ram_fs = None, kernel_rest = []\<rparr>,
             system_layer = Some \<lparr>system_image = None\<rparr>,
             container_layer = Some \<lparr>container_binary = None, configuration = None\<rparr>\<rparr>)\<rparr>
      in unwrap_err_satisfies (create_verifier symbolic_oak oak_ref_values None)
           (\<lambda>err. error_contains err ''missing TEE platform for Oak Containers'')
       \<and> unwrap_err_satisfies (create_verifier symbolic_oak oak_ref_values (Some PlatformUnspecified)) (\<lambda>_. True)
       \<and> unwrap_satisfies (create_verifier symbolic_oak oak_ref_values (Some PlatformNone)) (\<lambda>_. True))"

lemma oak_containers_tests:
  verify_oak_containers_user_data_succeeds_and_extracts_payload
  verify_oak_containers_user_data_rejects_missing_or_wrong_signature
  oak_containers_attestation_verifier_propagates_inner_failure
  create_verifier_oak_containers_checks_tee_platform
  by code_simp+

section \<open>Tests of the alternative names\<close>

text \<open>
  The identity of the tests, with a new key and a window from now on; and the alternative name that
  the calls of an issuing run put together: whether it is critical, and its entries in order.
\<close>

definition create_test_identity ::
  "world \<Rightarrow> certificate_profile \<Rightarrow> string \<Rightarrow> string \<Rightarrow> (anyhow, provisioned_identity) outcome ffi" where
  "create_test_identity w profile domain role =
     bindE (create_ca_keypair w) (\<lambda>key.
     bindE (current_time w) (\<lambda>now_sec.
     ret (Ok \<lparr>public_key = key, certificate_profile = profile, operator_domain_of = domain,
       operator_role_of = role, publisher_domain_of = ''publisher.example.com'',
       publisher_role_of = ''enclave'', workload_name_of = ''test-workload'',
       not_before_sec = now_sec, not_after_sec = now_sec + 90 * 24 * 60 * 60\<rparr>)))"

definition string_of :: "bssl_call list \<Rightarrow> ptr \<Rightarrow> bytes list" where
  "string_of calls str = concat (map (\<lambda>c. case c of ASN1_STRING_set s bs \<Rightarrow> (if s = str then [bs] else []) | _ \<Rightarrow> []) calls)"

definition names_of :: "bssl_call list \<Rightarrow> ptr \<Rightarrow> (gen_type \<times> bytes) list" where
  "names_of calls name = concat (map (\<lambda>c. case c of
      GENERAL_NAME_set0_value n gen str \<Rightarrow> (if n = name then map (Pair gen) (string_of calls str) else [])
    | _ \<Rightarrow> []) calls)"

definition san_entries :: "bssl_call list \<Rightarrow> bool \<times> (gen_type \<times> bytes) list" where
  "san_entries calls =
     (list_ex (\<lambda>c. case c of X509V3_EXT_i2d nid crit _ \<Rightarrow> nid = NID_subject_alt_name \<and> crit = 1 | _ \<Rightarrow> False) calls,
      concat (map (\<lambda>c. case c of Sk_GENERAL_NAME_push _ name \<Rightarrow> names_of calls name | _ \<Rightarrow> []) calls))"

definition issued_san ::
  "world \<Rightarrow> certificate_profile \<Rightarrow> string \<Rightarrow> string \<Rightarrow> (anyhow, bool \<times> (gen_type \<times> bytes) list) outcome" where
  "issued_san w profile domain role = value_of (
     bindE (new_root w) (\<lambda>ca.
     bindE (create_test_identity w profile domain role) (\<lambda>identity. do {
       before \<leftarrow> ask (\<lambda>tr. length tr);
       bindE (generate_certificate w ca identity) (\<lambda>_.
       ask (\<lambda>tr. Ok (san_entries (map fst (drop before tr))))) })))"

definition test_generate_certificate_spiffe_uri_sunny_day :: "world \<Rightarrow> bool" where
  "test_generate_certificate_spiffe_uri_sunny_day w \<longleftrightarrow>
     unwrap_satisfies (issued_san w Unrestricted ''prod.google.com'' ''encrypted-zone'') (\<lambda>(is_critical, entries).
       is_critical \<and> entries = [(GEN_URI, as_bytes
         ''spiffe://prod.google.com.avs.pcit.goog/operator/prod.google.com/encrypted-zone/publisher/publisher.example.com/enclave/workload/test-workload'')])
   \<and> unwrap_satisfies (issued_san w Mtls ''sub.domain.org'' ''worker_node'') (\<lambda>(is_critical, entries).
       is_critical \<and> entries = [(GEN_URI, as_bytes
         ''spiffe://prod.google.com.avs.pcit.goog/operator/sub.domain.org/worker_node/publisher/publisher.example.com/enclave/workload/test-workload'')])"

definition test_generate_certificate_dns_sunny_day :: "world \<Rightarrow> bool" where
  "test_generate_certificate_dns_sunny_day w \<longleftrightarrow>
     unwrap_satisfies (issued_san w Tls ''google.com'' ''frontend'') (\<lambda>(is_critical, entries).
       is_critical \<and> entries = [(GEN_DNS, as_bytes ''frontend.google.com.prod.google.com.avs.pcit.goog'')])"

text \<open>What the calls of an issuing run put together is the alternative name of the identity.\<close>

lemmas with_calls = signed_and_encoded_def leaf_fields_def with_call_def with_authority_key_identifier_def
  with_ext_def added_def with_alt_name_def with_random_serial_def

lemma san_entries_issued:
  assumes "run_state (generate_certificate w ca i) tr = (Ok cert, tr')"
  shows "san_entries (map fst (drop (length tr) tr')) = (True, [(fst (alt_name ca i), as_bytes (snd (alt_name ca i)))])"
proof -
  obtain pushed sig len bs where tr': "tr' = signed_and_encoded (next_obj tr) (guarded (ca_key ca)) sig len bs
      (leaf_fields ca i pushed (next_obj tr) tr)"
    using generate_certificate_Ok [OF assms] by blast
  show ?thesis
    unfolding tr'
    by (cases "certificate_profile i")
      (simp_all add: with_calls with_extended_key_usage_def Let_def san_entries_def names_of_def string_of_def)
qed

lemma test_authority:
  "\<exists>ca tr'. run_state (new_root (obliging_world n)) tr = (Ok ca, tr') \<and> ca_wf ca
     \<and> trust_domain ca = SELF_SIGNED_TRUST_DOMAIN"
  by (simp add: new_root_programs bindE_def or_cleanup_def run_calls mk_ca_def filled_def ISSUER_NAME_def
      ca_wf_def ca_objects_def)

lemma test_identity:
  "\<exists>key tr'. run_state (create_test_identity (obliging_world n) profile domain role) tr =
     (Ok \<lparr>public_key = key, certificate_profile = profile, operator_domain_of = domain,
       operator_role_of = role, publisher_domain_of = ''publisher.example.com'',
       publisher_role_of = ''enclave'', workload_name_of = ''test-workload'',
       not_before_sec = wrap_i64 (int n), not_after_sec = wrap_i64 (int n) + 90 * 24 * 60 * 60\<rparr>, tr')"
  by (simp add: create_test_identity_def create_ca_keypair_def current_time_def bindE_def or_cleanup_def run_calls)

lemma issued_san_obliging:
  assumes "profile \<noteq> ProfileUnspecified"
  shows "issued_san (obliging_world n) profile domain role = Ok (True,
    [if profile = Tls then (GEN_DNS, as_bytes (role @ ''.'' @ domain @ ''.'' @ SELF_SIGNED_TRUST_DOMAIN))
     else (GEN_URI, as_bytes (''spiffe://'' @ SELF_SIGNED_TRUST_DOMAIN @ ''/operator/'' @ domain @ ''/'' @ role
       @ ''/publisher/publisher.example.com/enclave/workload/test-workload''))])"
proof -
  obtain ca tr1 where ca: "run_state (new_root (obliging_world n)) [] = (Ok ca, tr1)" "ca_wf ca"
    "trust_domain ca = SELF_SIGNED_TRUST_DOMAIN"
    using test_authority by blast
  obtain i tr2 where i: "run_state (create_test_identity (obliging_world n) profile domain role) tr1 = (Ok i, tr2)"
    "certificate_profile i = profile" "operator_domain_of i = domain" "operator_role_of i = role"
    "publisher_domain_of i = ''publisher.example.com''" "publisher_role_of i = ''enclave''"
    "workload_name_of i = ''test-workload''"
    using test_identity [of n profile domain role tr1] by force
  from succeedsD [OF succeeds_generate_certificate [OF obliging_library_succeeds ca_wf_can_sign [OF ca(2)]], of i n tr2] assms i(2)
  obtain cert tr3 where g: "run_state (generate_certificate (obliging_world n) ca i) tr2 = (Ok cert, tr3)"
    by auto
  from san_entries_issued [OF g] show ?thesis
    by (simp add: issued_san_def value_of_def bindE_def ca(1,3) i g run_calls alt_name_def dns_name_def spiffe_id_def)
qed

lemma alternative_name_tests:
  "test_generate_certificate_spiffe_uri_sunny_day (obliging_world n)"
  "test_generate_certificate_dns_sunny_day (obliging_world n)"
  by (simp_all add: test_generate_certificate_spiffe_uri_sunny_day_def
      test_generate_certificate_dns_sunny_day_def issued_san_obliging SELF_SIGNED_TRUST_DOMAIN_def)

section \<open>The suites\<close>

definition validation_suite :: bool where
  "validation_suite \<longleftrightarrow>
     extract_validity_with_fallback_no_endorsements_uses_fallback
   \<and> extract_validity_with_fallback_single_endorsement
   \<and> extract_validity_with_fallback_intersects_multiple_windows
   \<and> extract_validity_with_fallback_rejects_expired_window
   \<and> extract_validity_with_fallback_rejects_inverted_window
   \<and> collect_tlog_verification_results_flattens_events
   \<and> verify_oak_containers_user_data_succeeds_and_extracts_payload
   \<and> verify_oak_containers_user_data_rejects_missing_or_wrong_signature
   \<and> oak_containers_attestation_verifier_propagates_inner_failure
   \<and> create_verifier_oak_containers_checks_tee_platform"

definition authority_suite :: "world \<Rightarrow> bool" where
  "authority_suite w \<longleftrightarrow>
     test_generate_certificate_spiffe_uri_sunny_day w \<and> test_generate_certificate_dns_sunny_day w"

lemma validation_suites: validation_suite "authority_suite (obliging_world n)"
  unfolding validation_suite_def authority_suite_def
  by (intro conjI validity_tests oak_containers_tests alternative_name_tests)+

end
