(* ===== verification/Tests_Tca.thy ===== *)
theory Tests_Tca
  imports Tca_Client Tests_Validation
begin

text \<open>
  The unit tests of \<open>third_party/tca-sdk/rust\<close>, each as the conjunction of its assertions about the
  model, over the mocks of the tests; signatures are symbolic as in \<open>Tests_Validation\<close>.  The test of
  the extraction of a key from a CSR tests the \<open>x509_cert\<close> library and is left out.
\<close>

section \<open>The tests\<close>

definition test_certificate_error_display :: bool where
  "test_certificate_error_display \<longleftrightarrow>
     certificate_error_message (Platform ''test error'') = ''Platform error: test error''"

definition MockProvider :: attestation_provider where
  "MockProvider = (\<lambda>_ _. Ok (OakAttestationEvidence None None []))"

definition MockTransport :: tca_transport where
  "MockTransport = (\<lambda>_ _. Ok \<lparr>signed_certificates = [[0xDE, 0xAD, 0xBE, 0xEF]]\<rparr>)"

text \<open>The test runs on a fresh CSR, whose key the library extracts.\<close>

definition test_standard_client_flow :: "tca_environment \<Rightarrow> bytes \<Rightarrow> bool" where
  "test_standard_client_flow env csr_der \<longleftrightarrow>
     unwrap_satisfies (standard_issue_certificate env MockProvider MockTransport [] csr_der) (\<lambda>chain.
       length chain = 1 \<and> chain ! 0 = [0xDE, 0xAD, 0xBE, 0xEF])"

definition test_convert_to_proto :: "tca_environment \<Rightarrow> bool" where
  "test_convert_to_proto env \<longleftrightarrow>
     (let evidence = \<lparr>ee_evidence = Some evidence_default, ee_endorsements = Some \<lparr>endorsements_rest = []\<rparr>\<rparr>
      in unwrap_satisfies (convert_to_proto env evidence [1, 2, 3]) (\<lambda>attestation_evidence.
           signed_public_key attestation_evidence = [1, 2, 3]))"

text \<open>The mocks of the signer and the orchestrator share a key and the evidence.\<close>

definition mock_context :: "bytes \<Rightarrow> endorsed_evidence \<Rightarrow> tca_environment" where
  "mock_context priv_key evidence = sample_tca\<lparr>signer_sign := (\<lambda>_ data. Some (signed_by priv_key data)),
     orchestrator_evidence := (\<lambda>_. Some evidence)\<rparr>"

definition test_get_evidence_cryptographic_binding :: "bytes \<Rightarrow> bool" where
  "test_get_evidence_cryptographic_binding priv_key \<longleftrightarrow>
     (let mock_evidence = \<lparr>ee_evidence = Some (evidence_default\<lparr>evidence_rest := as_bytes ''test_cert_forwarding''\<rparr>),
            ee_endorsements = Some \<lparr>endorsements_rest = []\<rparr>\<rparr>;
          binding_data = as_bytes ''csr_pubkey''
      in unwrap_satisfies (oak_get_evidence (mock_context priv_key mock_evidence) [] binding_data) (\<lambda>result.
           signed_public_key result = signed_by priv_key binding_data
           \<and> map_option evidence_rest (tca_evidence result) = Some (as_bytes ''test_cert_forwarding'')))"

section \<open>The suite\<close>

definition tca_suite :: "tca_environment \<Rightarrow> bytes \<Rightarrow> bytes \<Rightarrow> bool" where
  "tca_suite env csr_der priv_key \<longleftrightarrow>
     test_certificate_error_display \<and> test_standard_client_flow env csr_der \<and> test_convert_to_proto env
   \<and> test_get_evidence_cryptographic_binding priv_key"

lemma tca_tests: "tca_suite sample_tca csr_der priv_key"
proof -
  have test_certificate_error_display
    by code_simp
  moreover have "test_standard_client_flow sample_tca csr_der"
    by (simp add: test_standard_client_flow_def standard_issue_certificate_def csr_public_key_of_def
        MockProvider_def MockTransport_def sample_tca_def)
  moreover have "test_convert_to_proto sample_tca"
    by (simp add: test_convert_to_proto_def convert_to_proto_def sample_tca_def)
  moreover have "test_get_evidence_cryptographic_binding priv_key"
    by (simp add: test_get_evidence_cryptographic_binding_def oak_get_evidence_def get_endorsed_evidence_def
        convert_to_proto_def mock_context_def sample_tca_def)
  ultimately show ?thesis
    by (simp add: tca_suite_def)
qed

end
