(* ===== verification/Spec2Isabelle.thy ===== *)
theory Spec2Isabelle
  imports Avs_Bringup Avs_Spec Chain_Of_Trust Bundled_Policies Tests_Tca
begin

text \<open>
  \<^bold>\<open>Attestation Verification Service: a model of the server and of the certificates it issues.\<close>

  The service runs in an enclave.  A workload sends it a certificate signing request together with
  attestation evidence; the service checks that the evidence satisfies a policy of its embedded
  bundle, that the operator is one the policy authorises, and that the evidence is bound to the key
  of the request (and, on the streaming path, to a fresh challenge), and answers with a
  certificate signed by its own certificate authority.  The authority is self-signed or obtained
  from a Trusted Certificate Authority (TCA), and can be replaced while requests are served.

  \<^bold>\<open>Parts and theories.\<close>  Paths are relative to \<open>src/\<close>; the Rust sources of the server are in
  \<open>avs_server/src\<close>, those of the policies in \<open>avs_server/policies\<close>.

  \<^item> \<open>Avs_Prelude\<close>: the result type \<open>outcome\<close> (value, error, panic), \<open>anyhow\<close> errors, bytes,
    64-bit wrap-around, big-endian numbers, UTF-8, splitting of strings.
  \<^item> \<open>Operator_Info\<close>: \<open>operator_info.rs\<close>, the validation of operator domains and roles.
  \<^item> \<open>Avs_Proto\<close>: the messages of \<open>avs_server/proto\<close> as records and datatypes, the enum conversions.
  \<^item> \<open>Ffi_World\<close>: the calls to BoringSSL, the clock and the file system.  A program is a state
    monad over the trace of calls and answers; a \<open>world\<close> answers each call as a function of the
    trace.  \<open>ownership\<close> reads off a trace which foreign objects are alive and whether a dead one was
    used; \<open>owns\<close> is the resulting program logic, with one contract for each call.
  \<^item> \<open>Policy_Refs\<close>, \<open>Policy_Map\<close>: \<open>pes.rs\<close> and \<open>c2sp.rs\<close>, the collection of mutable references into
    the reference values of a policy, and the writes through them.
  \<^item> \<open>Policy_Store\<close>: \<open>policy.rs\<close>, \<open>certs.rs\<close>, the key set of \<open>pes.rs\<close>, and \<open>bundle_policies.rs\<close>.
  \<^item> \<open>Cert_Authority\<close>: \<open>ca.rs\<close>, every function; \<open>Cert_Content\<close>: what issued certificates hold;
    \<open>Trust_Domain\<close>: how the trust domain is found in the certificate of an authority.
  \<^item> \<open>Csr_Validation\<close>: \<open>csr.rs\<close>, the validation of a request.
  \<^item> \<open>Tca_Client\<close>: \<open>third_party/tca-sdk/rust\<close>, the client of the TCA.
  \<^item> \<open>Avs_Server\<close>: \<open>server.rs\<close>, the gRPC handlers; the streaming handler is a state machine.
  \<^item> \<open>Avs_System\<close>: the running service as a transition system over the handlers, which interleave and
    may be cancelled where they await.
  \<^item> \<open>Signing_Discipline\<close>, \<open>Chain_Of_Trust\<close>: which calls the handlers may make, in particular what they
    sign, and where the keys and names of the authorities come from.
  \<^item> \<open>Avs_Spec\<close>: the abstract service that the transition system refines.
  \<^item> \<open>Avs_Liveness\<close>: termination of stream tasks, and that honest clients are served.
  \<^item> \<open>Avs_Startup\<close>: \<open>config.rs\<close> and \<open>main.rs\<close>; \<open>Avs_Bringup\<close>: from start-up over key generation to the
    first certificate.
  \<^item> \<open>Bundled_Policies\<close>: the fifteen policies of the repository (\<open>avs_server/policies/*/*.textproto\<close>, in the
    order of \<open>BUILD\<close>) and whom they entitle.
  \<^item> \<open>Tests_Identity\<close>, \<open>Tests_Policy\<close>, \<open>Tests_Validation\<close>, \<open>Tests_Tca\<close>: the unit tests of the Rust files, one
    definition for each test, with a lemma for each suite that the model passes it.  They validate the
    model and are not properties of the service.

  \<^bold>\<open>State and operations.\<close>  The service state is \<open>avs_service\<close> (the struct
  \<open>AttestationVerificationService\<close>); an authority is a \<open>certificate_authority\<close> with its key and issuer
  name as pointers behind mutexes.  Each Rust function is one definition with its guards and early
  returns in the order of the code, every error as a value; \<open>bindE\<close> is the question-mark operator and
  \<open>or_cleanup\<close> the match that frees and returns.  Panics are the third kind of outcome.

  \<^bold>\<open>What the lemmas show.\<close>  Validation: the operator is authorised by the bundled policy, the key and
  the challenge are attested, the validity lies in the reported windows, and evidence for one
  challenge is refused for another.  Issuing: the exact fields of a certificate, injective names, no
  leak and no use of a freed object.  Policies: writing through references is a structural map, and
  what is served is what was bundled; under the policies of the repository exactly the listed operators
  are entitled, development certificates never carry another policy's names, no field of a served policy
  stays empty and each gives a verifier.  The system: in all interleavings the live foreign objects are
  those of the referenced authorities and of pending key generations, streams follow their protocol,
  every request is answered, key generation replaces the authority or changes nothing, and the service
  refines its specification; every authority is anchored in the calls that made it and
  every signature is accounted for; when the libraries work the service comes up and certifies honest
  clients, and whatever went wrong before, it certifies them again in every reachable state from which
  on the libraries work.
  This theory joins start-up, the system, validation and issuing into one statement about every
  certificate that leaves the service.

  Interfaces are locales: \<open>field_refs\<close> (Policy_Refs), \<open>self_delimiting\<close> (Csr_Validation), \<open>tca_parts\<close>
  (Tca_Client), \<open>issuer\<close> (Avs_Server), \<open>forward_simulation\<close> (Avs_Spec), \<open>call_discipline\<close>
  (Signing_Discipline), each interpreted on the definitions of the code.

  \<^bold>\<open>Bounds.\<close>  All functions are total and no fuel is used: loops are structural over the data they
  traverse, \<open>utf8_decode\<close> terminates since each step drops a byte, and a stream task takes at most two
  items (\<open>turns_left\<close>).  Lengths and key numbers are reduced modulo the width of the Rust integer;
  the clock is assumed below \<open>2 ^ 62\<close> seconds where a sum of seconds must not wrap.

  \<^bold>\<open>Parameters.\<close>  Code that is not in the repository is a parameter: BoringSSL, the clock and the file
  system (\<open>world\<close>), the Oak attestation library (\<open>oak_library\<close>), the generated bundle and its decoder
  (\<open>build\<close>), the enclave's signer, orchestrator, codecs and network (\<open>tca_environment\<close>,
  \<open>startup_environment\<close>).  The fields of the bundled policies that the server never reads (keys of
  endorsers, claims, firmware versions) are the parameter \<open>unread\<close>.  Hypotheses on them are that they
  return rather than panic and that \<open>EVP_PKEY_assign_RSA\<close> succeeds (without which the code leaks its RSA
  object, as \<open>Cert_Content\<close> shows for every such run), both in \<open>system_environment\<close>; and, for liveness, that
  calls succeed and a configured TCA answers.  \<open>library_succeeds_after h w\<close> asks for success only from the
  history \<open>h\<close> on, and \<open>library_succeeds w\<close> is the case of the empty history.  The unit tests replace the libraries by doubles, as the Rust tests do or, for
  signatures, by symbolic ones.

  \<^bold>\<open>Not modelled.\<close>  The tokio and tonic runtimes beyond the interleaving of handlers at their awaits,
  transport security and the wire format; log lines; the text that an error takes from a library
  error; the lock poisoning that a panic would cause (the state of the mutexes is a field, and no
  handler panics under the hypotheses); cryptography itself, which is what the answers of the library
  mean; module glue and build scripts; of the unit tests, those of the decoding that
  the libraries do (\<open>test_extract_spki_from_pem\<close>, \<open>test_csr_public_key_extraction\<close>); the integration tests
  (\<open>avs_server_lib_test.rs\<close>, \<open>tlog_policy_test.rs\<close>), which parse and verify real certificates and
  evidence; the usage example.
\<close>

section \<open>From start-up to a certificate\<close>

lemma started_environment:
  assumes "Serve addr svc \<in> set (fst (avs_main env))" and "environment_ok oak b" and "assign_rsa_succeeds w"
  shows "service_ca svc = None" and "system_environment w oak b svc"
  using served_service_initial [of env svc] assms by (simp_all add: served_service system_environment_def)

lemma operator_of_proto:
  assumes "operator_info_try_from proto = Ok info"
  shows "valid_operator_info info \<and> proto = \<lparr>operator_domain = oi_domain info, operator_role = oi_role info\<rparr>"
  using assms by (cases proto) (auto simp: operator_info_try_from_def operator_info_new_Ok)

text \<open>
  The contents of a response: a leaf certificate with exactly the fields of an identity, signed with
  the key of the authority from the trace on, followed by the authority's chain; and the release of
  the key of the request.
\<close>

definition response_for ::
  "certificate_authority \<Rightarrow> provisioned_identity \<Rightarrow> tlog_verification_results list \<Rightarrow> trace \<Rightarrow>
     certify_attestation_response \<Rightarrow> trace \<Rightarrow> bool" where
  "response_for ca identity tlogs tr resp tr' \<longleftrightarrow>
     (\<exists>pushed sig len bs. pushed \<noteq> 0 \<and> sig > 0
      \<and> resp = \<lparr>certificate_chain = filled len bs # ca_cert_chain_der ca, tlog_verification_results = tlogs\<rparr>
      \<and> tr' = signed_and_encoded (next_obj tr) (guarded (ca_key ca)) sig len bs
          (leaf_fields ca identity pushed (next_obj tr) tr) @ [(Free EVP_PKEY (public_key identity), RUnit)])"

lemma response_content:
  assumes "run_state (generate_certificate w ca identity) tr = (Ok cert, tr1)"
  shows "response_for ca identity tlogs tr
    \<lparr>certificate_chain = cert # ca_cert_chain_der ca, tlog_verification_results = tlogs\<rparr>
    (tr1 @ [(Free EVP_PKEY (public_key identity), RUnit)])"
  using generate_certificate_Ok [OF assms] by (auto simp: response_for_def)

section \<open>Properties\<close>

text \<open>C1: a certificate that leaves a stream of a service that \<open>main\<close> started, in any reachable state,
  answers the one challenge of that stream: the challenge of 32 bytes was the only message sent
  before, the request names a well-formed operator that a rule of the named policy authorises under
  the configuration of the service, the attestation accepted under that policy binds that very
  challenge and the certified key, and the certificate has exactly the fields of that identity, signed
  with the key of a live authority, whose chain follows it; that authority is anchored: its own
  certificate was made for that key, or obtained from the TCA for it.\<close>

theorem started_service_certifies_challenged_operators:
  assumes start: "Serve addr svc \<in> set (fst (avs_main env))"
    and env: "environment_ok oak b" "assign_rsa_succeeds w"
    and reach: "reachable w oak b svc s"
    and i: "i < length (sys_streams s)" "sys_streams s ! i = (st, sent)"
    and turn: "run_state (stream_step w oak b (service_policies_config (sys_service s)) st item alive)
      (sys_trace s) = ((st', out), tr')"
    and cert: "Ok (CertifyResponse resp) \<in> set out"
  shows "\<exists>ca nonce req ev en info name profile identity tlogs tr1.
      st = AwaitFinish ca nonce \<and> ca \<in> set (live s)
    \<and> anchored w (service_tca_client svc) ca (sys_trace s) \<and> sent = [Ok (ChallengeResponse nonce)] \<and> length nonce = 32
    \<and> item = Received (Some (CertifyRequest req)) \<and> req_evidence req = Some ev \<and> req_endorsements req = Some en
    \<and> req_operator_info req = Some \<lparr>operator_domain = oi_domain info, operator_role = oi_role info\<rparr>
    \<and> valid_operator_info info
    \<and> resolve_policy_request (req_selector req) (oi_role info) = Ok (name, profile)
    \<and> authorised_by_bundle b (service_policies_config svc) name profile info identity
    \<and> attested_for_challenge w oak b (service_policies_config svc) (req_csr req) ev en nonce name identity
        tlogs (sys_trace s) tr1
    \<and> response_for ca identity tlogs tr1 resp tr'"
proof -
  from stream_certificate [OF turn cert] obtain ca nonce req where st: "st = AwaitFinish ca nonce"
    and item: "item = Received (Some (CertifyRequest req))"
    and fin: "run_state (certify_finish w oak b (service_policies_config svc) ca nonce req) (sys_trace s) =
      (Ok resp, tr')"
    by (auto simp: reachable_config [OF reach])
  have mem: "(AwaitFinish ca nonce, sent) \<in> set (sys_streams s)"
    using i st by (metis nth_mem)
  then have live: "ca \<in> set (live s)" by (force simp: set_live)
  then have "anchored w (service_tca_client svc) ca (sys_trace s)"
    using reachable_chain_inv [OF reach started_environment(1) [OF start env]]
    by (simp add: chain_inv_def)
  moreover from reachable_inv [OF reach started_environment [OF start env]] mem
  have "length nonce = 32 \<and> sent = [Ok (ChallengeResponse nonce)]"
    by (auto simp: system_inv_def streams_ok_def)
  moreover from certify_finish_Ok [OF fin] obtain ev en proto info name profile identity tlogs c tr1 tr2 where
    req: "req_evidence req = Some ev" "req_endorsements req = Some en" "req_operator_info req = Some proto"
    and sel: "resolve_policy_request (req_selector req) (oi_role info) = Ok (name, profile)"
    and info: "operator_info_try_from proto = Ok info"
    and v: "run_state (validate_csr_request w oak b (req_csr req) ev en (Some nonce) name profile info
        (service_policies_config svc)) (sys_trace s) = (Ok (identity, tlogs), tr1)"
    and g: "run_state (generate_certificate w ca identity) tr1 = (Ok c, tr2)"
    and r: "tr' = tr2 @ [(Free EVP_PKEY (public_key identity), RUnit)]"
      "resp = \<lparr>certificate_chain = c # ca_cert_chain_der ca, tlog_verification_results = tlogs\<rparr>"
    by blast
  ultimately show ?thesis
    using st live item sel operator_of_proto [OF info] validated_operator [OF v] validated_attestation [OF v]
      response_content [OF g, of tlogs, folded r]
    by blast
qed

lemma started_service_certifies_challenged_operators_witness:
  "\<exists>s ca nonce info identity name profile tlogs resp tr1 tr'.
      reachable (obliging_world 1000) echo_oak cbt_build (service_new None) s
    \<and> sys_streams s = [(AwaitFinish ca nonce, [Ok (ChallengeResponse nonce)])] \<and> length nonce = 32
    \<and> authorised_by_bundle cbt_build policies_config_default name profile info identity
    \<and> attested_for_challenge (obliging_world 1000) echo_oak cbt_build policies_config_default [] (echo_evidence nonce)
        sample_endorsements nonce name identity tlogs (sys_trace s) tr1
    \<and> response_for ca identity tlogs tr1 resp tr'"
proof -
  obtain s ca nonce where s: "reachable (obliging_world 1000) echo_oak cbt_build (service_new None) s"
    "sys_streams s = [(AwaitFinish ca nonce, [Ok (ChallengeResponse nonce)])]" "length nonce = 32"
    using sample_challenged by blast
  have env: "environment_ok echo_oak cbt_build" "assign_rsa_succeeds (obliging_world 1000)"
    by (simp_all add: environment_ok_def cbt_build_def oak_answers_def echo_oak_def sample_oak_def
        answers_def creates_def assign_rsa_succeeds_def)
  have "ca_wf ca"
    using reachable_inv [OF s(1) started_environment [OF self_signed_served env]] s(2)
      owns_live_authority(1) [of s ca] by (simp add: system_inv_def set_live)
  from succeedsD [OF echo_finish [OF this s(3)], of "sys_trace s"] obtain resp tr' where
    "run_state (certify_finish (obliging_world 1000) echo_oak cbt_build policies_config_default ca nonce
      (echo_client nonce)) (sys_trace s) = (Ok resp, tr')"
    by blast
  then have "run_state (stream_step (obliging_world 1000) echo_oak cbt_build
      (service_policies_config (sys_service s)) (AwaitFinish ca nonce)
      (Received (Some (CertifyRequest (echo_client nonce)))) True) (sys_trace s) =
      ((Finished, [Ok (CertifyResponse resp)]), tr')"
    by (simp add: reachable_config [OF s(1)] service_new_def expect_message_def)
  from started_service_certifies_challenged_operators [OF self_signed_served env s(1) _ _ this, of 0 _ resp] s(2)
  obtain info identity name profile tlogs tr1 where
    "authorised_by_bundle cbt_build policies_config_default name profile info identity"
    "attested_for_challenge (obliging_world 1000) echo_oak cbt_build policies_config_default [] (echo_evidence nonce)
      sample_endorsements nonce name identity tlogs (sys_trace s) tr1"
    "response_for ca identity tlogs tr1 resp tr'"
    by (auto simp: service_new_def echo_client_def)
  with s show ?thesis by blast
qed

text \<open>C15: a unary request is answered with a certificate only by an initialised service, for a
  well-formed operator that a rule of the named policy authorises; the certificate has exactly the
  fields of that identity, signed with the key of the current authority, whose chain follows it.\<close>

theorem unary_certificate_is_authorised:
  assumes "run_state (certify_attestation w oak b svc req) tr = (Ok resp, tr')"
  shows "\<exists>ca info name profile identity tlogs tr1.
      service_ca svc = Some ca
    \<and> req_operator_info req = Some \<lparr>operator_domain = oi_domain info, operator_role = oi_role info\<rparr>
    \<and> valid_operator_info info
    \<and> resolve_policy_request (req_selector req) (oi_role info) = Ok (name, profile)
    \<and> authorised_by_bundle b (service_policies_config svc) name profile info identity
    \<and> response_for ca identity tlogs tr1 resp tr'"
proof -
  from certify_attestation_Ok [OF assms] obtain ca ev en proto info name profile identity tlogs c tr1 tr2 where
    ca: "service_ca svc = Some ca" "req_operator_info req = Some proto"
      "resolve_policy_request (req_selector req) (oi_role info) = Ok (name, profile)"
    and info: "operator_info_try_from proto = Ok info"
    and v: "run_state (validate_csr_request w oak b (req_csr req) ev en None name profile info
        (service_policies_config svc)) tr = (Ok (identity, tlogs), tr1)"
    and g: "run_state (generate_certificate w ca identity) tr1 = (Ok c, tr2)"
    and r: "tr' = tr2 @ [(Free EVP_PKEY (public_key identity), RUnit)]"
      "resp = \<lparr>certificate_chain = c # ca_cert_chain_der ca, tlog_verification_results = tlogs\<rparr>"
    by blast
  then show ?thesis
    using operator_of_proto [OF info] validated_operator [OF v] response_content [OF g, of tlogs, folded r]
    by blast
qed

lemma sample_unary_validation:
  "\<exists>tr'. run_state (validate_csr_request (obliging_world 1000) (sample_oak [7]) cbt_build [] sample_evidence
      sample_endorsements None ''prober'' Mtls sample_operator policies_config_default) [] =
      (Ok (sample_identity, []), tr')"
proof -
  have "\<exists>tr'. run_state (verify_data_binding (obliging_world 1000) (sample_oak [7])
      \<lparr>results_status = 1, reason = [], event_attestation_results = [sample_event [7]]\<rparr> (Obj 2) None) tr =
      (Ok (), tr')" for tr
    by (simp add: verify_data_binding_def sample_oak_simps Let_def bindE_def parse_quoted_key_def
        key_pair_from_bytes_def with_context_def key_pair_eq_def key_pair_drop_def run_calls)
  then show ?thesis
    using sample_validation_Ok [of "[7]" None] unfolding sample_validation_def by blast
qed

definition sample_service :: avs_service where
  "sample_service = install_authority sample_ca (service_new None)"

definition sample_request :: certify_attestation_request where
  "sample_request = (echo_client [])\<lparr>req_evidence := Some sample_evidence\<rparr>"

lemma sample_unary:
  "\<exists>resp tr'. run_state (certify_attestation (obliging_world 1000) (sample_oak [7]) cbt_build sample_service
      sample_request) [] = (Ok resp, tr')"
proof -
  obtain tr1 where "run_state (validate_csr_request (obliging_world 1000) (sample_oak [7]) cbt_build []
      sample_evidence sample_endorsements None ''prober'' Mtls sample_operator policies_config_default) [] =
      (Ok (sample_identity, []), tr1)"
    using sample_unary_validation by blast
  moreover have "ca_wf sample_ca" "certificate_profile sample_identity \<noteq> ProfileUnspecified"
    by (simp_all add: sample_ca_def mk_ca_def ca_wf_def ca_objects_def sample_identity_def)
  from succeedsD [OF succeeds_issue [OF echo_setting(1) ca_wf_can_sign [OF this(1)] this(2)]] obtain resp tr' where
    "run_state (issue_response (obliging_world 1000) sample_ca sample_identity []) tr1 = (Ok resp, tr')"
    by blast
  ultimately show ?thesis
    using echo_setting(6) echo_setting(7) [of "[]"]
    by (simp add: certify_attestation_def bindE_def sample_service_def install_authority_def
        service_new_def sample_request_def echo_client_def)
qed

lemma unary_certificate_is_authorised_witness:
  "\<exists>info name profile identity. valid_operator_info info
    \<and> authorised_by_bundle cbt_build policies_config_default name profile info identity"
proof -
  obtain resp tr' where "run_state (certify_attestation (obliging_world 1000) (sample_oak [7]) cbt_build
      sample_service sample_request) [] = (Ok resp, tr')"
    using sample_unary by blast
  from unary_certificate_is_authorised [OF this] show ?thesis
    by (simp add: sample_service_def install_authority_def service_new_def) blast
qed

end
